(* ===== verification/Kermol_Prelude.thy ===== *)
theory Kermol_Prelude
  imports Main "HOL-Library.Word"
begin

text \<open>
  Shared vocabulary of the development.

  \<^item> Machine integers. The kernel is built by \<open>cargo build\<close> in the debug profile (Makefile,
    targets \<open>libkermol.a\<close> and \<open>libkermol_objects\<close>), where \<open>+\<close>, \<open>-\<close> and \<open>*\<close> on integers are
    checked: a result outside the type is a panic. \<open>u64\<close> and \<open>usize\<close> are natural numbers and
    every operation the source performs on them is one of the checked operations below, so a
    result outside the type is the outcome \<open>Panic\<close> and never a wrapped value. \<open>u8\<close> and
    \<open>u32\<close>, on which the source works bitwise or which it only moves around, are words.
  \<^item> Outcomes. A Rust function returns a value, returns \<open>Err e\<close>, or panics: the datatype
    \<open>outcome\<close>. A function that takes \<open>&mut self\<close> is a program: a function of the state to an
    outcome and the new state (the state reached so far, when the outcome is an error or a panic).
  \<^item> Slices and loops: indexing, range filling, and \<open>for x in xs\<close> with early exit.
\<close>

unbundle bit_operations_syntax

type_synonym u8 = "8 word"
type_synonym u32 = "32 word"
type_synonym u64 = nat
type_synonym usize = nat
type_synonym rust_char = nat  \<comment> \<open>a \<open>char\<close>: its code point\<close>

named_theorems run_simps
  \<open>unfolding rules that run a program\<close>

named_theorems arith_simps_u64
  \<open>unfolding rules of the checked integer operations\<close>

section \<open>Outcomes\<close>

datatype panic =
    ArithmeticOverflow
  | DivisionByZero
  | IndexOutOfBounds
  | UnwrapFailed
  | AssertFailed
  | ExplicitPanic
  | NotYetImplemented
  | LibraryPanic
  | BadPointer
  | PageFault
  | UnreachableCode

datatype ('e, 'a) outcome = Ok 'a | Err 'e | Panic panic

definition try_outcome :: "('e, 'a) outcome \<Rightarrow> ('a \<Rightarrow> ('e, 'b) outcome) \<Rightarrow> ('e, 'b) outcome" where
  "try_outcome m f = (case m of Ok a \<Rightarrow> f a | Err e \<Rightarrow> Err e | Panic p \<Rightarrow> Panic p)"

definition of_lib :: "'a option \<Rightarrow> ('e, 'a) outcome" where
  "of_lib x = (case x of None \<Rightarrow> Panic LibraryPanic | Some a \<Rightarrow> Ok a)"

definition unwrap_option :: "'a option \<Rightarrow> ('e, 'a) outcome" where
  "unwrap_option x = (case x of None \<Rightarrow> Panic UnwrapFailed | Some a \<Rightarrow> Ok a)"

definition unwrap_outcome :: "('e, 'a) outcome \<Rightarrow> ('f, 'a) outcome" where
  "unwrap_outcome m = (case m of Ok a \<Rightarrow> Ok a | Err e \<Rightarrow> Panic UnwrapFailed | Panic p \<Rightarrow> Panic p)"

definition map_err :: "('e \<Rightarrow> 'f) \<Rightarrow> ('e, 'a) outcome \<Rightarrow> ('f, 'a) outcome" where
  "map_err g m = (case m of Ok a \<Rightarrow> Ok a | Err e \<Rightarrow> Err (g e) | Panic p \<Rightarrow> Panic p)"

definition no_panic :: "('e, 'a) outcome \<Rightarrow> bool" where
  "no_panic m = (case m of Panic p \<Rightarrow> False | _ \<Rightarrow> True)"

lemma try_outcome_simps [simp, run_simps]:
  "try_outcome (Ok a) f = f a"
  "try_outcome (Err e) f = Err e"
  "try_outcome (Panic p) f = Panic p"
  by (simp_all add: try_outcome_def)

lemma of_lib_simps [simp, run_simps]:
  "of_lib (Some a) = Ok a"
  "of_lib None = Panic LibraryPanic"
  by (simp_all add: of_lib_def)

lemma unwrap_option_simps [simp, run_simps]:
  "unwrap_option (Some a) = Ok a"
  "unwrap_option None = Panic UnwrapFailed"
  by (simp_all add: unwrap_option_def)

lemma unwrap_outcome_simps [simp, run_simps]:
  "unwrap_outcome (Ok a) = Ok a"
  "unwrap_outcome (Err e) = Panic UnwrapFailed"
  "unwrap_outcome (Panic p) = Panic p"
  by (simp_all add: unwrap_outcome_def)

lemma map_err_simps [simp, run_simps]:
  "map_err g (Ok a) = Ok a"
  "map_err g (Err e) = Err (g e)"
  "map_err g (Panic p) = Panic p"
  by (simp_all add: map_err_def)

lemma no_panic_simps [simp]:
  "no_panic (Ok a)"
  "no_panic (Err e)"
  "\<not> no_panic (Panic p)"
  by (simp_all add: no_panic_def)

lemma try_outcome_Ok_iff:
  "try_outcome m f = Ok b \<longleftrightarrow> (\<exists>a. m = Ok a \<and> f a = Ok b)"
  by (cases m) auto

lemma of_lib_Ok_iff [simp]: "of_lib x = Ok a \<longleftrightarrow> x = Some a"
  by (cases x) auto

lemma try_outcome_cong [fundef_cong]:
  "m = m' \<Longrightarrow> (\<And>a. m' = Ok a \<Longrightarrow> f a = g a) \<Longrightarrow> try_outcome m f = try_outcome m' g"
  by (cases m') auto

section \<open>Checked integers\<close>

definition add64 :: "u64 \<Rightarrow> u64 \<Rightarrow> ('e, u64) outcome" where
  "add64 a b = (if a + b < 2 ^ 64 then Ok (a + b) else Panic ArithmeticOverflow)"

definition sub64 :: "u64 \<Rightarrow> u64 \<Rightarrow> ('e, u64) outcome" where
  "sub64 a b = (if b \<le> a then Ok (a - b) else Panic ArithmeticOverflow)"

definition mul64 :: "u64 \<Rightarrow> u64 \<Rightarrow> ('e, u64) outcome" where
  "mul64 a b = (if a * b < 2 ^ 64 then Ok (a * b) else Panic ArithmeticOverflow)"

definition div64 :: "u64 \<Rightarrow> u64 \<Rightarrow> ('e, u64) outcome" where
  "div64 a b = (if b = 0 then Panic DivisionByZero else Ok (a div b))"

definition rem64 :: "u64 \<Rightarrow> u64 \<Rightarrow> ('e, u64) outcome" where
  "rem64 a b = (if b = 0 then Panic DivisionByZero else Ok (a mod b))"

definition add8 :: "u8 \<Rightarrow> u8 \<Rightarrow> ('e, u8) outcome" where
  "add8 a b = (if unat a + unat b < 2 ^ 8 then Ok (a + b) else Panic ArithmeticOverflow)"

text \<open>\<open>usize::div_ceil\<close> of the core library.\<close>

definition div_ceil :: "usize \<Rightarrow> usize \<Rightarrow> usize" where
  "div_ceil a b = (if a mod b = 0 then a div b else a div b + 1)"

declare add64_def [arith_simps_u64] sub64_def [arith_simps_u64] mul64_def [arith_simps_u64]
  div64_def [arith_simps_u64] rem64_def [arith_simps_u64]

lemma add64_Ok_iff [simp]: "add64 a b = Ok c \<longleftrightarrow> a + b < 2 ^ 64 \<and> c = a + b"
  by (auto simp: add64_def)

lemma sub64_Ok_iff [simp]: "sub64 a b = Ok c \<longleftrightarrow> b \<le> a \<and> c = a - b"
  by (auto simp: sub64_def)

lemma mul64_Ok_iff [simp]: "mul64 a b = Ok c \<longleftrightarrow> a * b < 2 ^ 64 \<and> c = a * b"
  by (auto simp: mul64_def)

lemma rem64_Ok_iff [simp]: "rem64 a b = Ok c \<longleftrightarrow> b \<noteq> 0 \<and> c = a mod b"
  by (auto simp: rem64_def)

lemma add8_zero [simp]: "add8 0 b = Ok b"
proof -
  have "unat b < 2 ^ 8"
    using unsigned_less [of b] by simp
  then show ?thesis
    by (simp add: add8_def)
qed

lemma div_ceil_bounds:
  assumes "0 < b"
  shows "a \<le> div_ceil a b * b" "div_ceil a b * b < a + b"
proof -
  define q where "q = a div b * b"
  define r where "r = a mod b"
  have "q + r = a" and "r < b"
    using assms by (simp_all add: q_def r_def)
  moreover have "div_ceil a b * b = (if r = 0 then q else q + b)"
    by (simp add: div_ceil_def q_def r_def add_mult_distrib)
  ultimately show "a \<le> div_ceil a b * b" "div_ceil a b * b < a + b"
    by auto
qed

section \<open>Programs: outcomes with state\<close>

type_synonym ('s, 'e, 'a) prog = "'s \<Rightarrow> ('e, 'a) outcome \<times> 's"

definition ret :: "'a \<Rightarrow> ('s, 'e, 'a) prog" where
  "ret a = (\<lambda>s. (Ok a, s))"

definition throw :: "'e \<Rightarrow> ('s, 'e, 'a) prog" where
  "throw e = (\<lambda>s. (Err e, s))"

definition panic_with :: "panic \<Rightarrow> ('s, 'e, 'a) prog" where
  "panic_with p = (\<lambda>s. (Panic p, s))"

definition reads :: "('s \<Rightarrow> ('e, 'a) outcome) \<Rightarrow> ('s, 'e, 'a) prog" where
  "reads g = (\<lambda>s. (g s, s))"

definition modifies :: "('s \<Rightarrow> 's) \<Rightarrow> ('s, 'e, unit) prog" where
  "modifies h = (\<lambda>s. (Ok (), h s))"

definition try_prog ::
    "('s, 'e, 'a) prog \<Rightarrow> ('a \<Rightarrow> ('s, 'e, 'b) prog) \<Rightarrow> ('s, 'e, 'b) prog" where
  "try_prog m f = (\<lambda>s. case m s of
      (Ok a, s') \<Rightarrow> f a s'
    | (Err e, s') \<Rightarrow> (Err e, s')
    | (Panic p, s') \<Rightarrow> (Panic p, s'))"

definition map_err_prog :: "('e \<Rightarrow> 'f) \<Rightarrow> ('s, 'e, 'a) prog \<Rightarrow> ('s, 'f, 'a) prog" where
  "map_err_prog g m = (\<lambda>s. case m s of (r, s') \<Rightarrow> (map_err g r, s'))"

text \<open>A program on a part of the state: \<open>get\<close> and \<open>put\<close> name the part.\<close>

definition zoom :: "('t \<Rightarrow> 's) \<Rightarrow> ('s \<Rightarrow> 't \<Rightarrow> 't) \<Rightarrow> ('s, 'e, 'a) prog \<Rightarrow> ('t, 'e, 'a) prog" where
  "zoom get put m = (\<lambda>t. case m (get t) of (r, s') \<Rightarrow> (r, put s' t))"

text \<open>\<open>.unwrap()\<close> on the result of a program.\<close>

definition unwrap_prog :: "('s, 'e, 'a) prog \<Rightarrow> ('s, 'f, 'a) prog" where
  "unwrap_prog m = (\<lambda>s. case m s of (r, s') \<Rightarrow> (unwrap_outcome r, s'))"

text \<open>A program on a local variable, which starts as \<open>t\<close>; its final value is returned.\<close>

definition run_local :: "('t, 'e, unit) prog \<Rightarrow> 't \<Rightarrow> ('s, 'e, 't) prog" where
  "run_local m t = (\<lambda>s. case m t of
      (Ok _, t') \<Rightarrow> (Ok t', s) | (Err e, t') \<Rightarrow> (Err e, s) | (Panic p, t') \<Rightarrow> (Panic p, s))"

text \<open>\<open>for x in xs { ... ?; }\<close>: the first error or panic ends the loop.\<close>

fun for_each :: "'i list \<Rightarrow> ('i \<Rightarrow> ('s, 'e, unit) prog) \<Rightarrow> ('s, 'e, unit) prog" where
  "for_each [] f s = (Ok (), s)"
| "for_each (x # xs) f s = try_prog (f x) (\<lambda>_. for_each xs f) s"

lemma prog_simps [simp, run_simps]:
  "ret a s = (Ok a, s)"
  "throw e s = (Err e, s)"
  "panic_with p s = (Panic p, s)"
  "reads g s = (g s, s)"
  "modifies h s = (Ok (), h s)"
  by (simp_all add: ret_def throw_def panic_with_def reads_def modifies_def)

lemma try_prog_split:
  "try_prog m f s = (case fst (m s) of
      Ok a \<Rightarrow> f a (snd (m s)) | Err e \<Rightarrow> (Err e, snd (m s)) | Panic p \<Rightarrow> (Panic p, snd (m s)))"
  by (cases "m s") (simp add: try_prog_def split: outcome.splits)

lemma try_prog_Ok [run_simps]: "m s = (Ok a, s') \<Longrightarrow> try_prog m f s = f a s'"
  by (simp add: try_prog_def)

lemma try_prog_Err [run_simps]: "m s = (Err e, s') \<Longrightarrow> try_prog m f s = (Err e, s')"
  by (simp add: try_prog_def)

lemma try_prog_Panic [run_simps]: "m s = (Panic p, s') \<Longrightarrow> try_prog m f s = (Panic p, s')"
  by (simp add: try_prog_def)

lemma try_prog_reads [simp]:
  "try_prog (reads g) f s = (case g s of
      Ok a \<Rightarrow> f a s | Err e \<Rightarrow> (Err e, s) | Panic p \<Rightarrow> (Panic p, s))"
  by (simp add: try_prog_def)

lemma try_prog_modifies [simp]: "try_prog (modifies h) f s = f () (h s)"
  by (simp add: try_prog_def)

lemma try_prog_ret [simp]: "try_prog (ret a) f s = f a s"
  by (simp add: try_prog_def)

lemma try_prog_Ok_iff:
  "try_prog m f s = (Ok b, t) \<longleftrightarrow> (\<exists>a s'. m s = (Ok a, s') \<and> f a s' = (Ok b, t))"
  by (auto simp: try_prog_def split: prod.splits outcome.splits)

lemma try_prog_OkE:
  assumes "try_prog m f s = (Ok b, t)"
  obtains a s' where "m s = (Ok a, s')" "f a s' = (Ok b, t)"
  using assms by (auto simp: try_prog_def split: prod.splits outcome.splits)

lemma try_unit_OkE:
  fixes m :: "('s, 'e, unit) prog"
  assumes "try_prog m (\<lambda>_. k) s = (Ok b, t)"
  obtains s' where "m s = (Ok (), s')" "k s' = (Ok b, t)"
  using assms by (auto elim: try_prog_OkE)

lemma zoom_OkE:
  assumes "zoom get put m t = (Ok a, t')"
  obtains s' where "m (get t) = (Ok a, s')" "t' = put s' t"
  using assms by (auto simp: zoom_def split: prod.splits)

lemma try_reads_OkE:
  assumes "try_prog (reads g) f s = (Ok b, t)"
  obtains a where "g s = Ok a" "f a s = (Ok b, t)"
  using assms by (auto split: outcome.splits)

lemma unwrap_prog_Ok_iff [simp]:
  "unwrap_prog m s = (Ok a, t) \<longleftrightarrow> m s = (Ok a, t)"
  by (cases "m s") (auto simp: unwrap_prog_def unwrap_outcome_def split: outcome.splits)

lemma run_local_Ok_iff [simp]:
  "run_local m t s = (Ok t', s') \<longleftrightarrow> m t = (Ok (), t') \<and> s' = s"
  by (cases "m t") (auto simp: run_local_def split: outcome.splits)

lemma for_each_append:
  "for_each (xs @ ys) f s = try_prog (for_each xs f) (\<lambda>_. for_each ys f) s"
  by (induction xs arbitrary: s) (auto simp: try_prog_def split: prod.splits outcome.splits)

lemma for_each_single: "for_each [x] f s = f x s"
  by (cases "f x s") (auto simp: try_prog_def split: outcome.splits)

lemma for_each_upt_Suc:
  "for_each (map g [0..<Suc n]) f s = try_prog (for_each (map g [0..<n]) f) (\<lambda>_. f (g n)) s"
proof -
  have "for_each [g n] f = f (g n)"
    by (rule ext) (rule for_each_single)
  then show ?thesis
    by (simp add: for_each_append del: for_each.simps)
qed

lemma for_each_range_Suc:
  "for_each [0..<Suc n] f s = try_prog (for_each [0..<n] f) (\<lambda>_. f n) s"
  using for_each_upt_Suc [of id n f s] by (simp only: list.map_id id_apply)

text \<open>A loop that ends well runs as any other loop whose rounds do the same when they end well.\<close>

lemma for_each_Ok_mono:
  assumes "for_each (map a ks) f s = (Ok (), t)"
    and "\<And>k s s'. k \<in> set ks \<Longrightarrow> f (a k) s = (Ok (), s') \<Longrightarrow> g (b k) s = (Ok (), s')"
  shows "for_each (map b ks) g s = (Ok (), t)"
  using assms
proof (induction ks arbitrary: s)
  case (Cons k ks)
  then show ?case
    by (auto simp: try_prog_Ok_iff)
qed simp

lemma sorted_wrt_pair:
  "sorted_wrt P xs \<Longrightarrow> x \<in> set xs \<Longrightarrow> y \<in> set xs \<Longrightarrow> x \<noteq> y \<Longrightarrow> P x y \<or> P y x"
  by (induction xs) auto

lemma for_each_Ok_invariant:
  assumes "for_each xs f s = (Ok (), t)" "P s"
    and "\<And>x s s'. x \<in> set xs \<Longrightarrow> P s \<Longrightarrow> f x s = (Ok (), s') \<Longrightarrow> P s'"
  shows "P t"
  using assms
proof (induction xs arbitrary: s)
  case (Cons x xs)
  then show ?case
    by (auto simp: try_prog_Ok_iff)
qed simp

lemma for_each_total:
  assumes "P s" "\<And>x s. x \<in> set xs \<Longrightarrow> P s \<Longrightarrow> \<exists>s'. f x s = (Ok (), s') \<and> P s'"
  shows "\<exists>s'. for_each xs f s = (Ok (), s') \<and> P s'"
  using assms
proof (induction xs arbitrary: s)
  case (Cons x xs)
  then obtain s1 where "f x s = (Ok (), s1)" "P s1"
    by (meson list.set_intros(1))
  then show ?case
    using Cons.IH [of s1] Cons.prems(2) by (auto simp: try_prog_Ok)
qed auto

lemma try_prog_snd:
  assumes "P (snd (m s))" "\<And>a. fst (m s) = Ok a \<Longrightarrow> P (snd (f a (snd (m s))))"
  shows "P (snd (try_prog m f s))"
  using assms by (auto simp: try_prog_split split: outcome.splits)

lemma for_each_invariant:
  assumes "P s" "\<And>x s. P s \<Longrightarrow> P (snd (f x s))"
  shows "P (snd (for_each xs f s))"
  using assms
proof (induction xs arbitrary: s)
  case (Cons x xs)
  then show ?case
    by (auto simp: try_prog_split split: outcome.splits)
qed simp

lemma map_err_prog_Ok_iff [simp]: "map_err_prog g m s = (Ok a, t) \<longleftrightarrow> m s = (Ok a, t)"
  by (cases "m s") (auto simp: map_err_prog_def map_err_def split: outcome.splits)

text \<open>What a program keeps of its state, however it ends.\<close>

definition preserves :: "('s \<Rightarrow> 'x) \<Rightarrow> ('s, 'e, 'a) prog \<Rightarrow> bool" where
  "preserves g m \<longleftrightarrow> (\<forall>s. g (snd (m s)) = g s)"

named_theorems preserves_intros
  \<open>rules that show what a program keeps\<close>

lemma preservesD: "preserves g m \<Longrightarrow> m s = (r, s') \<Longrightarrow> g s' = g s"
  by (metis preserves_def snd_conv)

lemma preserves_basic [preserves_intros]:
  "preserves g (ret a)" "preserves g (throw e)" "preserves g (panic_with p)" "preserves g (reads h)"
  by (simp_all add: preserves_def)

lemma preserves_modifies [preserves_intros]: "(\<And>s. g (h s) = g s) \<Longrightarrow> preserves g (modifies h)"
  by (simp add: preserves_def)

lemma preserves_try [preserves_intros]:
  "preserves g m \<Longrightarrow> (\<And>a. preserves g (f a)) \<Longrightarrow> preserves g (try_prog m f)"
  by (auto simp: preserves_def try_prog_split split: outcome.splits)

lemma preserves_if [preserves_intros]:
  "(c \<Longrightarrow> preserves g m) \<Longrightarrow> (\<not> c \<Longrightarrow> preserves g n) \<Longrightarrow> preserves g (if c then m else n)"
  by simp

lemma preserves_prod [preserves_intros]:
  "(\<And>a b. preserves g (f a b)) \<Longrightarrow> preserves g (case x of (a, b) \<Rightarrow> f a b)"
  by (cases x) simp

lemma preserves_map_err [preserves_intros]: "preserves g m \<Longrightarrow> preserves g (map_err_prog f m)"
  by (auto simp: preserves_def map_err_prog_def split: prod.splits) (metis snd_conv)

lemma preserves_unwrap [preserves_intros]: "preserves g m \<Longrightarrow> preserves g (unwrap_prog m)"
  by (auto simp: preserves_def unwrap_prog_def split: prod.splits) (metis snd_conv)

lemma preserves_zoom [preserves_intros]:
  assumes "preserves h m" "\<And>s t. h s = h (get t) \<Longrightarrow> g (put s t) = g t"
  shows "preserves g (zoom get put m)"
  using assms by (auto simp: preserves_def zoom_def split: prod.splits) (metis snd_conv)

lemma preserves_for_each [preserves_intros]:
  assumes "\<And>x. preserves g (f x)"
  shows "preserves g (for_each xs f)"
  unfolding preserves_def
proof
  fix s
  show "g (snd (for_each xs f s)) = g s"
    by (rule for_each_invariant [where P = "\<lambda>t. g t = g s"]) (use assms in \<open>auto simp: preserves_def\<close>)
qed

text \<open>A loop whose body cannot fail under an invariant is a fold.\<close>

lemma for_each_fold:
  assumes "\<And>x s. x \<in> set xs \<Longrightarrow> I s \<Longrightarrow> f x s = (Ok (), g x s)"
    and "\<And>x s. x \<in> set xs \<Longrightarrow> I s \<Longrightarrow> I (g x s)"
    and "I s"
  shows "for_each xs f s = (Ok (), fold g xs s)"
  using assms
proof (induction xs arbitrary: s)
  case (Cons x xs)
  then have "f x s = (Ok (), g x s)" and "I (g x s)"
    by auto
  with Cons show ?case
    by (simp add: try_prog_def)
qed simp

lemma fold_invariant_set:
  assumes "\<And>x s. x \<in> set xs \<Longrightarrow> I s \<Longrightarrow> I (g x s)" and "I s"
  shows "I (fold g xs s)"
  using assms by (induction xs arbitrary: s) auto

section \<open>Slices\<close>

definition index_slice :: "'a list \<Rightarrow> usize \<Rightarrow> ('e, 'a) outcome" where
  "index_slice xs i = (if i < length xs then Ok (xs ! i) else Panic IndexOutOfBounds)"

definition range_slice :: "'a list \<Rightarrow> usize \<Rightarrow> usize \<Rightarrow> ('e, 'a list) outcome" where
  "range_slice xs a b =
     (if a \<le> b \<and> b \<le> length xs then Ok (take (b - a) (drop a xs)) else Panic IndexOutOfBounds)"

definition fill_slice :: "'a list \<Rightarrow> usize \<Rightarrow> usize \<Rightarrow> 'a \<Rightarrow> ('e, 'a list) outcome" where
  "fill_slice xs a b v =
     (if a \<le> b \<and> b \<le> length xs
      then Ok (take a xs @ replicate (b - a) v @ drop b xs)
      else Panic IndexOutOfBounds)"

lemma index_slice_in [simp]: "i < length xs \<Longrightarrow> index_slice xs i = Ok (xs ! i)"
  by (simp add: index_slice_def)

lemma index_slice_out [simp]: "length xs \<le> i \<Longrightarrow> index_slice xs i = Panic IndexOutOfBounds"
  by (simp add: index_slice_def)

lemma fill_slice_in [simp]:
  "a \<le> b \<Longrightarrow> b \<le> length xs \<Longrightarrow>
     fill_slice xs a b v = Ok (take a xs @ replicate (b - a) v @ drop b xs)"
  by (simp add: fill_slice_def)

lemma range_slice_in [simp]:
  "a \<le> b \<Longrightarrow> b \<le> length xs \<Longrightarrow> range_slice xs a b = Ok (take (b - a) (drop a xs))"
  by (simp add: range_slice_def)

lemma nth_fill:
  assumes "a \<le> b" "b \<le> length xs" "i < length xs"
  shows "(take a xs @ replicate (b - a) v @ drop b xs) ! i =
     (if a \<le> i \<and> i < b then v else xs ! i)"
  using assms by (auto simp: nth_append)

lemma set_range_slice:
  assumes "a \<le> b" "b \<le> length xs"
  shows "set (take (b - a) (drop a xs)) = (\<lambda>i. xs ! i) ` {a..<b}"
proof -
  have "take (b - a) (drop a xs) = map (\<lambda>i. xs ! i) [a..<b]"
    using assms by (intro nth_equalityI) auto
  then show ?thesis
    by simp
qed

section \<open>Text\<close>

text \<open>Text is a list of code points.\<close>

definition literal :: "string \<Rightarrow> rust_char list" where
  "literal s = map of_char s"

definition newline :: "rust_char list" where
  "newline = [10]"

text \<open>\<open>{}\<close> on an integer: its decimal digits.\<close>

fun display_u64 :: "u64 \<Rightarrow> rust_char list" where
  "display_u64 n = (if n < 10 then [48 + n] else display_u64 (n div 10) @ [48 + n mod 10])"

declare display_u64.simps [simp del]

end
