(* ===== verification/Memory_Types.thy ===== *)
theory Memory_Types
  imports Kermol_Prelude
begin

text \<open>
  The constants and error types the memory components share: \<open>util.rs\<close> (size constants),
  \<open>memory/mod.rs\<close> (\<open>PAGE_SIZE\<close>, \<open>MemoryError\<close>, \<open>AddressPair\<close>, \<open>fit_in_pages\<close>) and
  \<open>memory/paging/mod.rs\<close> (\<open>PagingError\<close>, its conversion, \<open>size_in_pages\<close>).
  \<open>VirtAddr\<close> and \<open>PhysAddr\<close> of the x86\_64 crate are represented by the number \<open>as_u64()\<close>
  returns.
\<close>

type_synonym VirtAddr = u64
type_synonym PhysAddr = u64

definition KIBIBYTE :: usize where
  "KIBIBYTE = 1024"

definition MEBIBYTE :: usize where
  "MEBIBYTE = KIBIBYTE * KIBIBYTE"

definition PAGE_SIZE :: usize where
  "PAGE_SIZE = 4 * KIBIBYTE"

lemma PAGE_SIZE_eq [simp]: "PAGE_SIZE = 4096"
  by (simp add: PAGE_SIZE_def KIBIBYTE_def)

datatype PagingError =
    AttemptedMappingToReserved VirtAddr
  | NotMapped VirtAddr
  | AlreadyMapped VirtAddr
  | TableAllocationFailed

datatype MemoryError =
    OutOfBounds
  | PageNotPresent
  | WriteToReadOnly
  | EmptyAllocation
  | LockedAllocator
  | NoFreeFrame
  | PagingError PagingError
  | AlignmentError
  | AllocationError
  | DoubleFree

definition MemoryError_from :: "PagingError \<Rightarrow> MemoryError" where
  "MemoryError_from e = PagingError e"

datatype AddressPair = AddressPair (virt_of: VirtAddr) (phys_of: PhysAddr)

definition size_in_pages :: "usize \<Rightarrow> usize" where
  "size_in_pages size_bytes =
     (let size = size_bytes div PAGE_SIZE
      in if size_bytes mod PAGE_SIZE \<noteq> 0 then size + 1 else size)"

definition fit_in_pages :: "usize \<Rightarrow> usize" where
  "fit_in_pages bytes = div_ceil bytes PAGE_SIZE"

text \<open>Both page counts are the ceiling: the least number of pages that holds the bytes.\<close>

lemma size_in_pages_eq_fit: "size_in_pages n = fit_in_pages n"
  by (simp add: size_in_pages_def fit_in_pages_def div_ceil_def Let_def)

lemma size_in_pages_bounds:
  "n \<le> size_in_pages n * PAGE_SIZE" "size_in_pages n * PAGE_SIZE < n + PAGE_SIZE"
  unfolding size_in_pages_eq_fit fit_in_pages_def
  by (rule div_ceil_bounds, simp)+

end
