(* ===== verification/X86_64_Interface.thy ===== *)
theory X86_64_Interface
  imports Memory_Types
begin

text \<open>
  The x86\_64 crate is not part of the repository, so what the kernel calls of it is a parameter:
  a record of its functions, passed to the definitions that use them. The locale \<open>x86_64_crate\<close>
  names what the kernel relies on, as the crate documents it. The page-table entry type and the
  flag type stay type parameters. \<open>None\<close> is a panic of the crate (for
  \<open>PhysFrame_from_start_address\<close>, its \<open>Err\<close>). \<open>VirtAddr_diff\<close> is \<open>VirtAddr - VirtAddr\<close>, and
  \<open>VirtAddr_step_by X a b n\<close> lists \<open>(a..b).step_by(n)\<close>, which runs on the crate's \<open>Step\<close>.

  The theory closes with one instance of the locale, the entry format of the processor manual: a
  64-bit word with the frame address in bits 12 to 51 and the flags in the 24 other bits. It shows
  that the laws can be satisfied together and is what the witnesses compute with.
\<close>

record ('pte, 'fl) x86_64 =
  align_up :: "u64 \<Rightarrow> u64 \<Rightarrow> u64 option"
  VirtAddr_new :: "u64 \<Rightarrow> VirtAddr option"
  VirtAddr_add :: "VirtAddr \<Rightarrow> u64 \<Rightarrow> VirtAddr option"
  VirtAddr_sub :: "VirtAddr \<Rightarrow> u64 \<Rightarrow> VirtAddr option"
  VirtAddr_diff :: "VirtAddr \<Rightarrow> VirtAddr \<Rightarrow> u64 option"
  VirtAddr_step_by :: "VirtAddr \<Rightarrow> VirtAddr \<Rightarrow> usize \<Rightarrow> VirtAddr list"
  PhysAddr_new :: "u64 \<Rightarrow> PhysAddr option"
  PhysAddr_add :: "PhysAddr \<Rightarrow> u64 \<Rightarrow> PhysAddr option"
  PhysFrame_containing_address :: "PhysAddr \<Rightarrow> PhysAddr"
  PhysFrame_from_start_address :: "PhysAddr \<Rightarrow> PhysAddr option"
  PRESENT :: 'fl
  WRITABLE :: 'fl
  HUGE_PAGE :: 'fl
  GLOBAL :: 'fl
  NO_EXECUTE :: 'fl
  flags_or :: "'fl \<Rightarrow> 'fl \<Rightarrow> 'fl"
  flags_contains :: "'fl \<Rightarrow> 'fl \<Rightarrow> bool"
  entry_new :: 'pte
  entry_is_unused :: "'pte \<Rightarrow> bool"
  entry_set_unused :: "'pte \<Rightarrow> 'pte"
  entry_addr :: "'pte \<Rightarrow> PhysAddr"
  entry_flags :: "'pte \<Rightarrow> 'fl"
  entry_set_addr :: "'pte \<Rightarrow> PhysAddr \<Rightarrow> 'fl \<Rightarrow> 'pte option"
  entry_set_frame :: "'pte \<Rightarrow> PhysAddr \<Rightarrow> 'fl \<Rightarrow> 'pte option"
  entry_set_flags :: "'pte \<Rightarrow> 'fl \<Rightarrow> 'pte"

text \<open>A virtual address is canonical when bits 48 to 63 are copies of bit 47.\<close>

definition canonical :: "u64 \<Rightarrow> bool" where
  "canonical a \<longleftrightarrow> a < 2 ^ 47 \<or> 2 ^ 64 - 2 ^ 47 \<le> a \<and> a < 2 ^ 64"

definition frame_address :: "PhysAddr \<Rightarrow> bool" where
  "frame_address a \<longleftrightarrow> a mod 4096 = 0 \<and> a < 2 ^ 52"

definition named_flags :: "('pte, 'fl, 'z) x86_64_scheme \<Rightarrow> 'fl list" where
  "named_flags X = [PRESENT X, WRITABLE X, HUGE_PAGE X, GLOBAL X, NO_EXECUTE X]"

locale x86_64_crate =
  fixes X :: "('pte, 'fl, 'z) x86_64_scheme"
  assumes align_up_least:
      "n * 2 ^ k < 2 ^ 64 \<Longrightarrow> a \<le> n * 2 ^ k \<Longrightarrow> n * 2 ^ k < a + 2 ^ k \<Longrightarrow>
         align_up X a (2 ^ k) = Some (n * 2 ^ k)"
    and VirtAddr_new: "VirtAddr_new X a = (if canonical a then Some a else None)"
    and VirtAddr_add:
      "VirtAddr_add X a n = (if canonical (a + n) then Some (a + n) else None)"
    and VirtAddr_sub:
      "VirtAddr_sub X a n = (if n \<le> a \<and> canonical (a - n) then Some (a - n) else None)"
    and PhysAddr_new: "PhysAddr_new X p = (if p < 2 ^ 52 then Some p else None)"
    and PhysAddr_add: "PhysAddr_add X p n = (if p + n < 2 ^ 52 then Some (p + n) else None)"
    and containing_address: "p mod 4096 = 0 \<Longrightarrow> PhysFrame_containing_address X p = p"
    and from_start_address:
      "PhysFrame_from_start_address X p = (if p mod 4096 = 0 then Some p else None)"
    and contains_named:
      "f \<in> set (named_flags X) \<Longrightarrow> g \<in> set (named_flags X) \<Longrightarrow> flags_contains X f g \<longleftrightarrow> f = g"
    and distinct_flags: "distinct (named_flags X)"
    and contains_or:
      "g \<in> set (named_flags X) \<Longrightarrow>
         flags_contains X (flags_or X f f') g \<longleftrightarrow> flags_contains X f g \<or> flags_contains X f' g"
    and unused_new: "entry_is_unused X (entry_new X)"
    and unused_set_unused: "entry_is_unused X (entry_set_unused X e)"
    and set_addr:
      "frame_address p \<Longrightarrow> \<exists>e'. entry_set_addr X e p f = Some e' \<and>
         entry_addr X e' = p \<and> entry_flags X e' = f"
    and set_frame:
      "frame_address p \<Longrightarrow> \<not> flags_contains X f (HUGE_PAGE X) \<Longrightarrow>
         \<exists>e'. entry_set_frame X e p f = Some e' \<and> entry_addr X e' = p \<and> entry_flags X e' = f"
    and set_flags_addr: "entry_addr X (entry_set_flags X e f) = entry_addr X e"
    and set_flags_flags: "entry_flags X (entry_set_flags X e f) = f"
    and unused_not_present:
      "entry_is_unused X e \<Longrightarrow> \<not> flags_contains X (entry_flags X e) (PRESENT X)"
    and set_addr_unaligned: "p mod 4096 \<noteq> 0 \<Longrightarrow> entry_set_addr X e p f = None"
    and VirtAddr_diff: "VirtAddr_diff X a b = (if b \<le> a then Some (a - b) else None)"
    and VirtAddr_step_by:
      "0 < n \<Longrightarrow> a < 2 ^ 47 \<longleftrightarrow> b < 2 ^ 47 \<Longrightarrow>
         VirtAddr_step_by X a b n = map (\<lambda>k. a + k * n) [0..<div_ceil (b - a) n]"
begin

lemma set_addr_used:
  assumes "frame_address p" "flags_contains X f (PRESENT X)"
  obtains e' where "entry_set_addr X e p f = Some e'" "entry_addr X e' = p"
    "entry_flags X e' = f" "\<not> entry_is_unused X e'"
  using set_addr [OF assms(1), of e f] assms(2) unused_not_present by blast

lemma set_flags_used:
  "flags_contains X f (PRESENT X) \<Longrightarrow> \<not> entry_is_unused X (entry_set_flags X e f)"
  using unused_not_present [of "entry_set_flags X e f"] by (auto simp: set_flags_flags)

lemma align_up_8:
  assumes "(a + 7) div 8 * 8 < 2 ^ 64"
  shows "align_up X a 8 = Some ((a + 7) div 8 * 8)"
  using align_up_least [of "(a + 7) div 8" 3 a] assms by simp

lemma named_flags_members [simp]:
  "PRESENT X \<in> set (named_flags X)" "WRITABLE X \<in> set (named_flags X)"
  "HUGE_PAGE X \<in> set (named_flags X)" "GLOBAL X \<in> set (named_flags X)"
  "NO_EXECUTE X \<in> set (named_flags X)"
  by (simp_all add: named_flags_def)

lemma named_flags_neq [simp]:
  "PRESENT X \<noteq> WRITABLE X" "PRESENT X \<noteq> HUGE_PAGE X" "WRITABLE X \<noteq> HUGE_PAGE X"
  "NO_EXECUTE X \<noteq> HUGE_PAGE X" "NO_EXECUTE X \<noteq> PRESENT X" "NO_EXECUTE X \<noteq> WRITABLE X"
  "GLOBAL X \<noteq> PRESENT X" "GLOBAL X \<noteq> WRITABLE X" "GLOBAL X \<noteq> HUGE_PAGE X"
  "GLOBAL X \<noteq> NO_EXECUTE X" "WRITABLE X \<noteq> PRESENT X" "WRITABLE X \<noteq> NO_EXECUTE X"
  "PRESENT X \<noteq> NO_EXECUTE X"
  using distinct_flags by (auto simp: named_flags_def)

lemmas flag_simps = contains_or contains_named

end

section \<open>The entry format of the processor\<close>

type_synonym pt_flags = "12 word \<times> 12 word"

definition entry_word :: "64 word \<Rightarrow> pt_flags \<Rightarrow> 64 word" where
  "entry_word a f = a OR ucast (fst f) OR push_bit 52 (ucast (snd f))"

definition addr_mask :: "64 word" where
  "addr_mask = push_bit 12 (mask 40)"

definition set_entry :: "PhysAddr \<Rightarrow> pt_flags \<Rightarrow> 64 word option" where
  "set_entry p f = (if p mod 4096 = 0 then Some (entry_word (word_of_nat p) f) else None)"

definition x86_64_entries :: "(64 word, pt_flags) x86_64" where
  "x86_64_entries = \<lparr>
     align_up = (\<lambda>a n. let r = (a + n - 1) div n * n in if r < 2 ^ 64 then Some r else None),
     VirtAddr_new = (\<lambda>a. if canonical a then Some a else None),
     VirtAddr_add = (\<lambda>a n. if canonical (a + n) then Some (a + n) else None),
     VirtAddr_sub = (\<lambda>a n. if n \<le> a \<and> canonical (a - n) then Some (a - n) else None),
     VirtAddr_diff = (\<lambda>a b. if b \<le> a then Some (a - b) else None),
     VirtAddr_step_by = (\<lambda>a b n. map (\<lambda>k. a + k * n) [0..<div_ceil (b - a) n]),
     PhysAddr_new = (\<lambda>p. if p < 2 ^ 52 then Some p else None),
     PhysAddr_add = (\<lambda>p n. if p + n < 2 ^ 52 then Some (p + n) else None),
     PhysFrame_containing_address = (\<lambda>p. p - p mod 4096),
     PhysFrame_from_start_address = (\<lambda>p. if p mod 4096 = 0 then Some p else None),
     PRESENT = (1, 0), WRITABLE = (2, 0), HUGE_PAGE = (0x80, 0), GLOBAL = (0x100, 0),
     NO_EXECUTE = (0, 0x800),
     flags_or = (\<lambda>f g. (fst f OR fst g, snd f OR snd g)),
     flags_contains = (\<lambda>f g. fst f AND fst g = fst g \<and> snd f AND snd g = snd g),
     entry_new = 0,
     entry_is_unused = (\<lambda>e. e = 0),
     entry_set_unused = (\<lambda>e. 0),
     entry_addr = (\<lambda>e. unat (e AND addr_mask)),
     entry_flags = (\<lambda>e. (ucast e, ucast (drop_bit 52 e))),
     entry_set_addr = (\<lambda>e. set_entry),
     entry_set_frame = (\<lambda>e. set_entry),
     entry_set_flags = (\<lambda>e. entry_word (e AND addr_mask)) \<rparr>"

lemma entry_word_addr:
  assumes "a AND addr_mask = a"
  shows "entry_word a f AND addr_mask = a"
proof (rule bit_word_eqI)
  fix n assume n: "n < LENGTH(64)"
  have "bit a n \<longleftrightarrow> bit a n \<and> bit addr_mask n"
    using assms by (metis bit_and_iff)
  then show "bit (entry_word a f AND addr_mask) n \<longleftrightarrow> bit a n"
    using n by (auto simp: entry_word_def addr_mask_def bit_simps dest: bit_imp_le_length)
qed

lemma entry_word_flags:
  assumes "a AND addr_mask = a"
  shows "(ucast (entry_word a f), ucast (drop_bit 52 (entry_word a f))) = f"
proof (cases f)
  case (Pair lo hi)
  have a: "bit a n \<Longrightarrow> bit addr_mask n" for n
    using assms by (metis bit_and_iff)
  have "ucast (entry_word a f) = lo"
  proof (rule bit_word_eqI)
    fix n assume "n < LENGTH(12)"
    then show "bit (ucast (entry_word a f) :: 12 word) n \<longleftrightarrow> bit lo n"
      using a [of n] by (auto simp: Pair entry_word_def addr_mask_def bit_simps dest: bit_imp_le_length)
  qed
  moreover have "ucast (drop_bit 52 (entry_word a f)) = hi"
  proof (rule bit_word_eqI)
    fix n assume "n < LENGTH(12)"
    then show "bit (ucast (drop_bit 52 (entry_word a f)) :: 12 word) n \<longleftrightarrow> bit hi n"
      using a [of "52 + n"] by (auto simp: Pair entry_word_def addr_mask_def bit_simps dest: bit_imp_le_length)
  qed
  ultimately show ?thesis
    by (simp add: Pair)
qed

lemma frame_word_masked:
  assumes "frame_address p"
  shows "(word_of_nat p :: 64 word) AND addr_mask = word_of_nat p"
proof (rule bit_word_eqI)
  fix n assume n: "n < LENGTH(64)"
  have "bit p n \<Longrightarrow> 12 \<le> n \<and> n < 52"
  proof -
    assume b: "bit p n"
    obtain q where q: "p = q * 2 ^ 12"
      using assms by (auto simp: frame_address_def mod_eq_0_iff_dvd elim: dvdE)
    have "12 \<le> n"
      using b unfolding q by (metis bit_push_bit_iff push_bit_eq_mult)
    moreover have "n < 52"
    proof (rule ccontr)
      assume "\<not> n < 52"
      then have "(2::nat) ^ 52 \<le> 2 ^ n"
        by (intro power_increasing) auto
      then have "p div 2 ^ n = 0"
        using assms by (auto simp: frame_address_def)
      with b show False
        by (simp add: bit_iff_odd)
    qed
    ultimately show ?thesis ..
  qed
  then show "bit ((word_of_nat p :: 64 word) AND addr_mask) n \<longleftrightarrow> bit (word_of_nat p :: 64 word) n"
    using n by (auto simp: addr_mask_def bit_simps)
qed

lemma set_entry_frame:
  assumes "frame_address p"
  shows "\<exists>e. set_entry p f = Some e \<and> unat (e AND addr_mask) = p \<and>
    (ucast e, ucast (drop_bit 52 e)) = f"
proof -
  have "unat (word_of_nat p :: 64 word) = p"
    using assms by (simp add: frame_address_def unat_of_nat)
  then show ?thesis
    using assms entry_word_addr [OF frame_word_masked [OF assms], of f]
      entry_word_flags [OF frame_word_masked [OF assms], of f]
    by (simp add: set_entry_def frame_address_def)
qed

lemma and_flag_bit:
  "j < 12 \<Longrightarrow> (x :: 12 word) AND 2 ^ j = 2 ^ j \<longleftrightarrow> bit x j"
  by (auto simp: bit_eq_iff [where 'a = "12 word"] bit_simps)

lemma or_and_flag:
  assumes "m = 2 ^ j" "j < 12"
  shows "((x :: 12 word) OR y) AND m = m \<longleftrightarrow> x AND m = m \<or> y AND m = m"
  using assms by (simp add: and_flag_bit bit_or_iff)

lemma flag_words:
  "(1 :: 12 word) = 2 ^ 0" "(2 :: 12 word) = 2 ^ 1" "(0x80 :: 12 word) = 2 ^ 7"
  "(0x100 :: 12 word) = 2 ^ 8" "(0x800 :: 12 word) = 2 ^ 11"
  by (simp_all flip: push_bit_eq_mult add: eval_nat_numeral)

lemmas or_and_flags =
  flag_words [THEN or_and_flag, simplified]

interpretation entries: x86_64_crate x86_64_entries
proof (unfold_locales, goal_cases)
  case (1 n k a)
  have "(a + 2 ^ k - 1) div 2 ^ k = n"
  proof (rule div_nat_eqI)
    show "2 ^ k * n \<le> a + 2 ^ k - 1"
      using 1 by (simp add: mult.commute)
    show "a + 2 ^ k - 1 < 2 ^ k * Suc n"
      using 1 by (simp add: mult.commute)
  qed
  then show ?case
    using 1 by (simp add: x86_64_entries_def Let_def)
next
  case (14 p e f)
  then show ?case
    using set_entry_frame [of p f] by (simp add: x86_64_entries_def)
next
  case (15 p f e)
  then show ?case
    using set_entry_frame [of p f] by (simp add: x86_64_entries_def)
next
  case (16 e f)
  then show ?case
    using entry_word_addr [of "e AND addr_mask" f] by (simp add: x86_64_entries_def and.assoc)
next
  case (17 e f)
  then show ?case
    using entry_word_flags [of "e AND addr_mask" f] by (simp add: x86_64_entries_def and.assoc)
next
  case (11 g f f')
  then show ?case
    by (auto simp: x86_64_entries_def named_flags_def or_and_flags)
qed (auto simp: x86_64_entries_def named_flags_def set_entry_def)

end
