(* ===== verification/Linear_Frame_Allocator.thy ===== *)
theory Linear_Frame_Allocator
  imports X86_64_Interface
begin

text \<open>
  The \<open>FrameAllocator\<close> interface and its first implementation, from
  \<open>memory/paging/frame_allocation.rs\<close>. \<open>LinearFrameAllocator(PhysAddr)\<close> is a bump allocator: its
  state is the next free physical address. The locale \<open>frame_source\<close> is what a client of
  \<open>&mut dyn FrameAllocator\<close> relies on when it asks for one frame.
\<close>

type_synonym LinearFrameAllocator = PhysAddr

definition LinearFrameAllocator_alloc ::
    "('pte, 'fl, 'z) x86_64_scheme \<Rightarrow> (LinearFrameAllocator, MemoryError, PhysAddr) prog" where
  "LinearFrameAllocator_alloc X =
     try_prog (reads (\<lambda>self. Ok self)) (\<lambda>r.
     try_prog (reads (\<lambda>self. of_lib (PhysAddr_add X self PAGE_SIZE))) (\<lambda>next.
     try_prog (modifies (\<lambda>_. next)) (\<lambda>_.
     ret r)))"

definition LinearFrameAllocator_alloc_contiguous ::
    "('pte, 'fl, 'z) x86_64_scheme \<Rightarrow> usize \<Rightarrow>
       (LinearFrameAllocator, MemoryError, PhysAddr) prog" where
  "LinearFrameAllocator_alloc_contiguous X pages =
     try_prog (reads (\<lambda>self. Ok self)) (\<lambda>r.
     try_prog (reads (\<lambda>self. mul64 pages PAGE_SIZE)) (\<lambda>bytes.
     try_prog (reads (\<lambda>self. of_lib (PhysAddr_add X self bytes))) (\<lambda>next.
     try_prog (modifies (\<lambda>_. next)) (\<lambda>_.
     ret r))))"

definition LinearFrameAllocator_free ::
    "PhysAddr \<Rightarrow> (LinearFrameAllocator, MemoryError, unit) prog" where
  "LinearFrameAllocator_free phys_addr = panic_with ExplicitPanic"

definition LinearFrameAllocator_free_contiguous ::
    "PhysAddr \<Rightarrow> usize \<Rightarrow> (LinearFrameAllocator, MemoryError, unit) prog" where
  "LinearFrameAllocator_free_contiguous phys_addr pages = panic_with ExplicitPanic"

section \<open>The interface a client of a frame allocator relies on\<close>

text \<open>
  \<open>taken a\<close> is the set of frame addresses the allocator in state \<open>a\<close> will never hand out again.
  Every frame handed out is page aligned, is a physical address, and was not taken before.
\<close>

locale frame_source =
  fixes alloc :: "('fa, MemoryError, PhysAddr) prog"
    and good :: "'fa \<Rightarrow> bool"
    and taken :: "'fa \<Rightarrow> PhysAddr set"
  assumes alloc_Ok:
      "good a \<Longrightarrow> alloc a = (Ok f, a') \<Longrightarrow>
         frame_address f \<and> f \<notin> taken a \<and> insert f (taken a) \<subseteq> taken a' \<and> good a'"
    and alloc_Err: "good a \<Longrightarrow> alloc a = (Err e, a') \<Longrightarrow> taken a \<subseteq> taken a' \<and> good a'"
begin

text \<open>A run of requests: every one of them answered.\<close>

fun alloc_run :: "nat \<Rightarrow> 'fa \<Rightarrow> (PhysAddr list \<times> 'fa) option" where
  "alloc_run 0 a = Some ([], a)"
| "alloc_run (Suc n) a = (case alloc a of
      (Ok f, a') \<Rightarrow> map_option (\<lambda>(fs, b). (f # fs, b)) (alloc_run n a')
    | _ \<Rightarrow> None)"

lemma alloc_run_disjoint:
  "good a \<Longrightarrow> alloc_run n a = Some (fs, b) \<Longrightarrow>
     distinct fs \<and> set fs \<inter> taken a = {} \<and> taken a \<union> set fs \<subseteq> taken b \<and> good b"
proof (induction n arbitrary: a fs)
  case (Suc n)
  from Suc.prems obtain f a' gs where step: "alloc a = (Ok f, a')"
    and run: "alloc_run n a' = Some (gs, b)" and fs: "fs = f # gs"
    by (auto split: prod.splits outcome.splits option.splits)
  from alloc_Ok [OF Suc.prems(1) step] Suc.IH [OF _ run] show ?case
    unfolding fs by auto
qed simp

end

section \<open>The linear allocator\<close>

definition linear_good :: "LinearFrameAllocator \<Rightarrow> bool" where
  "linear_good p \<longleftrightarrow> frame_address p"

definition linear_taken :: "LinearFrameAllocator \<Rightarrow> PhysAddr set" where
  "linear_taken p = {..<p}"

context x86_64_crate
begin

lemma LinearFrameAllocator_alloc_eq:
  "LinearFrameAllocator_alloc X p =
     (if p + 4096 < 2 ^ 52 then (Ok p, p + 4096) else (Panic LibraryPanic, p))"
  by (simp add: LinearFrameAllocator_alloc_def PhysAddr_add)

lemma LinearFrameAllocator_alloc_contiguous_eq:
  "LinearFrameAllocator_alloc_contiguous X n p =
     (if n * 4096 < 2 ^ 64
      then (if p + n * 4096 < 2 ^ 52 then (Ok p, p + n * 4096) else (Panic LibraryPanic, p))
      else (Panic ArithmeticOverflow, p))"
  by (simp add: LinearFrameAllocator_alloc_contiguous_def PhysAddr_add mul64_def)

lemma linear_frame_source:
  "frame_source (LinearFrameAllocator_alloc X) linear_good linear_taken"
  by unfold_locales
    (auto simp: LinearFrameAllocator_alloc_eq linear_good_def linear_taken_def frame_address_def
      split: if_splits)

end

sublocale x86_64_crate \<subseteq> linear: frame_source "LinearFrameAllocator_alloc X" linear_good linear_taken
  by (rule linear_frame_source)

end
