(* ===== verification/Page_Table.thy ===== *)
theory Page_Table
  imports Linear_Frame_Allocator
begin

text \<open>
  \<open>memory/paging/page_table.rs\<close>. The tables of all levels live in memory at the virtual address
  \<open>physical address + internal_offset\<close>; memory is a partial function from table addresses to tables,
  and a table is a function of the index (an access at index 512 or above panics, as
  \<open>PageTable::index\<close> does). Dereferencing an address that holds no table is the outcome
  \<open>Panic BadPointer\<close>. The state of an operation is the memory of tables together with the frame
  allocator passed as \<open>&mut dyn FrameAllocator\<close>, of which only \<open>alloc\<close> is called; it is the argument
  \<open>alloc\<close> of the definitions.

  \<open>flush\<close> returns the address whose cached translation it discards. The \<open>Debug\<close> output is in \<open>Page_Table_Debug\<close>.
\<close>

type_synonym 'pte table = "nat \<Rightarrow> 'pte"

record ('pte, 'fa) paging_state =
  tables :: "u64 \<rightharpoonup> 'pte table"
  frames :: 'fa

record RecursivePageTable =
  lvl4 :: u64
  internal_offset :: u64

definition LEVEL4 :: u64 where
  "LEVEL4 = 0xFFFFFF7FFFFFF000"

definition flags_r :: "('pte, 'fl, 'z) x86_64_scheme \<Rightarrow> 'fl" where
  "flags_r X = flags_or X (PRESENT X) (NO_EXECUTE X)"

definition flags_rw :: "('pte, 'fl, 'z) x86_64_scheme \<Rightarrow> 'fl" where
  "flags_rw X = flags_or X (flags_or X (WRITABLE X) (PRESENT X)) (NO_EXECUTE X)"

definition flags_rx :: "('pte, 'fl, 'z) x86_64_scheme \<Rightarrow> 'fl" where
  "flags_rx X = PRESENT X"

definition flags_rwx :: "('pte, 'fl, 'z) x86_64_scheme \<Rightarrow> 'fl" where
  "flags_rwx X = flags_or X (WRITABLE X) (PRESENT X)"

section \<open>Operations\<close>

definition get_page_index :: "u64 \<Rightarrow> u64 \<Rightarrow> ('e, usize) outcome" where
  "get_page_index level addr =
     (if level < 1 \<or> 4 < level then Panic AssertFailed
      else Ok (drop_bit (9 * level + 3) addr AND 0x1FF))"

definition deref_table :: "(u64 \<rightharpoonup> 'pte table) \<Rightarrow> u64 \<Rightarrow> ('e, 'pte table) outcome" where
  "deref_table mem p = (case mem p of None \<Rightarrow> Panic BadPointer | Some t \<Rightarrow> Ok t)"

definition index_table :: "'pte table \<Rightarrow> usize \<Rightarrow> ('e, 'pte) outcome" where
  "index_table t i = (if i < 512 then Ok (t i) else Panic IndexOutOfBounds)"

definition read_entry :: "(u64 \<rightharpoonup> 'pte table) \<Rightarrow> u64 \<Rightarrow> usize \<Rightarrow> ('e, 'pte) outcome" where
  "read_entry mem p i = try_outcome (deref_table mem p) (\<lambda>t. index_table t i)"

definition write_entry :: "u64 \<Rightarrow> usize \<Rightarrow> 'pte \<Rightarrow> (('pte, 'fa) paging_state, 'e, unit) prog" where
  "write_entry p i e =
     try_prog (reads (\<lambda>s. deref_table (tables s) p)) (\<lambda>t.
     try_prog (reads (\<lambda>_. index_table t i)) (\<lambda>_.
     modifies (\<lambda>s. s\<lparr>tables := (tables s)(p \<mapsto> t(i := e))\<rparr>)))"

definition new_page_table_level ::
    "('pte, 'fl, 'z) x86_64_scheme \<Rightarrow> u64 \<Rightarrow> (('pte, 'fa) paging_state, 'e, u64) prog" where
  "new_page_table_level X at =
     (if at mod PAGE_SIZE \<noteq> 0 then panic_with ExplicitPanic
      else try_prog (modifies (\<lambda>s. s\<lparr>tables := (tables s)(at \<mapsto> (\<lambda>_. entry_new X))\<rparr>)) (\<lambda>_. ret at))"

definition phys_page_table_as_virt ::
    "('pte, 'fl, 'z) x86_64_scheme \<Rightarrow> RecursivePageTable \<Rightarrow> PhysAddr \<Rightarrow> ('e, VirtAddr) outcome" where
  "phys_page_table_as_virt X self page_table =
     try_outcome (add64 page_table (internal_offset self)) (\<lambda>a. of_lib (VirtAddr_new X a))"

definition alloc_frame ::
    "('fa, MemoryError, PhysAddr) prog \<Rightarrow> (('pte, 'fa) paging_state, MemoryError, PhysAddr) prog" where
  "alloc_frame alloc = zoom frames (\<lambda>a s. s\<lparr>frames := a\<rparr>) alloc"

definition RecursivePageTable_new ::
    "('pte, 'fl, 'z) x86_64_scheme \<Rightarrow> ('fa, MemoryError, PhysAddr) prog \<Rightarrow> u64 option \<Rightarrow>
       (('pte, 'fa) paging_state, 'e, RecursivePageTable) prog" where
  "RecursivePageTable_new X alloc hhdm_offset =
     try_prog (reads (\<lambda>_. unwrap_option hhdm_offset)) (\<lambda>offset.
     try_prog (unwrap_prog (alloc_frame alloc)) (\<lambda>frame.
     try_prog (reads (\<lambda>_. of_lib (VirtAddr_new X frame))) (\<lambda>v.
     try_prog (reads (\<lambda>_. of_lib (VirtAddr_add X v offset))) (\<lambda>at.
     try_prog (new_page_table_level X at) (\<lambda>root.
     try_prog (reads (\<lambda>s. read_entry (tables s) root 510)) (\<lambda>e.
     try_prog (reads (\<lambda>_. of_lib (entry_set_frame X e
                 (PhysFrame_containing_address X frame) (flags_rw X)))) (\<lambda>e'.
     try_prog (write_entry root 510 e') (\<lambda>_.
     ret \<lparr>lvl4 = root, internal_offset = offset\<rparr>))))))))"

text \<open>The loop of \<open>get_page_table\<close> over \<open>level in 0..(4 - target_lvl)\<close>.\<close>

fun walk_levels ::
    "('pte, 'fl, 'z) x86_64_scheme \<Rightarrow> RecursivePageTable \<Rightarrow> (u64 \<rightharpoonup> 'pte table) \<Rightarrow> VirtAddr \<Rightarrow>
       u64 list \<Rightarrow> u64 \<Rightarrow> ('e, u64 option) outcome" where
  "walk_levels X self mem to [] current_table = Ok (Some current_table)"
| "walk_levels X self mem to (level # levels) current_table =
     try_outcome (get_page_index (4 - level) to) (\<lambda>i.
     try_outcome (read_entry mem current_table i) (\<lambda>entry.
     if entry_is_unused X entry then Ok None else
     try_outcome (phys_page_table_as_virt X self (entry_addr X entry)) (\<lambda>next_table.
     walk_levels X self mem to levels next_table)))"

definition get_page_table ::
    "('pte, 'fl, 'z) x86_64_scheme \<Rightarrow> RecursivePageTable \<Rightarrow> (u64 \<rightharpoonup> 'pte table) \<Rightarrow> u64 \<Rightarrow> VirtAddr \<Rightarrow>
       ('e, u64 option) outcome" where
  "get_page_table X self mem target_lvl to =
     (if target_lvl < 1 \<or> 4 < target_lvl then Panic AssertFailed
      else walk_levels X self mem to [0..<4 - target_lvl] (lvl4 self))"

text \<open>The loop of \<open>map\<close> over \<open>new_level in (2..=level).rev()\<close>, which creates the missing tables.\<close>

fun create_levels ::
    "('pte, 'fl, 'z) x86_64_scheme \<Rightarrow> ('fa, MemoryError, PhysAddr) prog \<Rightarrow> RecursivePageTable \<Rightarrow>
       VirtAddr \<Rightarrow> u64 list \<Rightarrow> u64 \<Rightarrow> (('pte, 'fa) paging_state, PagingError, u64) prog" where
  "create_levels X alloc self to [] current_table = ret current_table"
| "create_levels X alloc self to (new_level # levels) current_table =
     try_prog (reads (\<lambda>_. get_page_index new_level to)) (\<lambda>i.
     try_prog (reads (\<lambda>s. read_entry (tables s) current_table i)) (\<lambda>entry.
     if \<not> entry_is_unused X entry then panic_with AssertFailed else
     try_prog (map_err_prog (\<lambda>_. TableAllocationFailed) (alloc_frame alloc)) (\<lambda>frame.
     try_prog (reads (\<lambda>_. of_lib (entry_set_addr X entry frame (flags_rwx X)))) (\<lambda>entry'.
     try_prog (write_entry current_table i entry') (\<lambda>_.
     try_prog (reads (\<lambda>_. phys_page_table_as_virt X self (entry_addr X entry'))) (\<lambda>at.
     try_prog (new_page_table_level X at) (\<lambda>next_table.
     create_levels X alloc self to levels next_table)))))))"

fun map_at_levels ::
    "('pte, 'fl, 'z) x86_64_scheme \<Rightarrow> ('fa, MemoryError, PhysAddr) prog \<Rightarrow> RecursivePageTable \<Rightarrow>
       PhysAddr \<Rightarrow> VirtAddr \<Rightarrow> 'fl \<Rightarrow> u64 list \<Rightarrow> (('pte, 'fa) paging_state, PagingError, unit) prog" where
  "map_at_levels X alloc self from to flags [] = panic_with UnreachableCode"
| "map_at_levels X alloc self from to flags (level # levels) =
     try_prog (reads (\<lambda>s. get_page_table X self (tables s) level to)) (\<lambda>found.
     case found of
       None \<Rightarrow> map_at_levels X alloc self from to flags levels
     | Some page_table \<Rightarrow>
         try_prog (create_levels X alloc self to (rev [2..<level + 1]) page_table) (\<lambda>current_table.
         try_prog (reads (\<lambda>_. get_page_index 1 to)) (\<lambda>i.
         try_prog (reads (\<lambda>s. read_entry (tables s) current_table i)) (\<lambda>entry.
         if \<not> entry_is_unused X entry then throw (AlreadyMapped to) else
         try_prog (reads (\<lambda>_. of_lib (entry_set_addr X entry from flags))) (\<lambda>entry'.
         write_entry current_table i entry')))))"

definition RecursivePageTable_map ::
    "('pte, 'fl, 'z) x86_64_scheme \<Rightarrow> ('fa, MemoryError, PhysAddr) prog \<Rightarrow> RecursivePageTable \<Rightarrow>
       PhysAddr \<Rightarrow> VirtAddr \<Rightarrow> 'fl \<Rightarrow> (('pte, 'fa) paging_state, PagingError, unit) prog" where
  "RecursivePageTable_map X alloc self from to flags =
     try_prog (reads (\<lambda>_. get_page_index 4 to)) (\<lambda>i.
     if i = 510 then throw (AttemptedMappingToReserved to)
     else map_at_levels X alloc self from to flags [1..<5])"

definition RecursivePageTable_update_flags ::
    "('pte, 'fl, 'z) x86_64_scheme \<Rightarrow> RecursivePageTable \<Rightarrow> VirtAddr \<Rightarrow> 'fl \<Rightarrow>
       (('pte, 'fa) paging_state, PagingError, unit) prog" where
  "RecursivePageTable_update_flags X self to flags =
     try_prog (reads (\<lambda>s. get_page_table X self (tables s) 1 to)) (\<lambda>found.
     case found of
       Some page_table \<Rightarrow>
         try_prog (reads (\<lambda>_. get_page_index 1 to)) (\<lambda>i.
         try_prog (reads (\<lambda>s. read_entry (tables s) page_table i)) (\<lambda>entry.
         if entry_is_unused X entry then throw (NotMapped to) else
         write_entry page_table i (entry_set_flags X entry flags)))
     | None \<Rightarrow> ret ())"

text \<open>\<open>(0..pages * PAGE_SIZE).step_by(PAGE_SIZE)\<close>\<close>

definition page_offsets :: "usize \<Rightarrow> ('e, usize list) outcome" where
  "page_offsets pages =
     try_outcome (mul64 pages PAGE_SIZE) (\<lambda>n. Ok (map (\<lambda>k. k * PAGE_SIZE) [0..<div_ceil n PAGE_SIZE]))"

definition RecursivePageTable_map_contiguous ::
    "('pte, 'fl, 'z) x86_64_scheme \<Rightarrow> ('fa, MemoryError, PhysAddr) prog \<Rightarrow> RecursivePageTable \<Rightarrow>
       usize \<Rightarrow> PhysAddr \<Rightarrow> VirtAddr \<Rightarrow> 'fl \<Rightarrow> (('pte, 'fa) paging_state, PagingError, unit) prog" where
  "RecursivePageTable_map_contiguous X alloc self pages from to flags =
     try_prog (reads (\<lambda>_. page_offsets pages)) (\<lambda>offsets.
     for_each offsets (\<lambda>page.
       try_prog (reads (\<lambda>_. of_lib (PhysAddr_add X from page))) (\<lambda>p.
       try_prog (reads (\<lambda>_. of_lib (VirtAddr_add X to page))) (\<lambda>v.
       RecursivePageTable_map X alloc self p v flags))))"

definition RecursivePageTable_translate ::
    "('pte, 'fl, 'z) x86_64_scheme \<Rightarrow> RecursivePageTable \<Rightarrow> (u64 \<rightharpoonup> 'pte table) \<Rightarrow> VirtAddr \<Rightarrow>
       ('e, PhysAddr option) outcome" where
  "RecursivePageTable_translate X self mem from =
     try_outcome (get_page_table X self mem 1 from) (\<lambda>found.
     case found of
       Some page_table \<Rightarrow>
         try_outcome (get_page_index 1 from) (\<lambda>i.
         try_outcome (read_entry mem page_table i) (\<lambda>entry.
         if entry_is_unused X entry then Ok None else
         try_outcome (of_lib (PhysAddr_add X (entry_addr X entry) (from mod PAGE_SIZE))) (\<lambda>p.
         Ok (Some p))))
     | None \<Rightarrow> Ok None)"

definition RecursivePageTable_unmap ::
    "('pte, 'fl, 'z) x86_64_scheme \<Rightarrow> RecursivePageTable \<Rightarrow> VirtAddr \<Rightarrow>
       (('pte, 'fa) paging_state, PagingError, unit) prog" where
  "RecursivePageTable_unmap X self address =
     try_prog (reads (\<lambda>s. get_page_table X self (tables s) 1 address)) (\<lambda>found.
     case found of
       Some page_table \<Rightarrow>
         try_prog (reads (\<lambda>_. get_page_index 1 address)) (\<lambda>i.
         try_prog (reads (\<lambda>s. read_entry (tables s) page_table i)) (\<lambda>entry.
         if entry_is_unused X entry then throw (NotMapped address) else
         write_entry page_table i (entry_set_unused X entry)))
     | None \<Rightarrow> throw (NotMapped address))"

definition RecursivePageTable_unmap_contiguous ::
    "('pte, 'fl, 'z) x86_64_scheme \<Rightarrow> RecursivePageTable \<Rightarrow> usize \<Rightarrow> VirtAddr \<Rightarrow>
       (('pte, 'fa) paging_state, PagingError, unit) prog" where
  "RecursivePageTable_unmap_contiguous X self pages address =
     try_prog (reads (\<lambda>_. page_offsets pages)) (\<lambda>offsets.
     for_each offsets (\<lambda>page.
       try_prog (reads (\<lambda>_. of_lib (VirtAddr_add X address page))) (\<lambda>v.
       RecursivePageTable_unmap X self v)))"

text \<open>
  \<open>load\<close> writes the frame of the level-4 table to CR3 and replaces the pointer to it. The result is
  the frame written and the table descriptor afterwards.
\<close>

definition RecursivePageTable_load ::
    "('pte, 'fl, 'z) x86_64_scheme \<Rightarrow> RecursivePageTable \<Rightarrow> ('e, PhysAddr \<times> RecursivePageTable) outcome" where
  "RecursivePageTable_load X self =
     try_outcome (sub64 (lvl4 self) (internal_offset self)) (\<lambda>a.
     try_outcome (of_lib (PhysAddr_new X a)) (\<lambda>page_table.
     try_outcome (unwrap_option (PhysFrame_from_start_address X page_table)) (\<lambda>frame.
     if page_table AND 0xFFF \<noteq> 0 then Panic AssertFailed
     else Ok (frame, self\<lparr>lvl4 := LEVEL4\<rparr>))))"

text \<open>\<open>flush\<close>: the address whose translation the processor forgets.\<close>

definition RecursivePageTable_flush ::
    "('pte, 'fl, 'z) x86_64_scheme \<Rightarrow> RecursivePageTable \<Rightarrow> ('e, VirtAddr) outcome" where
  "RecursivePageTable_flush X self = of_lib (VirtAddr_new X (lvl4 self))"

end
