(* ===== verification/Page_Table_Walk.thy ===== *)
theory Page_Table_Walk
  imports Page_Table
begin

text \<open>
  The tables as a tree. A path is the list of indices followed from the level-4 table; the tables
  reached by the walks of \<open>get_page_table\<close> are the tables at the paths of length at most three that
  do not start with the recursive entry 510. The invariant \<open>tree_ok\<close> says that distinct paths lead to
  distinct tables, all of them in memory and in frames the allocator has given away. Adding an empty
  table and changing an entry of a level-1 table keep it, and the lemmas say what they do to
  the walks.
\<close>

section \<open>Indices and paths\<close>

definition page_index :: "nat \<Rightarrow> u64 \<Rightarrow> nat" where
  "page_index level addr = drop_bit (9 * level + 3) addr AND 0x1FF"

definition table_path :: "u64 \<Rightarrow> nat list" where
  "table_path a = [page_index 4 a, page_index 3 a, page_index 2 a]"

definition page_key :: "u64 \<Rightarrow> nat list \<times> nat" where
  "page_key a = (table_path a, page_index 1 a)"

lemma page_index_eq: "page_index l a = a div 2 ^ (9 * l + 3) mod 512"
proof -
  have "page_index l a = take_bit 9 (drop_bit (9 * l + 3) a)"
    by (simp add: page_index_def take_bit_eq_mask mask_eq_exp_minus_1)
  then show ?thesis
    by (simp add: take_bit_eq_mod drop_bit_eq_div)
qed

lemma page_index_less [simp]: "page_index l a < 512"
  by (simp add: page_index_eq)

lemma get_page_index_eq: "1 \<le> l \<Longrightarrow> l \<le> 4 \<Longrightarrow> get_page_index l a = Ok (page_index l a)"
  by (simp add: get_page_index_def page_index_def)

lemma get_page_index_simps [simp]:
  "get_page_index 1 a = Ok (page_index 1 a)" "get_page_index (Suc 0) a = Ok (page_index 1 a)"
  "get_page_index 2 a = Ok (page_index 2 a)" "get_page_index 3 a = Ok (page_index 3 a)"
  "get_page_index 4 a = Ok (page_index 4 a)"
  by (simp_all add: get_page_index_eq)

definition valid_path :: "nat list \<Rightarrow> bool" where
  "valid_path js \<longleftrightarrow> (\<forall>j \<in> set js. j < 512) \<and> (js \<noteq> [] \<longrightarrow> hd js \<noteq> 510)"

lemma valid_path_Nil [simp]: "valid_path []"
  by (simp add: valid_path_def)

lemma valid_path_appendD: "valid_path (js @ ks) \<Longrightarrow> valid_path js"
  by (cases js) (auto simp: valid_path_def)

lemma valid_path_take: "valid_path js \<Longrightarrow> valid_path (take n js)"
  by (metis append_take_drop_id valid_path_appendD)

lemma valid_table_path: "valid_path (table_path a) \<longleftrightarrow> page_index 4 a \<noteq> 510"
  by (auto simp: valid_path_def table_path_def)

lemma canonical_page_number:
  assumes "canonical a"
  shows "a div 4096 = (let m = a div 4096 mod 2 ^ 36 in if m < 2 ^ 35 then m else 2 ^ 52 - 2 ^ 36 + m)"
proof (cases "a < 2 ^ 47")
  case True
  then have "a div 4096 < 2 ^ 35"
    by (simp add: div_less_iff_less_mult)
  then show ?thesis
    by simp
next
  case False
  define r where "r = a div 4096 - (2 ^ 52 - 2 ^ 35)"
  have "2 ^ 64 - 2 ^ 47 \<le> a" "a < 2 ^ 64"
    using assms False by (auto simp: canonical_def)
  then have "2 ^ 52 - 2 ^ 35 \<le> a div 4096" "a div 4096 < 2 ^ 52"
    by (simp_all add: div_less_iff_less_mult less_eq_div_iff_mult_less_eq)
  then have r: "a div 4096 = 2 ^ 36 * (2 ^ 16 - 1) + (2 ^ 35 + r)" "r < 2 ^ 35"
    by (auto simp: r_def)
  then have "a div 4096 mod 2 ^ 36 = 2 ^ 35 + r"
    by (simp only: r(1) mod_mult_self4) simp
  then show ?thesis
    using r by simp
qed

lemma page_number_split:
  "x div 4096 mod 2 ^ 36 = ((page_index 4 x * 512 + page_index 3 x) * 512 + page_index 2 x) * 512 + page_index 1 x"
proof -
  define y where "y = x div 4096"
  have idx: "page_index 1 x = y mod 512" "page_index 2 x = y div 512 mod 512"
    "page_index 3 x = y div 512 div 512 mod 512" "page_index 4 x = y div 512 div 512 div 512 mod 512"
    by (simp_all add: page_index_eq y_def div_mult2_eq [symmetric])
  have step: "n mod (m * k) = n div k mod m * k + n mod k" for n m k :: nat
    using mod_mult2_eq [of n k m] by (simp add: mult.commute)
  show ?thesis
    using step [of y "512 * 512 * 512" 512] step [of "y div 512" "512 * 512" 512]
      step [of "y div 512 div 512" 512 512]
    by (simp add: idx [simplified] y_def [symmetric])
qed

text \<open>Two canonical addresses with the same key are on the same page.\<close>

lemma page_key_inj:
  assumes "canonical a" "canonical b" "page_key a = page_key b"
  shows "a div 4096 = b div 4096"
proof -
  have same: "a div 4096 mod 2 ^ 36 = b div 4096 mod 2 ^ 36"
    using assms(3) unfolding page_number_split by (simp add: page_key_def table_path_def)
  then show ?thesis
    using canonical_page_number [OF assms(1)] canonical_page_number [OF assms(2)] by simp
qed

section \<open>The tree of tables\<close>

definition child ::
    "('pte, 'fl, 'z) x86_64_scheme \<Rightarrow> u64 \<Rightarrow> (u64 \<rightharpoonup> 'pte table) \<Rightarrow> u64 \<Rightarrow> nat \<Rightarrow> u64 option" where
  "child X off mem p i = (case mem p of
      None \<Rightarrow> None
    | Some t \<Rightarrow> if entry_is_unused X (t i) then None else Some (entry_addr X (t i) + off))"

fun table_at ::
    "('pte, 'fl, 'z) x86_64_scheme \<Rightarrow> u64 \<Rightarrow> (u64 \<rightharpoonup> 'pte table) \<Rightarrow> u64 \<Rightarrow> nat list \<Rightarrow> u64 option" where
  "table_at X off mem p [] = Some p"
| "table_at X off mem p (i # is) = Option.bind (child X off mem p i) (\<lambda>q. table_at X off mem q is)"

lemma table_at_append:
  "table_at X off mem p (is @ js) =
     Option.bind (table_at X off mem p is) (\<lambda>q. table_at X off mem q js)"
  by (induction "is" arbitrary: p) (auto split: Option.bind_splits)

lemma table_at_snoc:
  "table_at X off mem p (is @ [i]) = Option.bind (table_at X off mem p is) (\<lambda>q. child X off mem q i)"
  by (simp add: table_at_append split: Option.bind_splits)

lemma table_at_take_None:
  assumes "table_at X off mem p (take m js) = None" "m \<le> n"
  shows "table_at X off mem p (take n js) = None"
proof -
  obtain ks where "take n js = take m js @ ks"
    using assms(2) by (metis append_take_drop_id min_def take_take)
  then show ?thesis
    using assms(1) by (simp add: table_at_append)
qed

text \<open>The entry of the level-1 table for a page key, when it is in use.\<close>

definition leaf_entry ::
    "('pte, 'fl, 'z) x86_64_scheme \<Rightarrow> u64 \<Rightarrow> (u64 \<rightharpoonup> 'pte table) \<Rightarrow> u64 \<Rightarrow> nat list \<times> nat \<Rightarrow> 'pte option" where
  "leaf_entry X off mem root k =
     Option.bind (table_at X off mem root (fst k)) (\<lambda>q.
     Option.bind (mem q) (\<lambda>t. if entry_is_unused X (t (snd k)) then None else Some (t (snd k))))"

definition node_path :: "nat list \<Rightarrow> bool" where
  "node_path js \<longleftrightarrow> valid_path js \<and> length js \<le> 3"

definition tree_ok ::
    "('pte, 'fl, 'z) x86_64_scheme \<Rightarrow> u64 \<Rightarrow> u64 \<Rightarrow> PhysAddr set \<Rightarrow> (u64 \<rightharpoonup> 'pte table) \<Rightarrow> bool" where
  "tree_ok X off root taken mem \<longleftrightarrow>
     (\<forall>js q. node_path js \<and> table_at X off mem root js = Some q \<longrightarrow>
        mem q \<noteq> None \<and> canonical q \<and> q \<in> (\<lambda>f. f + off) ` taken) \<and>
     (\<forall>js ks q. node_path js \<and> node_path ks \<and> table_at X off mem root js = Some q \<and>
        table_at X off mem root ks = Some q \<longrightarrow> js = ks)"

lemma tree_okD:
  assumes "tree_ok X off root taken mem" "node_path js" "table_at X off mem root js = Some q"
  shows "mem q \<noteq> None" "canonical q" "q \<in> (\<lambda>f. f + off) ` taken"
  using assms by (auto simp: tree_ok_def)

lemma tree_ok_inj:
  assumes "tree_ok X off root taken mem" "node_path js" "node_path ks"
    and "table_at X off mem root js = Some q" "table_at X off mem root ks = Some q"
  shows "js = ks"
  using assms unfolding tree_ok_def by blast

lemma tree_ok_mono: "tree_ok X off root taken mem \<Longrightarrow> taken \<subseteq> taken' \<Longrightarrow> tree_ok X off root taken' mem"
  by (fastforce simp: tree_ok_def)

lemma tree_ok_fresh:
  assumes "tree_ok X off root taken mem" "f \<notin> taken" "node_path js"
  shows "table_at X off mem root js \<noteq> Some (f + off)"
  using tree_okD(3) [OF assms(1,3)] assms(2) by auto

lemma node_path_snocD: "node_path (js @ [j]) \<Longrightarrow> node_path js"
  by (auto simp: node_path_def dest: valid_path_appendD)

text \<open>
  The entries that lead to tables: entry 510 of the root leads back to it and carries \<open>flags_rw\<close>, every other
  entry in use above level 1 carries \<open>flags_rwx\<close>.
\<close>

definition links_ok :: "('pte, 'fl, 'z) x86_64_scheme \<Rightarrow> u64 \<Rightarrow> u64 \<Rightarrow> (u64 \<rightharpoonup> 'pte table) \<Rightarrow> bool" where
  "links_ok X off root mem \<longleftrightarrow>
     (\<exists>t. mem root = Some t \<and> \<not> entry_is_unused X (t 510) \<and> entry_addr X (t 510) + off = root \<and>
        entry_flags X (t 510) = flags_rw X) \<and>
     (\<forall>js i q t. node_path (js @ [i]) \<and> table_at X off mem root js = Some q \<and> mem q = Some t \<and>
        \<not> entry_is_unused X (t i) \<longrightarrow> entry_flags X (t i) = flags_rwx X)"

lemma links_okD:
  assumes "links_ok X off root mem" "node_path (js @ [i])" "table_at X off mem root js = Some q" "mem q = Some t"
    and "\<not> entry_is_unused X (t i)"
  shows "entry_flags X (t i) = flags_rwx X"
  using assms unfolding links_ok_def by blast

lemma links_okI:
  assumes "mem root = Some t" "\<not> entry_is_unused X (t 510)" "entry_addr X (t 510) + off = root"
    "entry_flags X (t 510) = flags_rw X"
    and "\<And>js i q t. node_path (js @ [i]) \<Longrightarrow> table_at X off mem root js = Some q \<Longrightarrow> mem q = Some t \<Longrightarrow>
      \<not> entry_is_unused X (t i) \<Longrightarrow> entry_flags X (t i) = flags_rwx X"
  shows "links_ok X off root mem"
  using assms unfolding links_ok_def by blast

lemma links_okE:
  assumes "links_ok X off root mem"
  obtains t where "mem root = Some t" "\<not> entry_is_unused X (t 510)" "entry_addr X (t 510) + off = root"
    "entry_flags X (t 510) = flags_rw X"
  using assms unfolding links_ok_def by blast

lemma links_ok_child: "links_ok X off root mem \<Longrightarrow> child X off mem root 510 = Some root"
  by (auto simp: links_ok_def child_def)

text \<open>Changing an entry of a level-1 table changes no walk.\<close>

lemma table_at_leaf_update:
  assumes ok: "tree_ok X off root taken mem" and pre: "node_path pre" "length pre = 3"
    "table_at X off mem root pre = Some p" and js: "node_path js"
  shows "table_at X off (mem(p \<mapsto> t)) root js = table_at X off mem root js"
  using js
proof (induction js rule: rev_induct)
  case (snoc j js)
  have IH: "table_at X off (mem(p \<mapsto> t)) root js = table_at X off mem root js"
    using snoc by (blast dest: node_path_snocD)
  have "q \<noteq> p" if "table_at X off mem root js = Some q" for q
  proof
    assume "q = p"
    with tree_ok_inj [OF ok _ pre(1) _ pre(3), of js] that snoc.prems have "js = pre"
      by (blast dest: node_path_snocD)
    with pre(2) snoc.prems show False
      by (simp add: node_path_def)
  qed
  then show ?case
    unfolding table_at_snoc IH by (cases "table_at X off mem root js") (simp_all add: child_def)
qed simp

lemma links_leaf_update:
  assumes ok: "tree_ok X off root taken mem" and pre: "node_path pre" "length pre = 3"
    "table_at X off mem root pre = Some p" and links: "links_ok X off root mem"
  shows "links_ok X off root (mem(p \<mapsto> t))"
proof -
  have other: "q \<noteq> p" if "node_path js" "length js \<le> 2" "table_at X off mem root js = Some q" for js q
    using tree_ok_inj [OF ok that(1) pre(1) _ pre(3)] that pre(2) by auto
  have root: "root \<noteq> p"
    using other [of "[]" root] by (simp add: node_path_def)
  have entries: "entry_flags X (u i) = flags_rwx X"
    if "node_path (js @ [i])" "table_at X off (mem(p \<mapsto> t)) root js = Some q" "(mem(p \<mapsto> t)) q = Some u"
      "\<not> entry_is_unused X (u i)" for js i q u
  proof -
    have js: "node_path js" "length js \<le> 2"
      using that(1) by (auto simp: node_path_def dest: valid_path_appendD)
    have q: "table_at X off mem root js = Some q"
      using that(2) table_at_leaf_update [OF ok pre js(1)] by simp
    then have "mem q = Some u"
      using other [OF js q] that(3) by simp
    then show ?thesis
      by (rule links_okD [OF links that(1) q]) (rule that(4))
  qed
  show ?thesis
    by (rule links_okE [OF links], rule links_okI) (use root in simp, assumption+, rule entries)
qed

lemma leaf_update:
  assumes ok: "tree_ok X off root taken mem" and pre: "node_path pre" "length pre = 3"
    "table_at X off mem root pre = Some p" and t: "mem p = Some t"
  shows "tree_ok X off root taken (mem(p \<mapsto> t(i := e)))"
    and "node_path (fst k) \<Longrightarrow> leaf_entry X off (mem(p \<mapsto> t(i := e))) root k =
      (if k = (pre, i) then (if entry_is_unused X e then None else Some e)
       else leaf_entry X off mem root k)"
proof -
  define mem' where "mem' = mem(p \<mapsto> t(i := e))"
  have same: "node_path js \<Longrightarrow> table_at X off mem' root js = table_at X off mem root js" for js
    unfolding mem'_def by (rule table_at_leaf_update [OF ok pre])
  have dom: "mem q \<noteq> None \<Longrightarrow> mem' q \<noteq> None" for q
    by (simp add: mem'_def)
  show "tree_ok X off root taken (mem(p \<mapsto> t(i := e)))"
    using ok dom unfolding tree_ok_def mem'_def [symmetric] by (metis same)
  assume k: "node_path (fst k)"
  have at: "table_at X off mem root (fst k) = Some p \<longleftrightarrow> fst k = pre"
    using tree_ok_inj [OF ok k pre(1) _ pre(3)] pre(3) by blast
  show "leaf_entry X off (mem(p \<mapsto> t(i := e))) root k =
      (if k = (pre, i) then (if entry_is_unused X e then None else Some e)
       else leaf_entry X off mem root k)"
  proof (cases "table_at X off mem root (fst k)")
    case None
    then show ?thesis
      using pre(3) by (auto simp: leaf_entry_def same [OF k] mem'_def [symmetric])
  next
    case (Some q)
    then have "leaf_entry X off mem' root k = Option.bind (mem' q)
        (\<lambda>t. if entry_is_unused X (t (snd k)) then None else Some (t (snd k)))"
      by (simp add: leaf_entry_def same [OF k])
    then show ?thesis
      using Some at t by (cases k) (auto simp: leaf_entry_def mem'_def)
  qed
qed

text \<open>
  Linking a new empty table, in a frame the tree does not use yet, behind an unused entry: the walks
  are as before except the one that ends in the new table.
\<close>

context x86_64_crate
begin

lemma table_at_add:
  assumes ok: "tree_ok X off root taken mem" and pre: "node_path (pre @ [i])"
    "table_at X off mem root pre = Some cur" and t: "mem cur = Some t" "entry_is_unused X (t i)"
    and e: "\<not> entry_is_unused X e" "entry_addr X e = f" and f: "f \<notin> taken" and js: "node_path js"
  shows "table_at X off (mem(cur \<mapsto> t(i := e), f + off \<mapsto> (\<lambda>_. entry_new X))) root js =
    (if js = pre @ [i] then Some (f + off) else table_at X off mem root js)"
  using js
proof (induction js rule: rev_induct)
  case (snoc j js)
  define mem' where "mem' = mem(cur \<mapsto> t(i := e), f + off \<mapsto> (\<lambda>_. entry_new X))"
  have npre: "node_path pre" and njs: "node_path js"
    using pre(1) snoc.prems by (auto dest: node_path_snocD)
  have IH: "table_at X off mem' root js =
      (if js = pre @ [i] then Some (f + off) else table_at X off mem root js)"
    using snoc.IH [OF njs] by (simp only: mem'_def)
  have new: "child X off mem' (f + off) j = None"
    by (simp add: child_def mem'_def unused_new)
  have cur: "child X off mem cur i = None" "child X off mem' cur j =
      (if j = i then Some (f + off) else child X off mem cur j)"
    using tree_ok_fresh [OF ok f npre] pre(2) t e by (auto simp: child_def mem'_def)
  have other: "child X off mem' q j = child X off mem q j" if "q \<noteq> cur" "q \<noteq> f + off" for q
    using that by (simp add: child_def mem'_def)
  have "table_at X off mem' root (js @ [j]) =
      (if js @ [j] = pre @ [i] then Some (f + off) else table_at X off mem root (js @ [j]))"
  proof (cases "js = pre @ [i]")
    case True
    then show ?thesis
      unfolding table_at_snoc IH using new cur pre(2) by (simp add: table_at_snoc)
  next
    case False
    show ?thesis
    proof (cases "table_at X off mem root js")
      case None
      then show ?thesis
        unfolding table_at_snoc IH using False pre(2) by auto
    next
      case (Some q)
      then have "q \<noteq> f + off" and "q = cur \<longleftrightarrow> js = pre"
        using tree_ok_fresh [OF ok f njs] tree_ok_inj [OF ok njs npre _ pre(2)] pre(2) by auto
      then show ?thesis
        unfolding table_at_snoc IH using Some False cur other [of q] by auto
    qed
  qed
  then show ?case
    by (simp only: mem'_def)
qed simp

lemma links_add_table:
  assumes ok: "tree_ok X off root taken mem" and pre: "node_path (pre @ [i])"
    "table_at X off mem root pre = Some cur" and t: "mem cur = Some t" "entry_is_unused X (t i)"
    and e: "\<not> entry_is_unused X e" "entry_addr X e = f" and f: "f \<notin> taken"
    and links: "links_ok X off root mem" and flags: "entry_flags X e = flags_rwx X"
  shows "links_ok X off root (mem(cur \<mapsto> t(i := e), f + off \<mapsto> (\<lambda>_. entry_new X)))"
proof -
  define mem' where "mem' = mem(cur \<mapsto> t(i := e), f + off \<mapsto> (\<lambda>_. entry_new X))"
  have fresh: "q \<noteq> f + off" if "node_path js" "table_at X off mem root js = Some q" for js q
    using tree_ok_fresh [OF ok f that(1)] that(2) by blast
  have root: "root \<noteq> f + off"
    using fresh [of "[]" root] by (simp add: node_path_def)
  have "i \<noteq> 510" if "cur = root"
    using tree_ok_inj [OF ok node_path_snocD [OF pre(1)], of "[]" root] pre that
    by (auto simp: node_path_def valid_path_def)
  then have same: "\<exists>u. mem' root = Some u \<and> u 510 = v 510" if "mem root = Some v" for v
    using that root t(1) by (auto simp: mem'_def)
  have entries: "entry_flags X (u j) = flags_rwx X"
    if path: "node_path (js @ [j])" and at: "table_at X off mem' root js = Some q" and u: "mem' q = Some u"
      "\<not> entry_is_unused X (u j)" for js j q u
  proof (cases "js = pre @ [i]")
    case True
    then have "q = f + off"
      using at table_at_add [OF ok pre t e f node_path_snocD [OF path]] by (simp add: mem'_def)
    then show ?thesis
      using u by (simp add: mem'_def) (metis unused_new)
  next
    case False
    have q: "table_at X off mem root js = Some q"
      using at table_at_add [OF ok pre t e f node_path_snocD [OF path]] False by (simp add: mem'_def)
    note ne = fresh [OF node_path_snocD [OF path] q]
    show ?thesis
    proof (cases "q = cur")
      case True
      then have "u = t(i := e)"
        using u(1) ne by (simp add: mem'_def)
      then show ?thesis
        using links_okD [OF links path q] True t(1) u(2) flags by (cases "j = i") simp_all
    next
      case False
      then show ?thesis
        using links_okD [OF links path q] ne u by (simp add: mem'_def)
    qed
  qed
  obtain v where v: "mem root = Some v" "\<not> entry_is_unused X (v 510)" "entry_addr X (v 510) + off = root"
    "entry_flags X (v 510) = flags_rw X"
    by (rule links_okE [OF links])
  then obtain u where "mem' root = Some u" "u 510 = v 510"
    using same by blast
  then show ?thesis
    unfolding mem'_def [symmetric] using v by (intro links_okI [of mem' root u]) (simp_all add: entries)
qed

lemma add_table:
  assumes ok: "tree_ok X off root taken mem" and pre: "node_path (pre @ [i])"
    "table_at X off mem root pre = Some cur" and t: "mem cur = Some t" "entry_is_unused X (t i)"
    and e: "\<not> entry_is_unused X e" "entry_addr X e = f" and f: "f \<notin> taken"
    and f': "canonical (f + off)" "insert f taken \<subseteq> taken'"
  defines "mem' \<equiv> mem(cur \<mapsto> t(i := e), f + off \<mapsto> (\<lambda>_. entry_new X))"
  shows "tree_ok X off root taken' mem'"
    and "table_at X off mem' root (pre @ [i]) = Some (f + off)"
    and "node_path js \<Longrightarrow> js \<noteq> pre @ [i] \<Longrightarrow> table_at X off mem' root js = table_at X off mem root js"
    and "node_path (fst k) \<Longrightarrow> length (fst k) = 3 \<Longrightarrow>
      leaf_entry X off mem' root k = leaf_entry X off mem root k"
proof -
  have walk: "table_at X off mem' root js =
      (if js = pre @ [i] then Some (f + off) else table_at X off mem root js)" if "node_path js" for js
    unfolding mem'_def by (rule table_at_add [OF ok pre t e f that])
  have dom: "mem q \<noteq> None \<Longrightarrow> mem' q \<noteq> None" "mem' (f + off) \<noteq> None" for q
    by (simp_all add: mem'_def)
  have fresh: "node_path js \<Longrightarrow> table_at X off mem root js \<noteq> Some (f + off)" for js
    by (rule tree_ok_fresh [OF ok f])
  show "tree_ok X off root taken' mem'"
    unfolding tree_ok_def
  proof (rule conjI; intro allI impI; elim conjE)
    fix js q assume js: "node_path js" "table_at X off mem' root js = Some q"
    have "q = f + off \<or> table_at X off mem root js = Some q"
      using js(2) unfolding walk [OF js(1)] by (cases "js = pre @ [i]") simp_all
    then consider "q = f + off" | "table_at X off mem root js = Some q"
      by blast
    then show "mem' q \<noteq> None \<and> canonical q \<and> q \<in> (\<lambda>f. f + off) ` taken'"
    proof cases
      case 1
      then show ?thesis
        using dom(2) f' by blast
    next
      case 2
      then show ?thesis
        using tree_okD [OF ok js(1) 2] dom(1) [of q] f'(2) by blast
    qed
  next
    fix js ks q assume n: "node_path js" "node_path ks"
      and q: "table_at X off mem' root js = Some q" "table_at X off mem' root ks = Some q"
    show "js = ks"
      using q fresh [OF n(1)] fresh [OF n(2)] tree_ok_inj [OF ok n, of q]
      unfolding walk [OF n(1)] walk [OF n(2)] by (auto split: if_splits)
  qed
  show "table_at X off mem' root (pre @ [i]) = Some (f + off)"
    using pre(1) by (simp add: walk)
  show "node_path js \<Longrightarrow> js \<noteq> pre @ [i] \<Longrightarrow> table_at X off mem' root js = table_at X off mem root js"
    by (simp add: walk)
  assume k: "node_path (fst k)" "length (fst k) = 3"
  show "leaf_entry X off mem' root k = leaf_entry X off mem root k"
  proof (cases "fst k = pre @ [i]")
    case True
    have "leaf_entry X off mem' root k = None"
      using walk [OF k(1)] True by (simp add: leaf_entry_def) (simp add: mem'_def unused_new)
    moreover have "leaf_entry X off mem root k = None"
      using True pre(2) t by (simp add: leaf_entry_def table_at_snoc child_def)
    ultimately show ?thesis
      by simp
  next
    case False
    have "mem' q = mem q" if "table_at X off mem root (fst k) = Some q" for q
      using that fresh [OF k(1)] tree_ok_inj [OF ok k(1) node_path_snocD [OF pre(1)] _ pre(2)] k(2) pre(1)
      by (auto simp: node_path_def mem'_def)
    then show ?thesis
      using walk [OF k(1)] False
      by (cases "table_at X off mem root (fst k)") (simp_all add: leaf_entry_def)
  qed
qed

end

end
