(* ===== verification/Page_Table_Correct.thy ===== *)
theory Page_Table_Correct
  imports Page_Table_Walk
begin

text \<open>
  Correctness of the page table operations. The abstract address space of a page table is the
  partial function \<open>mapped\<close> from virtual addresses to a frame and its flags; the operations are
  shown to act on it as an update of one page, under the invariant \<open>paging_inv\<close>, for every frame
  allocator that meets \<open>frame_source\<close> (locale \<open>paging\<close>). The locale \<open>paging_supply\<close> adds that the
  allocator still has frames, which makes \<open>map\<close> total. Both are interpreted on the linear frame
  allocator, the one the kernel builds its tables with.
\<close>

definition mapped ::
    "('pte, 'fl, 'z) x86_64_scheme \<Rightarrow> RecursivePageTable \<Rightarrow> (u64 \<rightharpoonup> 'pte table) \<Rightarrow> VirtAddr \<Rightarrow>
       (PhysAddr \<times> 'fl) option" where
  "mapped X self mem a =
     (if page_index 4 a = 510 then None
      else map_option (\<lambda>e. (entry_addr X e, entry_flags X e))
        (leaf_entry X (internal_offset self) mem (lvl4 self) (page_key a)))"

definition paging_inv ::
    "('pte, 'fl, 'z) x86_64_scheme \<Rightarrow> ('fa \<Rightarrow> bool) \<Rightarrow> ('fa \<Rightarrow> PhysAddr set) \<Rightarrow> RecursivePageTable \<Rightarrow>
       ('pte, 'fa) paging_state \<Rightarrow> bool" where
  "paging_inv X good taken self s \<longleftrightarrow>
     good (frames s) \<and> internal_offset self mod 4096 = 0 \<and>
     tree_ok X (internal_offset self) (lvl4 self) (taken (frames s)) (tables s) \<and>
     links_ok X (internal_offset self) (lvl4 self) (tables s)"

lemma node_path_take:
  "page_index 4 a \<noteq> 510 \<Longrightarrow> node_path (take n (table_path a))"
  by (simp add: node_path_def valid_path_take valid_table_path) (simp add: table_path_def)

lemma length_table_path [simp]: "length (table_path a) = 3"
  by (simp add: table_path_def)

lemma node_table_path: "page_index 4 a \<noteq> 510 \<Longrightarrow> node_path (table_path a)"
  using node_path_take [of a 3] by simp

lemma page_key_simps [simp]: "fst (page_key a) = table_path a" "snd (page_key a) = page_index 1 a"
  by (simp_all add: page_key_def)

lemma read_entry_eq: "mem p = Some t \<Longrightarrow> i < 512 \<Longrightarrow> read_entry mem p i = Ok (t i)"
  by (simp add: read_entry_def deref_table_def index_table_def)

lemma write_entry_eq:
  "tables s p = Some t \<Longrightarrow> i < 512 \<Longrightarrow>
     write_entry p i e s = (Ok (), s\<lparr>tables := (tables s)(p \<mapsto> t(i := e))\<rparr>)"
  by (simp add: write_entry_def deref_table_def index_table_def)

section \<open>Walking the tables\<close>

context x86_64_crate
begin

lemma phys_as_virt:
  assumes "canonical (p + internal_offset self)"
  shows "phys_page_table_as_virt X self p = Ok (p + internal_offset self)"
proof -
  have "p + internal_offset self < 2 ^ 64"
    using assms by (auto simp: canonical_def)
  then show ?thesis
    using assms by (simp add: phys_page_table_as_virt_def add64_def VirtAddr_new)
qed

lemma walk_levels_eq:
  assumes ok: "tree_ok X (internal_offset self) (lvl4 self) T mem"
  shows "table_at X (internal_offset self) mem (lvl4 self) pre = Some cur \<Longrightarrow>
    node_path (pre @ map (\<lambda>l. page_index (4 - l) to) ls) \<Longrightarrow> \<forall>l \<in> set ls. l \<le> 3 \<Longrightarrow>
    walk_levels X self mem to ls cur =
      Ok (table_at X (internal_offset self) mem cur (map (\<lambda>l. page_index (4 - l) to) ls))"
proof (induction ls arbitrary: pre cur)
  case (Cons l ls)
  define i where "i = page_index (4 - l) to"
  have np: "node_path (pre @ [i])" "node_path pre"
    using Cons.prems(2) by (auto simp: node_path_def i_def intro: valid_path_appendD)
  obtain t where t: "mem cur = Some t"
    using tree_okD(1) [OF ok np(2) Cons.prems(1)] by auto
  have idx: "get_page_index (4 - l) to = Ok i"
    using Cons.prems(3) unfolding i_def by (intro get_page_index_eq) auto
  have rd: "read_entry mem cur i = Ok (t i)"
    using t by (simp add: read_entry_eq i_def)
  show ?case
  proof (cases "entry_is_unused X (t i)")
    case True
    then show ?thesis
      using t by (simp add: idx rd child_def i_def [symmetric])
  next
    case False
    define q where "q = entry_addr X (t i) + internal_offset self"
    have ch: "child X (internal_offset self) mem cur i = Some q"
      using t False by (simp add: child_def q_def)
    then have q: "table_at X (internal_offset self) mem (lvl4 self) (pre @ [i]) = Some q"
      using Cons.prems(1) by (simp add: table_at_snoc)
    then have can: "canonical (entry_addr X (t i) + internal_offset self)"
      using tree_okD(2) [OF ok np(1)] by (simp add: q_def)
    have "node_path ((pre @ [i]) @ map (\<lambda>l. page_index (4 - l) to) ls)" "\<forall>l \<in> set ls. l \<le> 3"
      using Cons.prems(2,3) by (simp_all add: i_def)
    then show ?thesis
      using Cons.IH [OF q] False ch
      by (simp add: idx rd phys_as_virt [OF can] i_def [symmetric] q_def [symmetric])
  qed
qed simp

lemma get_page_table_eq:
  assumes ok: "tree_ok X (internal_offset self) (lvl4 self) T mem"
    and to: "page_index 4 to \<noteq> 510" and level: "1 \<le> level" "level \<le> 4"
  shows "get_page_table X self mem level to =
    Ok (table_at X (internal_offset self) mem (lvl4 self) (take (4 - level) (table_path to)))"
proof -
  have path: "map (\<lambda>l. page_index (4 - l) to) [0..<4 - level] = take (4 - level) (table_path to)"
  proof -
    consider "level = 1" | "level = 2" | "level = 3" | "level = 4"
      using level by linarith
    then show ?thesis
      by cases (simp_all add: table_path_def upt_rec)
  qed
  have "node_path ([] @ map (\<lambda>l. page_index (4 - l) to) [0..<4 - level])"
    using node_path_take [OF to] by (simp only: path append_Nil)
  moreover have "\<forall>l \<in> set [0..<4 - level]. l \<le> 3"
    using level by auto
  ultimately show ?thesis
    using walk_levels_eq [OF ok, of "[]" _ to "[0..<4 - level]"] level
    by (simp add: get_page_table_def path)
qed

lemma get_level_1:
  assumes "tree_ok X (internal_offset self) (lvl4 self) T mem" "page_index 4 to \<noteq> 510"
  shows "get_page_table X self mem 1 to =
    Ok (table_at X (internal_offset self) mem (lvl4 self) (table_path to))"
    "get_page_table X self mem (Suc 0) to =
    Ok (table_at X (internal_offset self) mem (lvl4 self) (table_path to))"
  using get_page_table_eq [OF assms, of 1] by simp_all

text \<open>What a lookup of the entry of a mapped or unmapped page finds.\<close>

lemma mapped_None_iff:
  assumes "page_index 4 a \<noteq> 510"
  shows "mapped X self mem a = None \<longleftrightarrow>
    (\<forall>p t. table_at X (internal_offset self) mem (lvl4 self) (table_path a) = Some p \<longrightarrow> mem p = Some t \<longrightarrow>
      entry_is_unused X (t (page_index 1 a)))"
  using assms by (auto simp: mapped_def leaf_entry_def split: Option.bind_splits if_splits)

lemma mapped_Some_iff:
  "mapped X self mem a = Some m \<longleftrightarrow> page_index 4 a \<noteq> 510 \<and>
    (\<exists>p t. table_at X (internal_offset self) mem (lvl4 self) (table_path a) = Some p \<and> mem p = Some t \<and>
      \<not> entry_is_unused X (t (page_index 1 a)) \<and>
      m = (entry_addr X (t (page_index 1 a)), entry_flags X (t (page_index 1 a))))"
  by (auto simp: mapped_def leaf_entry_def split: Option.bind_splits if_splits)

text \<open>Writing the entry of a page in its level-1 table changes the mapping of that page only.\<close>

lemma mapped_write:
  fixes e
  assumes inv: "paging_inv X good taken self s" and to: "page_index 4 to \<noteq> 510"
    and p: "table_at X (internal_offset self) (tables s) (lvl4 self) (table_path to) = Some p"
    and t: "tables s p = Some t"
  defines "s' \<equiv> s\<lparr>tables := (tables s)(p \<mapsto> t(page_index 1 to := e))\<rparr>"
  shows "paging_inv X good taken self s'"
    and "mapped X self (tables s') = (\<lambda>a. if page_key a = page_key to
      then if entry_is_unused X e then None else Some (entry_addr X e, entry_flags X e)
      else mapped X self (tables s) a)"
proof -
  have ok: "tree_ok X (internal_offset self) (lvl4 self) (taken (frames s)) (tables s)"
    using inv by (simp add: paging_inv_def)
  note upd = leaf_update [OF ok node_table_path [OF to] length_table_path p t,
      where i = "page_index 1 to" and e = e]
  have "links_ok X (internal_offset self) (lvl4 self) ((tables s)(p \<mapsto> t(page_index 1 to := e)))"
    using inv by (intro links_leaf_update [OF ok node_table_path [OF to] length_table_path p]) (simp add: paging_inv_def)
  then show "paging_inv X good taken self s'"
    using inv upd(1) by (simp add: paging_inv_def s'_def)
  have "mapped X self (tables s') a = (if page_key a = page_key to
      then if entry_is_unused X e then None else Some (entry_addr X e, entry_flags X e)
      else mapped X self (tables s) a)" for a
  proof (cases "page_index 4 a = 510")
    case True
    then have "page_key a \<noteq> page_key to"
      using to by (auto simp: page_key_def table_path_def)
    then show ?thesis
      using True by (simp add: mapped_def)
  next
    case False
    then have "leaf_entry X (internal_offset self) (tables s') (lvl4 self) (page_key a) =
        (if page_key a = page_key to then (if entry_is_unused X e then None else Some e)
         else leaf_entry X (internal_offset self) (tables s) (lvl4 self) (page_key a))"
      using upd(2) [of "page_key a"] node_table_path [OF False] by (simp add: s'_def page_key_def)
    then show ?thesis
      using False by (simp add: mapped_def)
  qed
  then show "mapped X self (tables s') = (\<lambda>a. if page_key a = page_key to
      then if entry_is_unused X e then None else Some (entry_addr X e, entry_flags X e)
      else mapped X self (tables s) a)"
    by (rule ext)
qed

end

section \<open>Updating the tables\<close>

locale paging = x86_64_crate X + frame_source alloc good taken
  for X :: "('pte, 'fl, 'z) x86_64_scheme" and alloc :: "('fa, MemoryError, PhysAddr) prog"
    and good taken
begin

abbreviation invariant where
  "invariant \<equiv> paging_inv X good taken"

abbreviation table_for where
  "table_for self s \<equiv> table_at X (internal_offset self) (tables s) (lvl4 self)"

lemma flags_rwx_present: "flags_contains X (flags_rwx X) (PRESENT X)"
  by (simp add: flags_rwx_def flag_simps)

lemma flags_rw_present: "flags_contains X (flags_rw X) (PRESENT X)"
  by (simp add: flags_rw_def flag_simps)

lemma flags_rw_not_huge: "\<not> flags_contains X (flags_rw X) (HUGE_PAGE X)"
  by (simp add: flags_rw_def flag_simps)

lemma missing_slot:
  assumes inv: "invariant self s" and pre: "node_path (pre @ [i])" "table_for self s pre = Some cur"
    and none: "table_for self s (pre @ [i]) = None"
  obtains t where "tables s cur = Some t" "entry_is_unused X (t i)"
proof -
  have ok: "tree_ok X (internal_offset self) (lvl4 self) (taken (frames s)) (tables s)"
    using inv by (auto simp: paging_inv_def)
  obtain t where t: "tables s cur = Some t"
    using tree_okD(1) [OF ok node_path_snocD [OF pre(1)] pre(2)] by auto
  then show ?thesis
    using that none pre(2) by (auto simp: table_at_snoc child_def split: if_splits)
qed

text \<open>One round of the loop that creates the missing tables.\<close>

lemma create_level:
  assumes inv: "invariant self s" and i: "i = page_index l to" "1 \<le> l" "l \<le> 4"
    and pre: "node_path (pre @ [i])" "table_for self s pre = Some cur"
    and none: "table_for self s (pre @ [i]) = None"
    and al: "alloc (frames s) = (Ok f, a')" and can: "canonical (f + internal_offset self)"
  obtains s' where
    "create_levels X alloc self to (l # ls) cur s = create_levels X alloc self to ls (f + internal_offset self) s'"
    "invariant self s'" "frames s' = a'"
    "table_for self s' (pre @ [i]) = Some (f + internal_offset self)"
    "\<And>js. node_path js \<Longrightarrow> js \<noteq> pre @ [i] \<Longrightarrow> table_for self s' js = table_for self s js"
    "mapped X self (tables s') = mapped X self (tables s)"
proof -
  have ok: "tree_ok X (internal_offset self) (lvl4 self) (taken (frames s)) (tables s)"
    and good: "good (frames s)" and off: "internal_offset self mod 4096 = 0"
    using inv by (auto simp: paging_inv_def)
  obtain t where t: "tables s cur = Some t" and unused: "entry_is_unused X (t i)"
    by (rule missing_slot [OF inv pre none])
  have f: "frame_address f" "f \<notin> taken (frames s)" "insert f (taken (frames s)) \<subseteq> taken a'" "good a'"
    using alloc_Ok [OF good al] by auto
  obtain e where e: "entry_set_addr X (t i) f (flags_rwx X) = Some e" "entry_addr X e = f"
    "\<not> entry_is_unused X e" "entry_flags X e = flags_rwx X"
    using set_addr_used [OF f(1) flags_rwx_present] by metis
  define mem' where "mem' = (tables s)(cur \<mapsto> t(i := e), f + internal_offset self \<mapsto> (\<lambda>_. entry_new X))"
  define s' where "s' = s\<lparr>frames := a', tables := mem'\<rparr>"
  note add = add_table [OF ok pre t unused e(3,2) f(2) can f(3), folded mem'_def]
  have links: "links_ok X (internal_offset self) (lvl4 self) mem'"
    unfolding mem'_def using inv
    by (intro links_add_table [OF ok pre t unused e(3,2) f(2) _ e(4)]) (simp add: paging_inv_def)
  have al': "map_err_prog (\<lambda>_. TableAllocationFailed) (alloc_frame alloc) s = (Ok f, s\<lparr>frames := a'\<rparr>)"
    using al by (simp add: map_err_prog_def alloc_frame_def zoom_def)
  have aligned: "(f + internal_offset self) mod PAGE_SIZE = 0"
    using f(1) off by (auto simp: frame_address_def PAGE_SIZE_def mod_add_eq [symmetric])
  have run: "create_levels X alloc self to (l # ls) cur s =
      create_levels X alloc self to ls (f + internal_offset self) s'"
    using i t unused e(1) aligned
    by (simp add: get_page_index_eq read_entry_eq al' write_entry_eq
        phys_as_virt can e(2) new_page_table_level_def try_prog_Ok s'_def mem'_def)
  show ?thesis
  proof (rule that [OF run])
    show "invariant self s'"
      using f off add(1) links by (simp add: paging_inv_def s'_def)
    show "mapped X self (tables s') = mapped X self (tables s)"
      using add(4) node_table_path by (simp add: fun_eq_iff mapped_def s'_def)
  qed (use add(2,3) in \<open>simp_all add: s'_def\<close>)
qed

lemma create_level_Err:
  assumes inv: "invariant self s" and i: "i = page_index l to" "1 \<le> l" "l \<le> 4"
    and pre: "node_path (pre @ [i])" "table_for self s pre = Some cur"
    and none: "table_for self s (pre @ [i]) = None"
    and al: "alloc (frames s) = (Err x, a')"
  shows "create_levels X alloc self to (l # ls) cur s = (Err TableAllocationFailed, s\<lparr>frames := a'\<rparr>)"
    and "invariant self (s\<lparr>frames := a'\<rparr>)"
proof -
  have good: "good (frames s)"
    using inv by (auto simp: paging_inv_def)
  obtain t where t: "tables s cur = Some t" and "entry_is_unused X (t i)"
    by (rule missing_slot [OF inv pre none])
  moreover have "map_err_prog (\<lambda>_. TableAllocationFailed) (alloc_frame alloc) s =
      (Err TableAllocationFailed, s\<lparr>frames := a'\<rparr>)"
    using al by (simp add: map_err_prog_def alloc_frame_def zoom_def)
  ultimately show "create_levels X alloc self to (l # ls) cur s =
      (Err TableAllocationFailed, s\<lparr>frames := a'\<rparr>)"
    using i t by (simp add: get_page_index_eq read_entry_eq try_prog_Err)
  show "invariant self (s\<lparr>frames := a'\<rparr>)"
    using inv alloc_Err [OF good al] tree_ok_mono by (fastforce simp: paging_inv_def)
qed

lemma create_level_Panic:
  assumes inv: "invariant self s" and i: "i = page_index l to" "1 \<le> l" "l \<le> 4"
    and pre: "node_path (pre @ [i])" "table_for self s pre = Some cur"
    and none: "table_for self s (pre @ [i]) = None"
    and al: "alloc (frames s) = (x, a')"
    and bad: "(\<exists>p. x = Panic p) \<or> (\<exists>f. x = Ok f \<and> \<not> canonical (f + internal_offset self))"
  shows "\<exists>p s'. create_levels X alloc self to (l # ls) cur s = (Panic p, s')"
proof -
  have good: "good (frames s)"
    using inv by (auto simp: paging_inv_def)
  obtain t where t: "tables s cur = Some t" and unused: "entry_is_unused X (t i)"
    by (rule missing_slot [OF inv pre none])
  have al': "map_err_prog (\<lambda>_. TableAllocationFailed) (alloc_frame alloc) s =
      (map_err (\<lambda>_. TableAllocationFailed) x, s\<lparr>frames := a'\<rparr>)"
    using al by (simp add: map_err_prog_def alloc_frame_def zoom_def)
  from bad show ?thesis
  proof (elim disjE exE conjE)
    fix p assume "x = Panic p"
    then show ?thesis
      using i t unused al' by (simp add: get_page_index_eq read_entry_eq try_prog_Panic)
  next
    fix f assume f: "x = Ok f" "\<not> canonical (f + internal_offset self)"
    then have "frame_address f"
      using alloc_Ok [OF good] al by auto
    then obtain e where e: "entry_set_addr X (t i) f (flags_rwx X) = Some e" "entry_addr X e = f"
      using set_addr_used [OF _ flags_rwx_present] by metis
    have stop: "\<exists>p. (phys_page_table_as_virt X self f :: (PagingError, u64) outcome) = Panic p"
      using f(2) by (auto simp: phys_page_table_as_virt_def add64_def VirtAddr_new)
    then show ?thesis
      using i t unused al' f(1) e
      by (auto simp: get_page_index_eq read_entry_eq write_entry_eq try_prog_Ok)
  qed
qed

text \<open>The part of the walk to a page that the tables of level \<open>level\<close> and above cover.\<close>

lemma path_step:
  assumes "1 \<le> level" "level \<le> 3"
  shows "take (4 - level) (table_path to) =
    take (4 - Suc level) (table_path to) @ [page_index (Suc level) to]"
proof -
  consider "level = 1" | "level = 2" | "level = 3"
    using assms by linarith
  then show ?thesis
    by cases (simp_all add: table_path_def eval_nat_numeral)
qed

lemma levels_step: "1 \<le> level \<Longrightarrow> rev [2..<Suc level + 1] = Suc level # rev [2..<level + 1]"
  by simp

definition lowest where
  "lowest self s to level cur \<longleftrightarrow> 1 \<le> level \<and> level \<le> 4 \<and> page_index 4 to \<noteq> 510 \<and>
     table_for self s (take (4 - level) (table_path to)) = Some cur \<and>
     (2 \<le> level \<longrightarrow> table_for self s (take (5 - level) (table_path to)) = None)"

lemma lowest_step:
  assumes low: "lowest self s to (Suc level) cur" and level: "1 \<le> level"
  defines "i \<equiv> page_index (Suc level) to" and "pre \<equiv> take (4 - Suc level) (table_path to)"
  shows "node_path (pre @ [i])" "table_for self s pre = Some cur" "table_for self s (pre @ [i]) = None"
    and "table_for self s' (pre @ [i]) = Some q \<Longrightarrow>
      (\<And>js. node_path js \<Longrightarrow> js \<noteq> pre @ [i] \<Longrightarrow> table_for self s' js = table_for self s js) \<Longrightarrow>
      lowest self s' to level q"
proof -
  have level3: "level \<le> 3" and to: "page_index 4 to \<noteq> 510"
    using low by (auto simp: lowest_def)
  have path: "take (4 - level) (table_path to) = pre @ [i]"
    using path_step [OF level level3] by (simp add: pre_def i_def)
  show np: "node_path (pre @ [i])"
    using node_path_take [OF to, of "4 - level"] by (simp add: path)
  show "table_for self s pre = Some cur" and none: "table_for self s (pre @ [i]) = None"
    using low level path by (auto simp: lowest_def pre_def)
  assume new: "table_for self s' (pre @ [i]) = Some q"
    and old: "\<And>js. node_path js \<Longrightarrow> js \<noteq> pre @ [i] \<Longrightarrow> table_for self s' js = table_for self s js"
  have "table_for self s' (take (5 - level) (table_path to)) = None" if "2 \<le> level"
  proof -
    have "table_for self s (take (5 - level) (table_path to)) = None"
      by (rule table_at_take_None [where m = "4 - level"]) (use none path in auto)
    moreover have "take (5 - level) (table_path to) \<noteq> pre @ [i]"
      unfolding path [symmetric] using that level3 by (auto dest: arg_cong [where f = length])
    ultimately show ?thesis
      using old node_path_take [OF to] by simp
  qed
  then show "lowest self s' to level q"
    using new level level3 to path by (simp add: lowest_def)
qed

lemma create_levels_result:
  assumes "lowest self s to level cur" "invariant self s"
    and "create_levels X alloc self to (rev [2..<level + 1]) cur s = (r, s')" "\<nexists>p. r = Panic p"
  shows "invariant self s' \<and> mapped X self (tables s') = mapped X self (tables s) \<and>
    (r = Err TableAllocationFailed \<or> (\<exists>q. r = Ok q \<and> lowest self s' to 1 q))"
  using assms
proof (induction level arbitrary: cur s)
  case (Suc level)
  show ?case
  proof (cases "level = 0")
    case True
    then show ?thesis
      using Suc.prems by auto
  next
    case False
    then have level: "1 \<le> level" "1 \<le> Suc level" "Suc level \<le> 4"
      using Suc.prems(1) by (auto simp: lowest_def)
    note low = lowest_step [OF Suc.prems(1) level(1)]
    obtain x a' where al: "alloc (frames s) = (x, a')"
      by (cases "alloc (frames s)")
    have run: "create_levels X alloc self to (Suc level # rev [2..<level + 1]) cur s = (r, s')"
      using Suc.prems(3) levels_step [OF level(1)] by simp
    have panic: False if "(\<exists>p. x = Panic p) \<or> (\<exists>f. x = Ok f \<and> \<not> canonical (f + internal_offset self))"
      using create_level_Panic [OF Suc.prems(2) refl level(2,3) low(1-3) al that] run Suc.prems(4)
      by (metis prod.inject)
    show ?thesis
    proof (cases x)
      case (Ok f)
      then have can: "canonical (f + internal_offset self)"
        using panic by blast
      obtain s1 where s1: "create_levels X alloc self to (Suc level # rev [2..<level + 1]) cur s =
          create_levels X alloc self to (rev [2..<level + 1]) (f + internal_offset self) s1"
        "invariant self s1" "mapped X self (tables s1) = mapped X self (tables s)"
        "lowest self s1 to level (f + internal_offset self)"
        using create_level [OF Suc.prems(2) refl level(2,3) low(1-3) al [unfolded Ok] can] low(4)
        by metis
      show ?thesis
        using Suc.IH [OF s1(4,2)] Suc.prems(4) run s1(1,3) by simp
    next
      case (Err e)
      then show ?thesis
        using create_level_Err [OF Suc.prems(2) refl level(2,3) low(1-3) al [unfolded Err]] run by auto
    next
      case (Panic p)
      then show ?thesis
        using panic by blast
    qed
  qed
qed (simp add: lowest_def)

lemma lowest_exists:
  assumes "page_index 4 to \<noteq> 510"
  obtains level cur where "lowest self s to level cur"
proof -
  define P where "P l \<longleftrightarrow> 1 \<le> l \<and> table_for self s (take (4 - l) (table_path to)) \<noteq> None" for l
  have "P 4"
    by (simp add: P_def)
  define level where "level = (LEAST l. P l)"
  have P: "P level" and le: "level \<le> 4"
    unfolding level_def using \<open>P 4\<close> by (auto intro: LeastI Least_le)
  have "\<not> P (level - 1)"
    using P not_less_Least [of "level - 1" P] by (auto simp: level_def P_def)
  moreover have "4 - (level - 1) = 5 - level"
    using P le by (auto simp: P_def)
  ultimately have "2 \<le> level \<Longrightarrow> table_for self s (take (5 - level) (table_path to)) = None"
    by (auto simp: P_def)
  then show ?thesis
    using that [of level] P le assms by (auto simp: P_def lowest_def)
qed

lemma mapped_lowest:
  "lowest self s to level cur \<Longrightarrow> 2 \<le> level \<Longrightarrow> mapped X self (tables s) to = None"
  using table_at_take_None [of X "internal_offset self" "tables s" "lvl4 self" "5 - level" "table_path to" 3]
  by (simp add: lowest_def mapped_None_iff)

lemma lowest_1D:
  assumes "lowest self s to 1 cur" "invariant self s"
  obtains t where "tables s cur = Some t" "table_for self s (table_path to) = Some cur"
    "entry_is_unused X (t (page_index 1 to)) \<longleftrightarrow> mapped X self (tables s) to = None"
proof -
  have cur: "table_for self s (table_path to) = Some cur" and to: "page_index 4 to \<noteq> 510"
    using assms(1) by (auto simp: lowest_def)
  obtain t where "tables s cur = Some t"
    using assms(2) tree_okD(1) [OF _ node_table_path [OF to] cur] by (auto simp: paging_inv_def)
  then show ?thesis
    using that cur to by (auto simp: mapped_None_iff)
qed

abbreviation set_leaf where
  "set_leaf self from to flags current_table \<equiv>
     try_prog (reads (\<lambda>_. get_page_index 1 to)) (\<lambda>i.
     try_prog (reads (\<lambda>s. read_entry (tables s) current_table i)) (\<lambda>entry.
     if \<not> entry_is_unused X entry then throw (AlreadyMapped to) else
     try_prog (reads (\<lambda>_. of_lib (entry_set_addr X entry from flags))) (\<lambda>entry'.
     write_entry current_table i entry')))"

text \<open>Which table \<open>map\<close> starts from does not depend on the allocator it is given.\<close>

lemma map_at_levels_lowest:
  assumes low: "lowest self s to level cur" and inv: "invariant self s" and l: "1 \<le> l" "l \<le> level"
  shows "map_at_levels X alc self from to flags [l..<5] s =
    try_prog (create_levels X alc self to (rev [2..<level + 1]) cur) (set_leaf self from to flags) s"
proof -
  have ok: "tree_ok X (internal_offset self) (lvl4 self) (taken (frames s)) (tables s)"
    using inv by (simp add: paging_inv_def)
  show ?thesis
    using l
  proof (induction "level - l" arbitrary: l)
    case (0 l)
    then have l: "l = level" "level < 5" "1 \<le> level" "level \<le> 4" and to: "page_index 4 to \<noteq> 510"
      and cur: "table_for self s (take (4 - level) (table_path to)) = Some cur"
      using low by (auto simp: lowest_def)
    show ?case
      unfolding l(1) upt_conv_Cons [OF l(2)] map_at_levels.simps try_prog_reads
        get_page_table_eq [OF ok to l(3,4)] cur outcome.case option.case ..
  next
    case (Suc n l)
    then have l: "l < 5" "1 \<le> l" "l \<le> 4" "l < level" and to: "page_index 4 to \<noteq> 510"
      using low by (auto simp: lowest_def)
    have "table_for self s (take (4 - l) (table_path to)) = None"
      by (rule table_at_take_None [where m = "5 - level"]) (use low l in \<open>auto simp: lowest_def\<close>)
    then have skip: "map_at_levels X alc self from to flags (l # ls) s =
        map_at_levels X alc self from to flags ls s" for ls
      by (simp add: get_page_table_eq [OF ok to l(2,3)])
    show ?case
      unfolding upt_conv_Cons [OF l(1)] skip by (rule Suc.hyps(1)) (use Suc.hyps(2) l in auto)
  qed
qed

lemma map_eq_with:
  assumes low: "lowest self s to level cur" and inv: "invariant self s"
  shows "RecursivePageTable_map X alc self from to flags s =
    try_prog (create_levels X alc self to (rev [2..<level + 1]) cur) (set_leaf self from to flags) s"
proof -
  have "1 \<le> level" "page_index 4 to \<noteq> 510"
    using low by (auto simp: lowest_def)
  then show ?thesis
    using map_at_levels_lowest [OF low inv, of 1 alc "from" flags] by (simp add: RecursivePageTable_map_def)
qed

lemmas map_eq = map_eq_with [where alc = alloc]

text \<open>A \<open>map\<close> of a page whose level-1 table is missing asks for a frame first; without a frame it can use it stops
  there, with the tables as they were.\<close>

lemma map_missing_table:
  assumes inv: "invariant self s" and to: "page_index 4 to \<noteq> 510" and none: "table_for self s (table_path to) = None"
  shows "alc (frames s) = (Err e, a') \<Longrightarrow>
      RecursivePageTable_map X alc self from to flags s = (Err TableAllocationFailed, s\<lparr>frames := a'\<rparr>)"
    and "alc (frames s) = (Panic p, a') \<Longrightarrow> RecursivePageTable_map X alc self from to flags s = (Panic p, s\<lparr>frames := a'\<rparr>)"
    and "alc (frames s) = (Ok f, a') \<Longrightarrow> f mod 4096 \<noteq> 0 \<Longrightarrow>
      RecursivePageTable_map X alc self from to flags s = (Panic LibraryPanic, s\<lparr>frames := a'\<rparr>)"
proof -
  obtain level cur where low: "lowest self s to level cur"
    by (rule lowest_exists [OF to])
  have "level \<noteq> 1"
    using low none by (auto simp: lowest_def)
  then obtain l where l: "level = Suc l" "1 \<le> l"
    using low by (cases level) (auto simp: lowest_def)
  have l4: "Suc l \<le> 4"
    using low l(1) by (simp add: lowest_def)
  obtain t where t: "tables s cur = Some t" "entry_is_unused X (t (page_index (Suc l) to))"
    using missing_slot [OF inv lowest_step(1-3) [OF low [unfolded l(1)] l(2)]] by blast
  have run: "RecursivePageTable_map X alc self from to flags s =
      try_prog (create_levels X alc self to (Suc l # rev [2..<l + 1]) cur) (set_leaf self from to flags) s"
    unfolding map_eq_with [OF low inv] l(1) levels_step [OF l(2)] ..
  have frame: "map_err_prog (\<lambda>_. TableAllocationFailed) (alloc_frame alc) s =
      (map_err (\<lambda>_. TableAllocationFailed) r, s\<lparr>frames := a'\<rparr>)" if "alc (frames s) = (r, a')" for r
    using that by (simp add: map_err_prog_def alloc_frame_def zoom_def)
  note steps = run get_page_index_eq read_entry_eq [where mem = "tables s", OF t(1)] try_prog_Err try_prog_Panic try_prog_Ok
  show "RecursivePageTable_map X alc self from to flags s = (Err TableAllocationFailed, s\<lparr>frames := a'\<rparr>)"
    if "alc (frames s) = (Err e, a')"
    using frame [OF that] t(2) l4 by (simp add: steps)
  show "RecursivePageTable_map X alc self from to flags s = (Panic p, s\<lparr>frames := a'\<rparr>)"
    if "alc (frames s) = (Panic p, a')"
    using frame [OF that] t(2) l4 by (simp add: steps)
  show "RecursivePageTable_map X alc self from to flags s = (Panic LibraryPanic, s\<lparr>frames := a'\<rparr>)"
    if "alc (frames s) = (Ok f, a')" "f mod 4096 \<noteq> 0"
    using frame [OF that(1)] t(2) l4 set_addr_unaligned [OF that(2)] by (simp add: steps)
qed

lemma set_leaf_eq:
  assumes low: "lowest self s to 1 cur" and inv: "invariant self s"
    and "from": "frame_address from" and flags: "flags_contains X flags (PRESENT X)"
  shows "mapped X self (tables s) to \<noteq> None \<Longrightarrow>
      set_leaf self from to flags cur s = (Err (AlreadyMapped to), s)"
    and "mapped X self (tables s) to = None \<Longrightarrow>
      \<exists>s'. set_leaf self from to flags cur s = (Ok (), s') \<and> invariant self s' \<and> frames s' = frames s \<and>
        mapped X self (tables s') =
          (\<lambda>a. if page_key a = page_key to then Some (from, flags) else mapped X self (tables s) a)"
proof -
  obtain t where t: "tables s cur = Some t" "table_for self s (table_path to) = Some cur"
    and slot: "entry_is_unused X (t (page_index 1 to)) \<longleftrightarrow> mapped X self (tables s) to = None"
    by (rule lowest_1D [OF low inv])
  have to: "page_index 4 to \<noteq> 510"
    using low by (simp add: lowest_def)
  show "set_leaf self from to flags cur s = (Err (AlreadyMapped to), s)"
    if "mapped X self (tables s) to \<noteq> None"
    using that slot t by (simp add: read_entry_eq)
  assume free: "mapped X self (tables s) to = None"
  obtain e where e: "entry_set_addr X (t (page_index 1 to)) from flags = Some e"
    "entry_addr X e = from" "entry_flags X e = flags" "\<not> entry_is_unused X e"
    by (rule set_addr_used [OF "from" flags])
  note wr = mapped_write [OF inv to t(2,1), of e, unfolded e(2,3)]
  show "\<exists>s'. set_leaf self from to flags cur s = (Ok (), s') \<and> invariant self s' \<and> frames s' = frames s \<and>
        mapped X self (tables s') =
          (\<lambda>a. if page_key a = page_key to then Some (from, flags) else mapped X self (tables s) a)"
    using wr free slot t e by (simp add: read_entry_eq write_entry_eq)
qed

lemma map_result:
  assumes inv: "invariant self s" and to: "page_index 4 to \<noteq> 510"
    and "from": "frame_address from" and flags: "flags_contains X flags (PRESENT X)"
    and run: "RecursivePageTable_map X alloc self from to flags s = (r, s')" "\<nexists>p. r = Panic p"
  shows "invariant self s'"
    and "mapped X self (tables s) to \<noteq> None \<Longrightarrow> r = Err (AlreadyMapped to) \<and> s' = s"
    and "mapped X self (tables s) to = None \<Longrightarrow>
      (r = Ok () \<and> mapped X self (tables s') =
        (\<lambda>a. if page_key a = page_key to then Some (from, flags) else mapped X self (tables s) a)) \<or>
      (r = Err TableAllocationFailed \<and> mapped X self (tables s') = mapped X self (tables s))"
proof -
  obtain level cur where low: "lowest self s to level cur"
    by (rule lowest_exists [OF to])
  obtain x s1 where cr: "create_levels X alloc self to (rev [2..<level + 1]) cur s = (x, s1)"
    by (cases "create_levels X alloc self to (rev [2..<level + 1]) cur s")
  have all: "(x = Err TableAllocationFailed \<and> r = Err TableAllocationFailed \<and> s1 = s') \<or>
      (\<exists>q. x = Ok q \<and> lowest self s1 to 1 q \<and> set_leaf self from to flags q s1 = (r, s'))"
    and s1: "invariant self s1" "mapped X self (tables s1) = mapped X self (tables s)"
    using create_levels_result [OF low inv cr] run cr unfolding map_eq [OF low inv]
    by (auto simp: try_prog_def split: outcome.splits)
  have same: "x = Ok cur \<and> s1 = s" if "mapped X self (tables s) to \<noteq> None"
  proof -
    have "level = 1"
      using low mapped_lowest [OF low] that by (force simp: lowest_def)
    then show ?thesis
      using cr by simp
  qed
  show "invariant self s'"
    using all s1 set_leaf_eq [OF _ s1(1) "from" flags] by fastforce
  show "r = Err (AlreadyMapped to) \<and> s' = s" if "mapped X self (tables s) to \<noteq> None"
    using all same that s1 set_leaf_eq(1) [OF _ s1(1) "from" flags] by fastforce
  show "(r = Ok () \<and> mapped X self (tables s') =
        (\<lambda>a. if page_key a = page_key to then Some (from, flags) else mapped X self (tables s) a)) \<or>
      (r = Err TableAllocationFailed \<and> mapped X self (tables s') = mapped X self (tables s))"
    if "mapped X self (tables s) to = None"
    using all that s1 set_leaf_eq(2) [OF _ s1(1) "from" flags] by fastforce
qed

lemma map_already:
  assumes inv: "invariant self s" and m: "mapped X self (tables s) to \<noteq> None"
    and "from": "frame_address from" and flags: "flags_contains X flags (PRESENT X)"
  shows "RecursivePageTable_map X alloc self from to flags s = (Err (AlreadyMapped to), s)"
proof -
  have "page_index 4 to \<noteq> 510"
    using m by (auto simp: mapped_def split: if_splits)
  then obtain level cur where low: "lowest self s to level cur"
    by (rule lowest_exists)
  then have "level = 1"
    using mapped_lowest [OF low] m by (force simp: lowest_def)
  then show ?thesis
    using map_eq [OF low inv] set_leaf_eq(1) [OF _ inv "from" flags m, of cur] low by simp
qed

section \<open>Looking up, unmapping and changing flags\<close>

lemma level_1_entry:
  assumes inv: "invariant self s" and a: "page_index 4 a \<noteq> 510"
    and p: "table_for self s (table_path a) = Some p"
  obtains t where "tables s p = Some t" "read_entry (tables s) p (page_index 1 a) = Ok (t (page_index 1 a))"
    "mapped X self (tables s) a = (if entry_is_unused X (t (page_index 1 a)) then None
      else Some (entry_addr X (t (page_index 1 a)), entry_flags X (t (page_index 1 a))))"
proof -
  obtain t where "tables s p = Some t"
    using inv tree_okD(1) [OF _ node_table_path [OF a] p] by (auto simp: paging_inv_def)
  then show ?thesis
    using that a p by (simp add: mapped_def leaf_entry_def read_entry_eq)
qed

lemma mapped_no_table:
  "table_for self s (table_path a) = None \<Longrightarrow> mapped X self (tables s) a = None"
  by (simp add: mapped_def leaf_entry_def)

lemma translate_eq:
  assumes inv: "invariant self s" and a: "page_index 4 a \<noteq> 510"
  shows "RecursivePageTable_translate X self (tables s) a =
    (case mapped X self (tables s) a of
       None \<Rightarrow> Ok None
     | Some (p, _) \<Rightarrow> try_outcome (of_lib (PhysAddr_add X p (a mod 4096))) (\<lambda>q. Ok (Some q)))"
proof -
  have ok: "tree_ok X (internal_offset self) (lvl4 self) (taken (frames s)) (tables s)"
    using inv by (simp add: paging_inv_def)
  show ?thesis
  proof (cases "table_for self s (table_path a)")
    case None
    then show ?thesis
      by (simp add: RecursivePageTable_translate_def get_level_1 [OF ok a] mapped_no_table)
  next
    case (Some p)
    then obtain t where t: "tables s p = Some t" and
      m: "mapped X self (tables s) a = (if entry_is_unused X (t (page_index 1 a)) then None
        else Some (entry_addr X (t (page_index 1 a)), entry_flags X (t (page_index 1 a))))"
      using level_1_entry [OF inv a Some] by metis
    show ?thesis
      unfolding m using Some t
      by (simp add: RecursivePageTable_translate_def get_level_1 [OF ok a] read_entry_eq)
  qed
qed

lemma translate_mapped:
  assumes "invariant self s" "page_index 4 a \<noteq> 510" "mapped X self (tables s) a = Some (p, fl)"
    "frame_address p"
  shows "RecursivePageTable_translate X self (tables s) a = Ok (Some (p + a mod 4096))"
proof -
  have "p + a mod 4096 < 2 ^ 52"
  proof -
    obtain q where q: "p = 4096 * q"
      using assms(4) by (auto simp: frame_address_def mod_eq_0_iff_dvd elim: dvdE)
    then have "q + 1 \<le> 2 ^ 40"
      using assms(4) by (auto simp: frame_address_def)
    moreover have "a mod 4096 < 4096"
      by simp
    ultimately show ?thesis
      unfolding q by simp
  qed
  then show ?thesis
    using translate_eq [OF assms(1,2)] assms(3) by (simp add: PhysAddr_add translate_eq [OF assms(1,2)])
qed

lemma unmap_eq:
  assumes inv: "invariant self s" and a: "page_index 4 a \<noteq> 510"
  shows "mapped X self (tables s) a = None \<Longrightarrow>
      RecursivePageTable_unmap X self a s = (Err (NotMapped a), s)"
    and "mapped X self (tables s) a \<noteq> None \<Longrightarrow>
      \<exists>s'. RecursivePageTable_unmap X self a s = (Ok (), s') \<and> invariant self s' \<and> frames s' = frames s \<and>
        mapped X self (tables s') =
          (\<lambda>b. if page_key b = page_key a then None else mapped X self (tables s) b)"
proof -
  have ok: "tree_ok X (internal_offset self) (lvl4 self) (taken (frames s)) (tables s)"
    using inv by (simp add: paging_inv_def)
  show "RecursivePageTable_unmap X self a s = (Err (NotMapped a), s)"
    if free: "mapped X self (tables s) a = None"
  proof (cases "table_for self s (table_path a)")
    case None
    then show ?thesis
      by (simp add: RecursivePageTable_unmap_def get_level_1 [OF ok a])
  next
    case (Some p)
    then obtain t where "tables s p = Some t" "entry_is_unused X (t (page_index 1 a))"
      using level_1_entry [OF inv a Some] free by (metis option.distinct(1))
    then show ?thesis
      using Some by (simp add: RecursivePageTable_unmap_def get_level_1 [OF ok a] read_entry_eq)
  qed
  assume m: "mapped X self (tables s) a \<noteq> None"
  then obtain p where p: "table_for self s (table_path a) = Some p"
    using mapped_no_table [of self s a] by (cases "table_for self s (table_path a)") auto
  obtain t where t: "tables s p = Some t" "\<not> entry_is_unused X (t (page_index 1 a))"
    using level_1_entry [OF inv a p] m by metis
  note wr = mapped_write [OF inv a p t(1), of "entry_set_unused X (t (page_index 1 a))",
      simplified unused_set_unused simp_thms if_True]
  show "\<exists>s'. RecursivePageTable_unmap X self a s = (Ok (), s') \<and> invariant self s' \<and> frames s' = frames s \<and>
        mapped X self (tables s') =
          (\<lambda>b. if page_key b = page_key a then None else mapped X self (tables s) b)"
    using wr p t
    by (simp add: RecursivePageTable_unmap_def get_level_1 [OF ok a] read_entry_eq write_entry_eq)
qed

lemma update_flags_eq:
  assumes inv: "invariant self s" and a: "page_index 4 a \<noteq> 510"
    and flags: "flags_contains X flags (PRESENT X)"
  shows "mapped X self (tables s) a = None \<Longrightarrow>
      RecursivePageTable_update_flags X self a flags s =
        ((if table_for self s (table_path a) = None then Ok () else Err (NotMapped a)), s)"
    and "mapped X self (tables s) a = Some (p, fl) \<Longrightarrow>
      \<exists>s'. RecursivePageTable_update_flags X self a flags s = (Ok (), s') \<and> invariant self s' \<and>
        frames s' = frames s \<and> mapped X self (tables s') =
          (\<lambda>b. if page_key b = page_key a then Some (p, flags) else mapped X self (tables s) b)"
proof -
  have ok: "tree_ok X (internal_offset self) (lvl4 self) (taken (frames s)) (tables s)"
    using inv by (simp add: paging_inv_def)
  show "RecursivePageTable_update_flags X self a flags s =
        ((if table_for self s (table_path a) = None then Ok () else Err (NotMapped a)), s)"
    if free: "mapped X self (tables s) a = None"
  proof (cases "table_for self s (table_path a)")
    case None
    then show ?thesis
      by (simp add: RecursivePageTable_update_flags_def get_level_1 [OF ok a])
  next
    case (Some p)
    then obtain t where "tables s p = Some t" "entry_is_unused X (t (page_index 1 a))"
      using level_1_entry [OF inv a Some] free by (metis option.distinct(1))
    then show ?thesis
      using Some by (simp add: RecursivePageTable_update_flags_def get_level_1 [OF ok a] read_entry_eq)
  qed
  assume m: "mapped X self (tables s) a = Some (p, fl)"
  then obtain q where q: "table_for self s (table_path a) = Some q"
    using mapped_no_table [of self s a] by (cases "table_for self s (table_path a)") auto
  obtain t where t: "tables s q = Some t" "\<not> entry_is_unused X (t (page_index 1 a))"
    "entry_addr X (t (page_index 1 a)) = p"
    using level_1_entry [OF inv a q] m by (metis option.distinct(1) option.inject prod.inject)
  note wr = mapped_write [OF inv a q t(1), of "entry_set_flags X (t (page_index 1 a)) flags",
      unfolded set_flags_addr set_flags_flags t(3)]
  show "\<exists>s'. RecursivePageTable_update_flags X self a flags s = (Ok (), s') \<and> invariant self s' \<and>
        frames s' = frames s \<and> mapped X self (tables s') =
          (\<lambda>b. if page_key b = page_key a then Some (p, flags) else mapped X self (tables s) b)"
    using wr q t set_flags_used [OF flags]
    by (simp add: RecursivePageTable_update_flags_def get_level_1 [OF ok a] read_entry_eq write_entry_eq)
qed

end

end
