(* ===== verification/Page_Ranges.thy ===== *)
theory Page_Ranges
  imports Page_Table_Correct
begin

unbundle bit_operations_syntax

text \<open>
  Ranges of pages (\<open>map_contiguous\<close>, \<open>unmap_contiguous\<close>), the creation of an empty page table, and
  the total correctness of \<open>map\<close> when the frame allocator can still serve the request: locale
  \<open>paging_supply\<close>, where \<open>room off n a\<close> says that the allocator in state \<open>a\<close> can hand out \<open>n\<close> more
  frames that are addressable at offset \<open>off\<close>.
\<close>

lemma page_offsets_eq:
  assumes "n * 4096 < 2 ^ 64"
  shows "page_offsets n = Ok (map (\<lambda>k. k * 4096) [0..<n])"
  using assms by (simp add: page_offsets_def mul64_def div_ceil_def)

lemma page_key_shift_neq:
  assumes "canonical (a + j * 4096)" "canonical (a + k * 4096)" "j \<noteq> k"
  shows "page_key (a + j * 4096) \<noteq> page_key (a + k * 4096)"
  using page_key_inj [OF assms(1,2)] assms(3) by auto

text \<open>The effect of mapping or unmapping the first \<open>n\<close> pages of a range on an address space.\<close>

definition range_mapped ::
    "nat \<Rightarrow> PhysAddr \<Rightarrow> VirtAddr \<Rightarrow> 'fl \<Rightarrow> (VirtAddr \<Rightarrow> (PhysAddr \<times> 'fl) option) \<Rightarrow>
       (VirtAddr \<Rightarrow> (PhysAddr \<times> 'fl) option) \<Rightarrow> bool" where
  "range_mapped n from to flags m m' \<longleftrightarrow>
     (\<forall>k < n. m (to + k * 4096) = None \<and> m' (to + k * 4096) = Some (from + k * 4096, flags)) \<and>
     (\<forall>a. (\<forall>k < n. page_key a \<noteq> page_key (to + k * 4096)) \<longrightarrow> m' a = m a)"

definition range_unmapped ::
    "nat \<Rightarrow> VirtAddr \<Rightarrow> (VirtAddr \<Rightarrow> (PhysAddr \<times> 'fl) option) \<Rightarrow>
       (VirtAddr \<Rightarrow> (PhysAddr \<times> 'fl) option) \<Rightarrow> bool" where
  "range_unmapped n to m m' \<longleftrightarrow>
     (\<forall>a. m' a = (if \<exists>k < n. page_key a = page_key (to + k * 4096) then None else m a))"

lemma range_mapped_Suc:
  assumes m1: "range_mapped n from to flags m m1"
    and keys: "\<And>k. k < n \<Longrightarrow> page_key (to + k * 4096) \<noteq> page_key (to + n * 4096)"
    and free: "m1 (to + n * 4096) = None"
    and m': "m' = (\<lambda>a. if page_key a = page_key (to + n * 4096) then Some (from + n * 4096, flags) else m1 a)"
  shows "range_mapped (Suc n) from to flags m m'"
  unfolding range_mapped_def
proof (intro conjI allI impI)
  fix k assume k: "k < Suc n"
  have other: "m1 a = m a" if "\<And>k. k < n \<Longrightarrow> page_key a \<noteq> page_key (to + k * 4096)" for a
    using m1 that by (simp add: range_mapped_def)
  have last: "m (to + n * 4096) = None"
    using free other [of "to + n * 4096"] keys by fastforce
  show "m (to + k * 4096) = None" "m' (to + k * 4096) = Some (from + k * 4096, flags)"
    using k m1 keys [of k] last by (auto simp: less_Suc_eq range_mapped_def m')
next
  fix a assume "\<forall>k < Suc n. page_key a \<noteq> page_key (to + k * 4096)"
  then show "m' a = m a"
    using m1 by (simp add: range_mapped_def m')
qed

text \<open>Addresses of one page are mapped alike.\<close>

lemma mapped_page_key:
  "page_key a = page_key b \<Longrightarrow> mapped X self mem a = mapped X self mem b"
  by (auto simp: mapped_def page_key_def table_path_def)

context paging
begin

lemma map_reserved:
  "page_index 4 to = 510 \<Longrightarrow>
     RecursivePageTable_map X alloc self from to flags s = (Err (AttemptedMappingToReserved to), s)"
  by (simp add: RecursivePageTable_map_def)

lemma map_OkD:
  assumes "invariant self s" "frame_address from" "flags_contains X flags (PRESENT X)"
    and run: "RecursivePageTable_map X alloc self from to flags s = (Ok (), s')"
  shows "page_index 4 to \<noteq> 510" "invariant self s'" "mapped X self (tables s) to = None"
    "mapped X self (tables s') =
      (\<lambda>a. if page_key a = page_key to then Some (from, flags) else mapped X self (tables s) a)"
proof -
  show to: "page_index 4 to \<noteq> 510"
    using run map_reserved [of to] by auto
  note res = map_result [OF assms(1) to assms(2-4)]
  show "invariant self s'" and "mapped X self (tables s) to = None"
    using res by blast+
  then show "mapped X self (tables s') =
      (\<lambda>a. if page_key a = page_key to then Some (from, flags) else mapped X self (tables s) a)"
    using res by auto
qed

text \<open>The crate refuses an entry for an address that is not page aligned.\<close>

lemma map_Ok_frame:
  assumes inv: "invariant self s" and "from": "from < 2 ^ 52"
    and run: "RecursivePageTable_map X alloc self from to flags s = (Ok (), s')"
  shows "frame_address from"
proof -
  have "page_index 4 to \<noteq> 510"
    using run map_reserved [of to] by auto
  then obtain level cur where low: "lowest self s to level cur"
    by (rule lowest_exists)
  obtain q s1 where "set_leaf self from to flags q s1 = (Ok (), s')"
    using run unfolding map_eq [OF low inv] by (rule try_prog_OkE)
  then obtain e where "entry_set_addr X e from flags \<noteq> None"
    by (auto simp: of_lib_def split: outcome.splits if_splits option.splits)
  then have "from mod 4096 = 0"
    using set_addr_unaligned [of "from" e flags] by (cases "from mod 4096 = 0") simp_all
  then show ?thesis
    using "from" by (simp add: frame_address_def)
qed

lemma frame_address_shift:
  "frame_address p \<Longrightarrow> p + k * 4096 < 2 ^ 52 \<Longrightarrow> frame_address (p + k * 4096)"
  by (simp add: frame_address_def)

lemma map_pages_OkD:
  assumes inv: "invariant self s" and "from": "frame_address from"
    and flags: "flags_contains X flags (PRESENT X)"
    and run: "for_each (map (\<lambda>k. k * 4096) [0..<n]) (\<lambda>page.
       try_prog (reads (\<lambda>_. of_lib (PhysAddr_add X from page))) (\<lambda>p.
       try_prog (reads (\<lambda>_. of_lib (VirtAddr_add X to page))) (\<lambda>v.
       RecursivePageTable_map X alloc self p v flags))) s = (Ok (), s')"
  shows "invariant self s' \<and> (\<forall>k < n. canonical (to + k * 4096) \<and> page_index 4 (to + k * 4096) \<noteq> 510 \<and>
      frame_address (from + k * 4096)) \<and>
    range_mapped n from to flags (mapped X self (tables s)) (mapped X self (tables s'))"
  using run
proof (induction n arbitrary: s')
  case 0
  then show ?case
    using inv by (simp add: range_mapped_def)
next
  case (Suc n)
  from Suc.prems [unfolded for_each_upt_Suc] obtain s1 where
    s1: "for_each (map (\<lambda>k. k * 4096) [0..<n]) (\<lambda>page.
       try_prog (reads (\<lambda>_. of_lib (PhysAddr_add X from page))) (\<lambda>p.
       try_prog (reads (\<lambda>_. of_lib (VirtAddr_add X to page))) (\<lambda>v.
       RecursivePageTable_map X alloc self p v flags))) s = (Ok (), s1)"
    and step: "from + n * 4096 < 2 ^ 52" "canonical (to + n * 4096)"
      "RecursivePageTable_map X alloc self (from + n * 4096) (to + n * 4096) flags s1 = (Ok (), s')"
    by (elim try_unit_OkE try_reads_OkE) (auto simp: PhysAddr_add VirtAddr_add split: if_splits)
  note IH = Suc.IH [OF s1]
  have fr: "frame_address (from + n * 4096)"
    by (rule frame_address_shift [OF "from" step(1)])
  note this_page = map_OkD [OF _ fr flags step(3)]
  have keys: "page_key (to + k * 4096) \<noteq> page_key (to + n * 4096)" if "k < n" for k
    using that IH step(2) by (intro page_key_shift_neq) auto
  have "range_mapped (Suc n) from to flags (mapped X self (tables s)) (mapped X self (tables s'))"
    by (rule range_mapped_Suc [where ?m1.0 = "mapped X self (tables s1)"]) (use IH this_page keys in blast)+
  then show ?case
    using IH this_page step fr by (auto simp: less_Suc_eq)
qed

lemma map_pages_Ok_frame:
  assumes inv: "invariant self s" and "from": "from < 2 ^ 52" and n: "0 < n"
    and run: "for_each (map (\<lambda>k. k * 4096) [0..<n]) (\<lambda>page.
       try_prog (reads (\<lambda>_. of_lib (PhysAddr_add X from page))) (\<lambda>p.
       try_prog (reads (\<lambda>_. of_lib (VirtAddr_add X to page))) (\<lambda>v.
       RecursivePageTable_map X alloc self p v flags))) s = (Ok (), s')"
  shows "frame_address from"
proof -
  have "[0..<n] = 0 # [1..<n]"
    using n by (simp add: upt_conv_Cons)
  then obtain s1 where "RecursivePageTable_map X alloc self from to flags s = (Ok (), s1)"
    using run "from" by (auto simp: try_prog_Ok_iff PhysAddr_add VirtAddr_add split: if_splits)
  then show ?thesis
    by (rule map_Ok_frame [OF inv "from"])
qed

lemma map_contiguous_OkD:
  assumes "invariant self s" "frame_address from" "flags_contains X flags (PRESENT X)"
    and run: "RecursivePageTable_map_contiguous X alloc self n from to flags s = (Ok (), s')"
  shows "invariant self s' \<and> (\<forall>k < n. canonical (to + k * 4096) \<and> page_index 4 (to + k * 4096) \<noteq> 510 \<and>
      frame_address (from + k * 4096)) \<and>
    range_mapped n from to flags (mapped X self (tables s)) (mapped X self (tables s'))"
    and "n * 4096 < 2 ^ 64"
proof -
  show n: "n * 4096 < 2 ^ 64"
    using run by (auto simp: RecursivePageTable_map_contiguous_def page_offsets_def mul64_def split: if_splits)
  show "invariant self s' \<and> (\<forall>k < n. canonical (to + k * 4096) \<and> page_index 4 (to + k * 4096) \<noteq> 510 \<and>
      frame_address (from + k * 4096)) \<and>
    range_mapped n from to flags (mapped X self (tables s)) (mapped X self (tables s'))"
    by (rule map_pages_OkD [OF assms(1-3)])
      (use run in \<open>simp add: RecursivePageTable_map_contiguous_def page_offsets_eq [OF n]\<close>)
qed

lemma unmap_pages_eq:
  assumes inv: "invariant self s"
    and pages: "\<And>k. k < n \<Longrightarrow> canonical (to + k * 4096) \<and> page_index 4 (to + k * 4096) \<noteq> 510 \<and>
      mapped X self (tables s) (to + k * 4096) \<noteq> None"
  shows "\<exists>s'. for_each (map (\<lambda>k. k * 4096) [0..<n]) (\<lambda>page.
       try_prog (reads (\<lambda>_. of_lib (VirtAddr_add X to page))) (\<lambda>v.
       RecursivePageTable_unmap X self v)) s = (Ok (), s') \<and> invariant self s' \<and> frames s' = frames s \<and>
     range_unmapped n to (mapped X self (tables s)) (mapped X self (tables s'))"
  using pages
proof (induction n)
  case 0
  then show ?case
    using inv by (simp add: range_unmapped_def)
next
  case (Suc n)
  from Suc.IH [OF Suc.prems [OF less_SucI]] obtain s1 where
    s1: "for_each (map (\<lambda>k. k * 4096) [0..<n]) (\<lambda>page.
       try_prog (reads (\<lambda>_. of_lib (VirtAddr_add X to page))) (\<lambda>v.
       RecursivePageTable_unmap X self v)) s = (Ok (), s1)" "invariant self s1" "frames s1 = frames s"
    "range_unmapped n to (mapped X self (tables s)) (mapped X self (tables s1))"
    by blast
  have n: "canonical (to + n * 4096)" "page_index 4 (to + n * 4096) \<noteq> 510"
    "mapped X self (tables s) (to + n * 4096) \<noteq> None"
    using Suc.prems [of n] by auto
  have "page_key (to + n * 4096) \<noteq> page_key (to + k * 4096)" if "k < n" for k
    using that Suc.prems [of k] n by (intro page_key_shift_neq) auto
  then have "mapped X self (tables s1) (to + n * 4096) \<noteq> None"
    using s1(4) n(3) unfolding range_unmapped_def by (simp only: if_False ex_simps) auto
  from unmap_eq(2) [OF s1(2) n(2) this] obtain s' where
    s': "RecursivePageTable_unmap X self (to + n * 4096) s1 = (Ok (), s')" "invariant self s'"
    "frames s' = frames s1" "mapped X self (tables s') =
      (\<lambda>b. if page_key b = page_key (to + n * 4096) then None else mapped X self (tables s1) b)"
    by auto
  have "range_unmapped (Suc n) to (mapped X self (tables s)) (mapped X self (tables s'))"
    using s1(4) unfolding range_unmapped_def s'(4) by (auto simp: less_Suc_eq)
  then show ?case
    unfolding for_each_upt_Suc using s1 s' n by (simp add: try_prog_Ok VirtAddr_add)
qed

lemma unmap_contiguous_eq:
  assumes "invariant self s" "n * 4096 < 2 ^ 64"
    and "\<And>k. k < n \<Longrightarrow> canonical (to + k * 4096) \<and> page_index 4 (to + k * 4096) \<noteq> 510 \<and>
      mapped X self (tables s) (to + k * 4096) \<noteq> None"
  shows "\<exists>s'. RecursivePageTable_unmap_contiguous X self n to s = (Ok (), s') \<and> invariant self s' \<and>
     frames s' = frames s \<and> range_unmapped n to (mapped X self (tables s)) (mapped X self (tables s'))"
  using unmap_pages_eq [of self s n to, OF assms(1,3)]
  by (simp add: RecursivePageTable_unmap_contiguous_def page_offsets_eq [OF assms(2)])

lemma map_unmap_contiguous:
  assumes "invariant self s" "frame_address from" "flags_contains X flags (PRESENT X)"
    and run: "RecursivePageTable_map_contiguous X alloc self n from to flags s = (Ok (), s')"
  shows "\<exists>s''. RecursivePageTable_unmap_contiguous X self n to s' = (Ok (), s'') \<and> invariant self s'' \<and>
    mapped X self (tables s'') = mapped X self (tables s)"
proof -
  note m = map_contiguous_OkD [OF assms]
  have rng: "range_mapped n from to flags (mapped X self (tables s)) (mapped X self (tables s'))"
    using m(1) by blast
  obtain s'' where s'': "RecursivePageTable_unmap_contiguous X self n to s' = (Ok (), s'')"
    "invariant self s''" "range_unmapped n to (mapped X self (tables s')) (mapped X self (tables s''))"
    using unmap_contiguous_eq [of self s' n to] m rng by (auto simp: range_mapped_def)
  have "mapped X self (tables s'') a = mapped X self (tables s) a" for a
  proof (cases "\<exists>k < n. page_key a = page_key (to + k * 4096)")
    case True
    then obtain k where k: "k < n" "page_key a = page_key (to + k * 4096)"
      by blast
    then have "mapped X self (tables s) a = None"
      using rng mapped_page_key [OF k(2), of X self "tables s"] by (simp add: range_mapped_def)
    then show ?thesis
      using True s''(3) by (simp add: range_unmapped_def)
  next
    case False
    then show ?thesis
      using rng s''(3) unfolding range_unmapped_def range_mapped_def by metis
  qed
  then show ?thesis
    using s'' by blast
qed

section \<open>A new page table\<close>

lemma new_page_table:
  assumes good: "good (frames s)" and al: "alloc (frames s) = (Ok f, a')"
    and off: "off mod 4096 = 0" "canonical f" "canonical (f + off)"
  shows "\<exists>s'. RecursivePageTable_new X alloc (Some off) s = (Ok \<lparr>lvl4 = f + off, internal_offset = off\<rparr>, s') \<and>
    invariant \<lparr>lvl4 = f + off, internal_offset = off\<rparr> s' \<and> frames s' = a' \<and>
    mapped X \<lparr>lvl4 = f + off, internal_offset = off\<rparr> (tables s') = (\<lambda>_. None) \<and>
    (\<forall>js. node_path js \<and> js \<noteq> [] \<longrightarrow> table_at X off (tables s') (f + off) js = None)"
proof -
  have f: "frame_address f" "f \<in> taken a'" "good a'"
    using alloc_Ok [OF good al] by auto
  obtain e where e: "entry_set_frame X (entry_new X) f (flags_rw X) = Some e"
    and entry: "entry_addr X e = f" "entry_flags X e = flags_rw X"
    using set_frame [OF f(1) flags_rw_not_huge] by blast
  then have used: "\<not> entry_is_unused X e"
    using flags_rw_present unused_not_present by metis
  define self where "self = \<lparr>lvl4 = f + off, internal_offset = off\<rparr>"
  define t :: "nat \<Rightarrow> 'pte" where "t = (\<lambda>_. entry_new X)(510 := e)"
  define s' where "s' = s\<lparr>frames := a', tables := (tables s)(f + off \<mapsto> t)\<rparr>"
  have al': "unwrap_prog (alloc_frame alloc) s = (Ok f, s\<lparr>frames := a'\<rparr>)"
    using al by (simp add: alloc_frame_def zoom_def)
  have aligned: "(f + off) mod 4096 = 0" "PhysFrame_containing_address X f = f"
    using f(1) off(1) by (auto simp: frame_address_def mod_add_eq [symmetric] containing_address)
  have run: "RecursivePageTable_new X alloc (Some off) s = (Ok self, s')"
    using off aligned e
    by (simp add: RecursivePageTable_new_def al' try_prog_Ok VirtAddr_new VirtAddr_add
        new_page_table_level_def read_entry_eq write_entry_eq self_def s'_def t_def)
  have walk: "table_at X off (tables s') (f + off) js = (if js = [] then Some (f + off) else None)"
    if "valid_path js" for js
    using that by (cases js) (auto simp: child_def s'_def t_def valid_path_def unused_new)
  have "entry_is_unused X (u i)"
    if "node_path (js @ [i])" "table_at X off (tables s') (f + off) js = Some q" "tables s' q = Some u" for js i q u
  proof -
    have "valid_path js" "valid_path (js @ [i])"
      using that(1) by (auto simp: node_path_def dest: valid_path_appendD)
    then have "js = []" "q = f + off" "i \<noteq> 510"
      using that(2) walk by (auto simp: valid_path_def split: if_splits)
    then show ?thesis
      using that(3) by (auto simp: s'_def t_def unused_new)
  qed
  moreover have "tables s' (f + off) = Some t" "t 510 = e"
    by (simp_all add: s'_def t_def)
  ultimately have "links_ok X off (f + off) (tables s')"
    unfolding links_ok_def using entry used by metis
  then have inv: "invariant self s'"
    using f off walk unfolding paging_inv_def tree_ok_def node_path_def
    by (auto simp: self_def s'_def split: if_splits)
  have "mapped X self (tables s') a = None" for a
    using walk [of "table_path a"] valid_table_path [of a]
    by (auto simp: mapped_def self_def leaf_entry_def table_path_def)
  moreover have "\<forall>js. node_path js \<and> js \<noteq> [] \<longrightarrow> table_at X off (tables s') (f + off) js = None"
    using walk by (simp add: node_path_def)
  moreover have "frames s' = a'"
    by (simp add: s'_def)
  ultimately show ?thesis
    using run inv unfolding self_def [symmetric] by (intro exI [of _ s']) (simp add: fun_eq_iff)
qed

end

section \<open>Total correctness of mapping\<close>

locale paging_supply = paging X alloc good taken
  for X :: "('pte, 'fl, 'z) x86_64_scheme" and alloc :: "('fa, MemoryError, PhysAddr) prog"
    and good taken +
  fixes room :: "u64 \<Rightarrow> nat \<Rightarrow> 'fa \<Rightarrow> bool"
  assumes room_alloc: "good a \<Longrightarrow> room off (Suc n) a \<Longrightarrow>
      \<exists>f a'. alloc a = (Ok f, a') \<and> canonical (f + off) \<and> room off n a'"
    and room_Suc: "room off (Suc n) a \<Longrightarrow> room off n a"
begin

lemma room_le: "m \<le> n \<Longrightarrow> room off n a \<Longrightarrow> room off m a"
  by (induction n rule: nat_induct) (auto simp: le_Suc_eq dest: room_Suc)

lemma create_levels_total:
  assumes "lowest self s to level cur" "invariant self s"
    and "room (internal_offset self) (n + (level - 1)) (frames s)"
  shows "\<exists>q s'. create_levels X alloc self to (rev [2..<level + 1]) cur s = (Ok q, s') \<and>
    room (internal_offset self) n (frames s')"
  using assms
proof (induction level arbitrary: cur s)
  case (Suc level)
  show ?case
  proof (cases "level = 0")
    case True
    then show ?thesis
      using Suc.prems by simp
  next
    case False
    then have level: "1 \<le> level" "1 \<le> Suc level" "Suc level \<le> 4"
      using Suc.prems(1) by (auto simp: lowest_def)
    note low = lowest_step [OF Suc.prems(1) level(1)]
    have "good (frames s)" "room (internal_offset self) (Suc (n + (level - 1))) (frames s)"
      using Suc.prems(2,3) level by (auto simp: paging_inv_def)
    then obtain f a' where al: "alloc (frames s) = (Ok f, a')" and can: "canonical (f + internal_offset self)"
      and room: "room (internal_offset self) (n + (level - 1)) a'"
      using room_alloc by blast
    obtain s1 where s1: "create_levels X alloc self to (Suc level # rev [2..<level + 1]) cur s =
        create_levels X alloc self to (rev [2..<level + 1]) (f + internal_offset self) s1"
      "invariant self s1" "frames s1 = a'" "lowest self s1 to level (f + internal_offset self)"
      using create_level [OF Suc.prems(2) refl level(2,3) low(1-3) al can] low(4) by metis
    show ?thesis
      using Suc.IH [OF s1(4,2)] room s1(1,3) levels_step [OF level(1)] by simp
  qed
qed (simp add: lowest_def)

lemma map_total:
  assumes inv: "invariant self s" and to: "page_index 4 to \<noteq> 510"
    and "from": "frame_address from" and flags: "flags_contains X flags (PRESENT X)"
    and free: "mapped X self (tables s) to = None"
    and room: "room (internal_offset self) (n + 3) (frames s)"
  shows "\<exists>s'. RecursivePageTable_map X alloc self from to flags s = (Ok (), s') \<and>
    room (internal_offset self) n (frames s')"
proof -
  obtain level cur where low: "lowest self s to level cur"
    by (rule lowest_exists [OF to])
  then have "n + (level - 1) \<le> n + 3"
    by (auto simp: lowest_def)
  then obtain q s1 where cr: "create_levels X alloc self to (rev [2..<level + 1]) cur s = (Ok q, s1)"
    and room1: "room (internal_offset self) n (frames s1)"
    using create_levels_total [OF low inv] room_le [OF _ room] by blast
  have s1: "invariant self s1" "mapped X self (tables s1) to = None" "lowest self s1 to 1 q"
    using create_levels_result [OF low inv cr] free by auto
  obtain s' where s': "set_leaf self from to flags q s1 = (Ok (), s')" "frames s' = frames s1"
    using set_leaf_eq(2) [OF s1(3,1) "from" flags s1(2)] by blast
  have "RecursivePageTable_map X alloc self from to flags s = (Ok (), s')"
    by (rule trans [OF map_eq [OF low inv]], rule trans, rule try_prog_Ok, rule cr, rule s'(1))
  then show ?thesis
    using room1 s'(2) by auto
qed

lemma map_pages_total:
  assumes inv: "invariant self s" and "from": "frame_address from"
    and flags: "flags_contains X flags (PRESENT X)"
    and pages: "\<And>k. k < n \<Longrightarrow> canonical (to + k * 4096) \<and> page_index 4 (to + k * 4096) \<noteq> 510 \<and>
      from + k * 4096 < 2 ^ 52 \<and> mapped X self (tables s) (to + k * 4096) = None"
    and room: "room (internal_offset self) (m + 3 * n) (frames s)"
  shows "\<exists>s'. for_each (map (\<lambda>k. k * 4096) [0..<n]) (\<lambda>page.
       try_prog (reads (\<lambda>_. of_lib (PhysAddr_add X from page))) (\<lambda>p.
       try_prog (reads (\<lambda>_. of_lib (VirtAddr_add X to page))) (\<lambda>v.
       RecursivePageTable_map X alloc self p v flags))) s = (Ok (), s') \<and>
    room (internal_offset self) m (frames s')"
  using pages room
proof (induction n arbitrary: m)
  case (Suc n)
  have "room (internal_offset self) ((m + 3) + 3 * n) (frames s)"
    using Suc.prems(2) by (simp add: algebra_simps)
  from Suc.IH [OF Suc.prems(1) [OF less_SucI] this] obtain s1 where
    s1: "for_each (map (\<lambda>k. k * 4096) [0..<n]) (\<lambda>page.
       try_prog (reads (\<lambda>_. of_lib (PhysAddr_add X from page))) (\<lambda>p.
       try_prog (reads (\<lambda>_. of_lib (VirtAddr_add X to page))) (\<lambda>v.
       RecursivePageTable_map X alloc self p v flags))) s = (Ok (), s1)"
    and room1: "room (internal_offset self) (m + 3) (frames s1)"
    by blast
  have n: "canonical (to + n * 4096)" "page_index 4 (to + n * 4096) \<noteq> 510" "from + n * 4096 < 2 ^ 52"
    "mapped X self (tables s) (to + n * 4096) = None"
    using Suc.prems(1) [of n] by auto
  note before = map_pages_OkD [OF inv "from" flags s1]
  have "page_key (to + n * 4096) \<noteq> page_key (to + k * 4096)" if "k < n" for k
    using that Suc.prems(1) [of k] n by (intro page_key_shift_neq) auto
  then have "mapped X self (tables s1) (to + n * 4096) = None"
    using before n(4) unfolding range_mapped_def by metis
  then obtain s' where "RecursivePageTable_map X alloc self (from + n * 4096) (to + n * 4096) flags s1 = (Ok (), s')"
    "room (internal_offset self) m (frames s')"
    using map_total [OF _ n(2) frame_address_shift [OF "from" n(3)] flags _ room1] before by blast
  then show ?case
    unfolding for_each_upt_Suc using s1 n by (simp add: try_prog_Ok VirtAddr_add PhysAddr_add)
qed simp

lemma map_contiguous_total:
  assumes "invariant self s" "frame_address from" "flags_contains X flags (PRESENT X)" "n * 4096 < 2 ^ 64"
    and "\<And>k. k < n \<Longrightarrow> canonical (to + k * 4096) \<and> page_index 4 (to + k * 4096) \<noteq> 510 \<and>
      from + k * 4096 < 2 ^ 52 \<and> mapped X self (tables s) (to + k * 4096) = None"
    and "room (internal_offset self) (m + 3 * n) (frames s)"
  shows "\<exists>s'. RecursivePageTable_map_contiguous X alloc self n from to flags s = (Ok (), s') \<and>
    room (internal_offset self) m (frames s')"
  using map_pages_total [of self s "from" flags n to m, OF assms(1-3,5,6)]
  by (simp add: RecursivePageTable_map_contiguous_def page_offsets_eq [OF assms(4)])

end

section \<open>The linear frame allocator supplies the tables\<close>

definition linear_room :: "u64 \<Rightarrow> nat \<Rightarrow> LinearFrameAllocator \<Rightarrow> bool" where
  "linear_room off n p \<longleftrightarrow> p + 4096 * n < 2 ^ 52 \<and>
     (p + 4096 * n + off < 2 ^ 47 \<or> 2 ^ 64 - 2 ^ 47 \<le> off \<and> p + 4096 * n + off < 2 ^ 64)"

sublocale x86_64_crate \<subseteq> linear_paging:
  paging_supply X "LinearFrameAllocator_alloc X" linear_good linear_taken linear_room
proof unfold_locales
  fix a :: nat and off :: u64 and n
  assume "linear_room off (Suc n) a"
  then show "\<exists>f a'. LinearFrameAllocator_alloc X a = (Ok f, a') \<and> canonical (f + off) \<and> linear_room off n a'"
    and "linear_room off n a"
    by (auto simp: LinearFrameAllocator_alloc_eq linear_room_def canonical_def)
qed

context x86_64_crate
begin

lemma linear_paging_supply:
  "paging_supply X (LinearFrameAllocator_alloc X) linear_good linear_taken linear_room"
  by (rule linear_paging.paging_supply_axioms)

lemma load_eq:
  assumes "frame_address p" "lvl4 self = p + internal_offset self"
  shows "RecursivePageTable_load X self = Ok (p, self\<lparr>lvl4 := LEVEL4\<rparr>)"
proof -
  have "p AND 0xFFF = take_bit 12 p"
    by (simp add: take_bit_eq_mask mask_eq_exp_minus_1)
  then have "p AND 0xFFF = 0"
    using assms(1) by (simp add: frame_address_def take_bit_eq_mod)
  then show ?thesis
    using assms by (simp add: RecursivePageTable_load_def sub64_def frame_address_def PhysAddr_new from_start_address)
qed

end

lemma linear_supply:
  assumes "x86_64_crate X"
  shows "paging_supply X (LinearFrameAllocator_alloc X) linear_good linear_taken linear_room"
    and "paging X (LinearFrameAllocator_alloc X) linear_good linear_taken"
  using x86_64_crate.linear_paging_supply [OF assms] paging_supply.axioms(1) by auto

end
