(* ===== verification/Page_Table_Debug.thy ===== *)
theory Page_Table_Debug
  imports Page_Ranges
begin

text \<open>
  The \<open>Debug\<close> output of \<open>RecursivePageTable\<close> (\<open>memory/paging/page_table.rs\<close>): every table below the level-4
  table, level by level, and every entry in use of the level-1 tables. The formatter is a parameter, a program
  that appends a piece of text or fails with \<open>fmt::Error\<close>; so is the text of an entry and of a pointer. The
  recursive entry 510 is not skipped, since the \<open>continue\<close> is commented out.
\<close>

record 'pte table_format =
  entry_text :: "'pte \<Rightarrow> rust_char list"   \<comment> \<open>\<open>{:x?}\<close>\<close>
  pointer_text :: "u64 \<Rightarrow> rust_char list"  \<comment> \<open>\<open>{:p}\<close>\<close>

datatype fmt_error = FmtError

type_synonym 'w formatter = "rust_char list \<Rightarrow> ('w, fmt_error, unit) prog"

definition debug_page ::
    "('pte, 'fl, 'z) x86_64_scheme \<Rightarrow> 'pte table_format \<Rightarrow> (u64 \<rightharpoonup> 'pte table) \<Rightarrow> 'w formatter \<Rightarrow> u64 \<Rightarrow>
       ('w, fmt_error, unit) prog" where
  "debug_page X D mem write_str page =
     for_each [0..<512] (\<lambda>i.
       try_prog (reads (\<lambda>_. read_entry mem page i)) (\<lambda>entry.
       if entry_is_unused X entry then ret ()
       else for_each [[9, 9, 9, 9], display_u64 i, literal '' => '', entry_text D entry, newline] write_str))"

text \<open>One turn of the loop of \<open>debug_recursive\<close> over the entries; \<open>rest\<close> is the recursive call.\<close>

definition debug_entry ::
    "('pte, 'fl, 'z) x86_64_scheme \<Rightarrow> 'pte table_format \<Rightarrow> RecursivePageTable \<Rightarrow> (u64 \<rightharpoonup> 'pte table) \<Rightarrow>
       'w formatter \<Rightarrow> u64 \<Rightarrow> u64 \<Rightarrow> (u64 \<Rightarrow> ('w, fmt_error, unit) prog) \<Rightarrow> usize \<Rightarrow> ('w, fmt_error, unit) prog" where
  "debug_entry X D self mem write_str level current rest i =
     try_prog (reads (\<lambda>_. read_entry mem current i)) (\<lambda>entry.
     if entry_is_unused X entry then ret () else
     try_prog (reads (\<lambda>_. phys_page_table_as_virt X self (entry_addr X entry))) (\<lambda>next_table.
     try_prog (reads (\<lambda>_. sub64 4 level)) (\<lambda>tabs.
     try_prog (for_each [0..<tabs] (\<lambda>_. write_str [9])) (\<lambda>_.
     try_prog (reads (\<lambda>_. sub64 level 1)) (\<lambda>lower.
     try_prog (for_each [literal ''(table level '', display_u64 level, literal '')['', display_u64 i, literal ''] = '',
       pointer_text D next_table, literal '' = (table level '', display_u64 lower, literal '') '' @ newline] write_str) (\<lambda>_.
     rest next_table))))))"

text \<open>At level 0, which no caller passes, \<open>level - 1\<close> overflows before the recursive call.\<close>

primrec debug_recursive ::
    "('pte, 'fl, 'z) x86_64_scheme \<Rightarrow> 'pte table_format \<Rightarrow> RecursivePageTable \<Rightarrow> (u64 \<rightharpoonup> 'pte table) \<Rightarrow>
       'w formatter \<Rightarrow> nat \<Rightarrow> u64 \<Rightarrow> ('w, fmt_error, unit) prog" where
  "debug_recursive X D self mem write_str 0 = (\<lambda>current.
     for_each [0..<512] (debug_entry X D self mem write_str 0 current (\<lambda>_. panic_with ArithmeticOverflow)))"
| "debug_recursive X D self mem write_str (Suc n) = (\<lambda>current.
     if n = 0 then debug_page X D mem write_str current
     else for_each [0..<512]
       (debug_entry X D self mem write_str (Suc n) current (debug_recursive X D self mem write_str n)))"

definition RecursivePageTable_fmt ::
    "('pte, 'fl, 'z) x86_64_scheme \<Rightarrow> 'pte table_format \<Rightarrow> RecursivePageTable \<Rightarrow> (u64 \<rightharpoonup> 'pte table) \<Rightarrow>
       'w formatter \<Rightarrow> ('w, fmt_error, unit) prog" where
  "RecursivePageTable_fmt X D self mem write_str = debug_recursive X D self mem write_str 4 (lvl4 self)"

section \<open>Printing a page table\<close>

definition writes_all :: "'w formatter \<Rightarrow> bool" where
  "writes_all write_str \<longleftrightarrow> (\<forall>t w. \<exists>w'. write_str t w = (Ok (), w'))"

lemma writes_for_each: "writes_all write_str \<Longrightarrow> \<exists>w'. for_each ts (\<lambda>t. write_str (f t)) w = (Ok (), w')"
  using for_each_total [where P = "\<lambda>_. True" and f = "\<lambda>t. write_str (f t)" and xs = ts and s = w]
  by (auto simp: writes_all_def)

text \<open>The tables the walk meets at a level: some table at most that far from the root.\<close>

definition met_at ::
    "('pte, 'fl, 'z) x86_64_scheme \<Rightarrow> RecursivePageTable \<Rightarrow> (u64 \<rightharpoonup> 'pte table) \<Rightarrow> nat \<Rightarrow> u64 \<Rightarrow> bool" where
  "met_at X self mem level q \<longleftrightarrow> 1 \<le> level \<and> level \<le> 4 \<and>
     (\<exists>js. node_path js \<and> length js \<le> 4 - level \<and> table_at X (internal_offset self) mem (lvl4 self) js = Some q)"

lemma met_at_child:
  assumes "met_at X self mem (Suc (Suc n)) q" "links_ok X (internal_offset self) (lvl4 self) mem" "i < 512"
    and "child X (internal_offset self) mem q i = Some q'"
  shows "met_at X self mem (Suc n) q'"
proof -
  obtain js where js: "node_path js" "length js \<le> 2 - n" "n \<le> 2"
    "table_at X (internal_offset self) mem (lvl4 self) js = Some q"
    using assms(1) by (auto simp: met_at_def)
  show ?thesis
  proof (cases "js = [] \<and> i = 510")
    case True
    then have "q' = lvl4 self"
      using js(4) assms(2,4) by (simp add: links_ok_child)
    then show ?thesis
      using js(3) by (auto simp: met_at_def node_path_def intro: exI [of _ "[]"])
  next
    case False
    have "table_at X (internal_offset self) mem (lvl4 self) (js @ [i]) = Some q'"
      using js(4) assms(4) by (simp add: table_at_snoc)
    moreover have "node_path (js @ [i])"
      using js(1-3) False assms(3) by (cases js) (auto simp: node_path_def valid_path_def)
    ultimately show ?thesis
      using js(2,3) by (auto simp: met_at_def intro!: exI [of _ "js @ [i]"])
  qed
qed

context x86_64_crate
begin

lemma debug_entry_total:
  assumes inv: "paging_inv X good taken self s" and W: "writes_all write_str"
    and q: "met_at X self (tables s) (Suc n) q" and i: "i < 512"
    and rest: "\<And>q' w. child X (internal_offset self) (tables s) q i = Some q' \<Longrightarrow> canonical q' \<and>
      (\<exists>w'. rest q' w = (Ok (), w'))"
  shows "\<exists>w'. debug_entry X D self (tables s) write_str (Suc n) q rest i w = (Ok (), w')"
proof -
  have tree: "tree_ok X (internal_offset self) (lvl4 self) (taken (frames s)) (tables s)"
    using inv by (simp add: paging_inv_def)
  obtain t where t: "tables s q = Some t"
    using q tree_okD(1) [OF tree] unfolding met_at_def by blast
  show ?thesis
  proof (cases "entry_is_unused X (t i)")
    case True
    then show ?thesis
      using t i by (simp add: debug_entry_def read_entry_def deref_table_def index_table_def)
  next
    case False
    define q' where "q' = entry_addr X (t i) + internal_offset self"
    have next_table: "child X (internal_offset self) (tables s) q i = Some q'"
      using t False by (simp add: child_def q'_def)
    have can: "canonical q'"
      using rest [OF next_table] by blast
    then have "q' < 2 ^ 64"
      by (auto simp: canonical_def)
    then have virt: "(phys_page_table_as_virt X self (entry_addr X (t i)) :: (fmt_error, _) outcome) = Ok q'"
      using can by (simp add: phys_page_table_as_virt_def add64_def VirtAddr_new q'_def)
    obtain w1 where w1: "for_each [0..<4 - Suc n] (\<lambda>_. write_str [9]) w = (Ok (), w1)"
      using writes_for_each [OF W, of "[0..<4 - Suc n]" "\<lambda>_. [9]" w] by blast
    obtain w2 where w2: "for_each [literal ''(table level '', display_u64 (Suc n), literal '')['', display_u64 i,
        literal ''] = '', pointer_text D q', literal '' = (table level '', display_u64 n, literal '') '' @ newline] write_str w1 =
        (Ok (), w2)"
      using writes_for_each [OF W, of _ "\<lambda>t. t" w1] by blast
    obtain w3 where "rest q' w2 = (Ok (), w3)"
      using rest [OF next_table] by blast
    moreover have "n \<le> 3"
      using q by (simp add: met_at_def)
    ultimately show ?thesis
      using t i False virt w1 w2
      by (simp add: debug_entry_def read_entry_def deref_table_def index_table_def sub64_def try_prog_Ok
          del: for_each.simps)
  qed
qed

lemma debug_recursive_total:
  assumes inv: "paging_inv X good taken self s" and W: "writes_all write_str"
  shows "met_at X self (tables s) level q \<Longrightarrow>
    \<exists>w'. debug_recursive X D self (tables s) write_str level q w = (Ok (), w')"
proof (induction level arbitrary: q w)
  case 0
  then show ?case
    by (simp add: met_at_def)
next
  case (Suc n)
  have tree: "tree_ok X (internal_offset self) (lvl4 self) (taken (frames s)) (tables s)"
    and links: "links_ok X (internal_offset self) (lvl4 self) (tables s)"
    using inv by (simp_all add: paging_inv_def)
  obtain t where t: "tables s q = Some t"
    using Suc.prems tree_okD(1) [OF tree] unfolding met_at_def by blast
  show ?case
  proof (cases n)
    case 0
    have "\<exists>w'. for_each [0..<512] (\<lambda>i. try_prog (reads (\<lambda>_. read_entry (tables s) q i)) (\<lambda>entry.
       if entry_is_unused X entry then ret ()
       else for_each [[9, 9, 9, 9], display_u64 i, literal '' => '', entry_text D entry, newline] write_str)) w = (Ok (), w') \<and> True"
    proof (rule for_each_total)
      fix i w assume "i \<in> set [0..<512]"
      then show "\<exists>w'. try_prog (reads (\<lambda>_. read_entry (tables s) q i)) (\<lambda>entry.
         if entry_is_unused X entry then ret ()
         else for_each [[9, 9, 9, 9], display_u64 i, literal '' => '', entry_text D entry, newline] write_str) w = (Ok (), w') \<and> True"
        using t writes_for_each [OF W, of _ "\<lambda>t. t" w]
        by (auto simp: read_entry_def deref_table_def index_table_def simp del: for_each.simps)
    qed simp
    then show ?thesis
      using 0 by (simp add: debug_page_def)
  next
    case (Suc k)
    have "\<exists>w'. for_each [0..<512] (debug_entry X D self (tables s) write_str (Suc n) q
        (debug_recursive X D self (tables s) write_str n)) w = (Ok (), w') \<and> True"
    proof (rule for_each_total)
      fix i w assume "i \<in> set [0..<512]"
      then have i: "i < 512"
        by simp
      have "canonical q' \<and> (\<exists>w'. debug_recursive X D self (tables s) write_str n q' w = (Ok (), w'))"
        if "child X (internal_offset self) (tables s) q i = Some q'" for q' w
      proof -
        have met: "met_at X self (tables s) n q'"
          using met_at_child [OF _ links i that] Suc.prems Suc by simp
        then show ?thesis
          using Suc.IH [OF met] tree_okD(2) [OF tree] unfolding met_at_def by blast
      qed
      then show "\<exists>w'. debug_entry X D self (tables s) write_str (Suc n) q
          (debug_recursive X D self (tables s) write_str n) i w = (Ok (), w') \<and> True"
        using debug_entry_total [OF inv W Suc.prems i] by blast
    qed simp
    then show ?thesis
      using Suc by simp
  qed
qed

end

end
