(* ===== verification/Page_Table_Properties.thy ===== *)
theory Page_Table_Properties
  imports Page_Ranges Page_Table_Debug
begin

text \<open>
  The properties of the page table, over the definitions of \<open>Page_Table\<close>: every statement names the
  operations of \<open>RecursivePageTable\<close>, with the linear frame allocator the kernel starts with, or any
  allocator that meets \<open>frame_source\<close>. The concrete table of the witnesses is the one
  \<open>RecursivePageTable_new\<close> builds with the frame at \<open>0x1000\<close> and the higher half direct map at
  \<open>0xFFFF800000000000\<close>.
\<close>

section \<open>A concrete page table\<close>

definition hhdm :: u64 where
  "hhdm = 0xFFFF800000000000"

definition first_table :: RecursivePageTable where
  "first_table = \<lparr>lvl4 = 0x1000 + hhdm, internal_offset = hhdm\<rparr>"

definition first_state :: "(64 word, LinearFrameAllocator) paging_state" where
  "first_state = snd (RecursivePageTable_new x86_64_entries (LinearFrameAllocator_alloc x86_64_entries)
     (Some hhdm) \<lparr>tables = Map.empty, frames = 0x1000\<rparr> ::
       (PagingError, RecursivePageTable) outcome \<times> _)"

lemma first_new:
  shows first_state_inv: "paging_inv x86_64_entries linear_good linear_taken first_table first_state"
    and first_state_frames: "frames first_state = 0x2000"
    and first_state_empty: "mapped x86_64_entries first_table (tables first_state) = (\<lambda>_. None)"
proof -
  let ?s = "\<lparr>tables = Map.empty, frames = 0x1000\<rparr> :: (64 word, LinearFrameAllocator) paging_state"
  have al: "LinearFrameAllocator_alloc x86_64_entries (frames ?s) = (Ok 0x1000, 0x2000)"
    by (simp add: entries.LinearFrameAllocator_alloc_eq)
  have pre: "linear_good (frames ?s)" "hhdm mod 4096 = 0" "canonical 0x1000" "canonical (0x1000 + hhdm)"
    by (simp_all add: linear_good_def frame_address_def hhdm_def canonical_def)
  obtain s' where "(RecursivePageTable_new x86_64_entries (LinearFrameAllocator_alloc x86_64_entries)
      (Some hhdm) ?s :: (PagingError, RecursivePageTable) outcome \<times> _) = (Ok first_table, s')"
    and s': "paging_inv x86_64_entries linear_good linear_taken first_table s'" "frames s' = 0x2000"
      "mapped x86_64_entries first_table (tables s') = (\<lambda>_. None)"
    using entries.linear_paging.new_page_table [OF pre(1) al pre(2-4)] unfolding first_table_def by blast
  then have "first_state = s'"
    by (simp add: first_state_def)
  with s' show "paging_inv x86_64_entries linear_good linear_taken first_table first_state"
    "frames first_state = 0x2000" "mapped x86_64_entries first_table (tables first_state) = (\<lambda>_. None)"
    by simp_all
qed

lemma entries_unused [simp]: "entry_is_unused x86_64_entries e \<longleftrightarrow> e = 0"
  by (simp add: x86_64_entries_def)

lemmas first_table_sel = first_table_def hhdm_def

lemma first_room: "n \<le> 1000 \<Longrightarrow> linear_room (internal_offset first_table) n (frames first_state)"
  by (simp add: linear_room_def first_state_frames first_table_sel)

lemma flags_rw_entries: "flags_contains x86_64_entries (flags_rw x86_64_entries) (PRESENT x86_64_entries)"
  by (rule entries.linear_paging.flags_rw_present)

lemmas entries_supply = linear_supply(1) [OF entries.x86_64_crate_axioms]

definition page_state :: "(64 word, LinearFrameAllocator) paging_state" where
  "page_state = snd (RecursivePageTable_map x86_64_entries (LinearFrameAllocator_alloc x86_64_entries)
     first_table 0x5000 0x400000 (flags_rw x86_64_entries) first_state)"

lemma page_state:
  shows page_state_run: "RecursivePageTable_map x86_64_entries (LinearFrameAllocator_alloc x86_64_entries)
      first_table 0x5000 0x400000 (flags_rw x86_64_entries) first_state = (Ok (), page_state)"
    and page_state_inv: "paging_inv x86_64_entries linear_good linear_taken first_table page_state"
    and page_state_mapped: "mapped x86_64_entries first_table (tables page_state) =
      (\<lambda>a. if page_key a = page_key 0x400000 then Some (0x5000, flags_rw x86_64_entries) else None)"
proof -
  have pre: "page_index 4 0x400000 \<noteq> 510" "frame_address 0x5000"
    "mapped x86_64_entries first_table (tables first_state) 0x400000 = None"
    "linear_room (internal_offset first_table) (0 + 3) (frames first_state)"
    using first_room [of 3] by (simp_all add: page_index_eq frame_address_def first_state_empty)
  show run: "RecursivePageTable_map x86_64_entries (LinearFrameAllocator_alloc x86_64_entries)
      first_table 0x5000 0x400000 (flags_rw x86_64_entries) first_state = (Ok (), page_state)"
    using paging_supply.map_total [OF entries_supply first_state_inv pre(1,2) flags_rw_entries pre(3,4)]
    by (auto simp: page_state_def)
  note res = entries.linear_paging.map_OkD [OF first_state_inv pre(2) flags_rw_entries run,
      unfolded first_state_empty]
  show "paging_inv x86_64_entries linear_good linear_taken first_table page_state"
    "mapped x86_64_entries first_table (tables page_state) =
      (\<lambda>a. if page_key a = page_key 0x400000 then Some (0x5000, flags_rw x86_64_entries) else None)"
    using res(2,4) by simp_all
qed

section \<open>Properties\<close>

text \<open>C12. Mapping an unmapped page outside the recursive range succeeds as long as three frames are
  left for tables, keeps the invariant, and changes the address space at that page only: it is now
  mapped to the given frame with the given flags. In particular neither the \<open>assert!\<close> on the new
  entries nor the \<open>unreachable!()\<close> is reached.\<close>

theorem map_maps_page:
  assumes "x86_64_crate X" "paging_inv X linear_good linear_taken self s"
    and "page_index 4 to \<noteq> 510" "frame_address from" "flags_contains X flags (PRESENT X)"
    and "mapped X self (tables s) to = None" "linear_room (internal_offset self) 3 (frames s)"
  shows "\<exists>s'. RecursivePageTable_map X (LinearFrameAllocator_alloc X) self from to flags s = (Ok (), s') \<and>
    paging_inv X linear_good linear_taken self s' \<and>
    mapped X self (tables s') =
      (\<lambda>a. if page_key a = page_key to then Some (from, flags) else mapped X self (tables s) a)"
proof -
  note lin = linear_supply [OF assms(1)]
  obtain s' where run: "RecursivePageTable_map X (LinearFrameAllocator_alloc X) self from to flags s = (Ok (), s')"
    using paging_supply.map_total [OF lin(1) assms(2-6), of 0] assms(7) by auto
  show ?thesis
    using run paging.map_OkD(2,4) [OF lin(2) assms(2,4,5) run] by auto
qed

theorem map_maps_page_witness:
  "page_index 4 0x400000 \<noteq> 510 \<and> (\<exists>s'. RecursivePageTable_map x86_64_entries
      (LinearFrameAllocator_alloc x86_64_entries) first_table 0x5000 0x400000 (flags_rw x86_64_entries)
      first_state = (Ok (), s') \<and>
    mapped x86_64_entries first_table (tables s') 0x400123 = Some (0x5000, flags_rw x86_64_entries))"
proof -
  have idx: "page_index 4 0x400000 \<noteq> 510" "page_key 0x400123 = page_key 0x400000"
    by (simp_all add: page_key_def table_path_def page_index_eq)
  have fr: "frame_address 0x5000"
    by (simp add: frame_address_def)
  show ?thesis
    using map_maps_page [OF entries.x86_64_crate_axioms first_state_inv idx(1) fr flags_rw_entries]
      first_room [of 3] idx by (auto simp: first_state_empty)
qed

text \<open>C13. The error paths of \<open>map\<close> leave everything as it was: a page of the recursive range is refused
  with \<open>AttemptedMappingToReserved\<close>, a page that is mapped already with \<open>AlreadyMapped\<close>, and the state
  is the one before the call.\<close>

theorem map_refuses:
  assumes "x86_64_crate X" "paging_inv X linear_good linear_taken self s"
    and "frame_address from" "flags_contains X flags (PRESENT X)"
    and "linear_room (internal_offset self) 3 (frames s)"
  shows "(RecursivePageTable_map X (LinearFrameAllocator_alloc X) self from to flags s =
      (Err (AttemptedMappingToReserved to), s) \<longleftrightarrow> page_index 4 to = 510) \<and>
    (RecursivePageTable_map X (LinearFrameAllocator_alloc X) self from to flags s =
      (Err (AlreadyMapped to), s) \<longleftrightarrow> mapped X self (tables s) to \<noteq> None) \<and>
    (\<nexists>p. fst (RecursivePageTable_map X (LinearFrameAllocator_alloc X) self from to flags s) = Panic p)"
proof -
  note lin = linear_supply [OF assms(1)]
  consider "page_index 4 to = 510" | "page_index 4 to \<noteq> 510" "mapped X self (tables s) to = None"
    | "page_index 4 to \<noteq> 510" "mapped X self (tables s) to \<noteq> None"
    by blast
  then show ?thesis
  proof cases
    case 1
    then show ?thesis
      using paging.map_reserved [OF lin(2), of to self "from" flags s] by (auto simp: mapped_def)
  next
    case 2
    then show ?thesis
      using paging_supply.map_total [OF lin(1) assms(2) 2(1) assms(3,4) 2(2), of 0] assms(5) by auto
  next
    case 3
    then show ?thesis
      using paging.map_already [OF lin(2) assms(2) 3(2) assms(3,4)] by simp
  qed
qed

theorem map_refuses_witness:
  "page_index 4 0xFFFFFF0000000000 = 510 \<and>
   RecursivePageTable_map x86_64_entries (LinearFrameAllocator_alloc x86_64_entries) first_table 0x5000
     0xFFFFFF0000000000 (flags_rw x86_64_entries) first_state =
     (Err (AttemptedMappingToReserved 0xFFFFFF0000000000), first_state)"
proof -
  have idx: "page_index 4 0xFFFFFF0000000000 = 510"
    by (simp add: page_index_eq)
  have fr: "frame_address 0x5000"
    by (simp add: frame_address_def)
  show ?thesis
    using map_refuses [OF entries.x86_64_crate_axioms first_state_inv fr flags_rw_entries]
      first_room [of 3] idx by auto
qed

lemma first_state_eq:
  "first_state = \<lparr>tables = [0xFFFF800000001000 \<mapsto>
     (\<lambda>_. 0)(510 := entry_word 0x1000 (flags_rw x86_64_entries))], frames = 0x2000\<rparr>"
  by (simp add: first_state_def RecursivePageTable_new_def alloc_frame_def zoom_def unwrap_prog_def
      try_prog_def LinearFrameAllocator_alloc_def x86_64_entries_def hhdm_def canonical_def
      new_page_table_level_def read_entry_def write_entry_def deref_table_def index_table_def
      set_entry_def)

text \<open>Translating after mapping: once \<open>map\<close> has succeeded, every address of the page translates to
  the same offset in the frame, and every other address outside the recursive range translates as
  before.\<close>

theorem translate_after_map:
  assumes "x86_64_crate X" "paging_inv X linear_good linear_taken self s"
    and "frame_address from" "flags_contains X flags (PRESENT X)"
    and run: "RecursivePageTable_map X (LinearFrameAllocator_alloc X) self from to flags s = (Ok (), s')"
    and a: "page_index 4 a \<noteq> 510"
  shows "RecursivePageTable_translate X self (tables s') a =
    (if page_key a = page_key to then Ok (Some (from + a mod 4096))
     else RecursivePageTable_translate X self (tables s) a)"
proof -
  note pg = linear_supply(2) [OF assms(1)]
  note res = paging.map_OkD [OF pg assms(2-5)]
  show ?thesis
  proof (cases "page_key a = page_key to")
    case True
    then show ?thesis
      using paging.translate_mapped [OF pg res(2) a] assms(3) by (simp add: res(4))
  next
    case False
    then show ?thesis
      by (simp add: paging.translate_eq [OF pg res(2) a] paging.translate_eq [OF pg assms(2) a] res(4))
  qed
qed

theorem translate_after_map_witness:
  "(RecursivePageTable_translate x86_64_entries first_table (tables page_state) 0x400123
     :: (PagingError, PhysAddr option) outcome) = Ok (Some 0x5123)"
proof -
  have idx: "page_index 4 0x400123 \<noteq> 510" "page_key 0x400123 = page_key 0x400000" "frame_address 0x5000"
    by (simp_all add: page_key_def table_path_def page_index_eq frame_address_def)
  show ?thesis
    using translate_after_map [OF entries.x86_64_crate_axioms first_state_inv idx(3) flags_rw_entries
        page_state_run idx(1)] idx(2) by simp
qed

text \<open>\<open>unmap\<close> removes exactly the page of the address: it succeeds if and only if the page is mapped,
  and then changes the address space at that page only; otherwise it answers \<open>NotMapped\<close> and changes
  nothing. No frame is taken or given back.\<close>

theorem unmap_removes_page:
  assumes "x86_64_crate X" "paging_inv X linear_good linear_taken self s" "page_index 4 a \<noteq> 510"
  shows "if mapped X self (tables s) a = None
    then RecursivePageTable_unmap X self a s = (Err (NotMapped a), s)
    else (\<exists>s'. RecursivePageTable_unmap X self a s = (Ok (), s') \<and>
      paging_inv X linear_good linear_taken self s' \<and> frames s' = frames s \<and>
      mapped X self (tables s') =
        (\<lambda>b. if page_key b = page_key a then None else mapped X self (tables s) b))"
  using paging.unmap_eq [OF linear_supply(2) [OF assms(1)] assms(2,3)] by simp

theorem unmap_removes_page_witness:
  "\<exists>s'. RecursivePageTable_unmap x86_64_entries first_table 0x400000 page_state = (Ok (), s') \<and>
     mapped x86_64_entries first_table (tables s') = (\<lambda>_. None)"
proof -
  have "page_index 4 0x400000 \<noteq> 510"
    by (simp add: page_index_eq)
  from unmap_removes_page [OF entries.x86_64_crate_axioms page_state_inv this] show ?thesis
    by (auto simp: page_state_mapped fun_eq_iff)
qed

text \<open>C15. Mapping a range succeeds when the pages are free, addressable and outside the recursive range
  and three frames per page are left; page \<open>k\<close> of the range is then mapped to frame \<open>k\<close>, and every
  other page is mapped as before.\<close>

theorem map_contiguous_maps_range:
  assumes "x86_64_crate X" "paging_inv X linear_good linear_taken self s"
    and "frame_address from" "flags_contains X flags (PRESENT X)" "n * 4096 < 2 ^ 64"
    and "\<And>k. k < n \<Longrightarrow> canonical (to + k * 4096) \<and> page_index 4 (to + k * 4096) \<noteq> 510 \<and>
      from + k * 4096 < 2 ^ 52 \<and> mapped X self (tables s) (to + k * 4096) = None"
    and "linear_room (internal_offset self) (3 * n) (frames s)"
  shows "\<exists>s'. RecursivePageTable_map_contiguous X (LinearFrameAllocator_alloc X) self n from to flags s =
      (Ok (), s') \<and> paging_inv X linear_good linear_taken self s' \<and>
    (\<forall>k < n. mapped X self (tables s') (to + k * 4096) = Some (from + k * 4096, flags)) \<and>
    (\<forall>a. (\<forall>k < n. page_key a \<noteq> page_key (to + k * 4096)) \<longrightarrow>
       mapped X self (tables s') a = mapped X self (tables s) a)"
proof -
  note lin = linear_supply [OF assms(1)]
  obtain s' where run: "RecursivePageTable_map_contiguous X (LinearFrameAllocator_alloc X) self n from to flags s =
      (Ok (), s')"
    using paging_supply.map_contiguous_total [OF lin(1) assms(2-6), of 0] assms(7) by auto
  show ?thesis
    using run paging.map_contiguous_OkD(1) [OF lin(2) assms(2-4) run] unfolding range_mapped_def by blast
qed

lemma less_two: "k < 2 \<longleftrightarrow> k = 0 \<or> k = (1::nat)"
  by auto

theorem map_contiguous_maps_range_witness:
  "\<exists>s'. RecursivePageTable_map_contiguous x86_64_entries (LinearFrameAllocator_alloc x86_64_entries)
      first_table 2 0x5000 0x3FF000 (flags_rw x86_64_entries) first_state = (Ok (), s') \<and>
    mapped x86_64_entries first_table (tables s') 0x400000 = Some (0x6000, flags_rw x86_64_entries)"
proof -
  have pages: "canonical (0x3FF000 + k * 4096) \<and> page_index 4 (0x3FF000 + k * 4096) \<noteq> 510 \<and>
      0x5000 + k * 4096 < 2 ^ 52 \<and>
      mapped x86_64_entries first_table (tables first_state) (0x3FF000 + k * 4096) = None"
    if "k < 2" for k
    using that by (auto simp: less_two canonical_def page_index_eq first_state_empty)
  have fr: "frame_address 0x5000" and n: "2 * 4096 < (2 ^ 64 :: nat)"
    by (simp_all add: frame_address_def)
  obtain s' where "RecursivePageTable_map_contiguous x86_64_entries (LinearFrameAllocator_alloc x86_64_entries)
      first_table 2 0x5000 0x3FF000 (flags_rw x86_64_entries) first_state = (Ok (), s')"
    "\<forall>k < 2. mapped x86_64_entries first_table (tables s') (0x3FF000 + k * 4096) =
      Some (0x5000 + k * 4096, flags_rw x86_64_entries)"
    using map_contiguous_maps_range [OF entries.x86_64_crate_axioms first_state_inv fr flags_rw_entries n pages]
      first_room [of 6] by auto
  then show ?thesis
    by (auto dest: spec [of _ 1])
qed

text \<open>C16. Unmapping a range undoes mapping it: after a successful \<open>map_contiguous\<close>, \<open>unmap_contiguous\<close>
  of the same pages succeeds and the address space is the original one.\<close>

theorem unmap_contiguous_undoes_map:
  assumes "x86_64_crate X" "paging_inv X linear_good linear_taken self s"
    and "frame_address from" "flags_contains X flags (PRESENT X)"
    and "RecursivePageTable_map_contiguous X (LinearFrameAllocator_alloc X) self n from to flags s = (Ok (), s')"
  shows "\<exists>s''. RecursivePageTable_unmap_contiguous X self n to s' = (Ok (), s'') \<and>
    paging_inv X linear_good linear_taken self s'' \<and>
    mapped X self (tables s'') = mapped X self (tables s)"
  by (rule paging.map_unmap_contiguous [OF linear_supply(2) [OF assms(1)] assms(2-5)])

theorem unmap_contiguous_undoes_map_witness:
  "\<exists>s' s''. RecursivePageTable_map_contiguous x86_64_entries (LinearFrameAllocator_alloc x86_64_entries)
      first_table 2 0x5000 0x3FF000 (flags_rw x86_64_entries) first_state = (Ok (), s') \<and>
    RecursivePageTable_unmap_contiguous x86_64_entries first_table 2 0x3FF000 s' = (Ok (), s'') \<and>
    mapped x86_64_entries first_table (tables s'') = (\<lambda>_. None)"
proof -
  have pages: "canonical (0x3FF000 + k * 4096) \<and> page_index 4 (0x3FF000 + k * 4096) \<noteq> 510 \<and>
      0x5000 + k * 4096 < 2 ^ 52 \<and>
      mapped x86_64_entries first_table (tables first_state) (0x3FF000 + k * 4096) = None"
    if "k < 2" for k
    using that by (auto simp: less_two canonical_def page_index_eq first_state_empty)
  have fr: "frame_address 0x5000" and n: "2 * 4096 < (2 ^ 64 :: nat)"
    by (simp_all add: frame_address_def)
  obtain s' where run: "RecursivePageTable_map_contiguous x86_64_entries (LinearFrameAllocator_alloc x86_64_entries)
      first_table 2 0x5000 0x3FF000 (flags_rw x86_64_entries) first_state = (Ok (), s')"
    using paging_supply.map_contiguous_total [OF entries_supply first_state_inv fr flags_rw_entries n pages, of 0]
      first_room [of 6] by auto
  show ?thesis
    using run unmap_contiguous_undoes_map [OF entries.x86_64_crate_axioms first_state_inv fr flags_rw_entries run]
      first_state_empty by auto
qed



text \<open>C18. A new page table is well formed and empty: when the allocator has a frame at \<open>p\<close> that is
  addressable at the offset of the higher half direct map, \<open>new\<close> places the level-4 table there, the
  invariant holds and no address is mapped.\<close>

theorem new_is_empty:
  assumes "x86_64_crate X" "frame_address p" "p + 4096 < 2 ^ 52"
    and "off mod 4096 = 0" "canonical p" "canonical (p + off)" and "frames s = p"
  shows "\<exists>s'. (RecursivePageTable_new X (LinearFrameAllocator_alloc X) (Some off) s
      :: (MemoryError, RecursivePageTable) outcome \<times> _) =
      (Ok \<lparr>lvl4 = p + off, internal_offset = off\<rparr>, s') \<and>
    paging_inv X linear_good linear_taken \<lparr>lvl4 = p + off, internal_offset = off\<rparr> s' \<and>
    frames s' = p + 4096 \<and>
    mapped X \<lparr>lvl4 = p + off, internal_offset = off\<rparr> (tables s') = (\<lambda>_. None)"
proof -
  have al: "LinearFrameAllocator_alloc X (frames s) = (Ok p, p + 4096)" "linear_good (frames s)"
    using assms by (simp_all add: x86_64_crate.LinearFrameAllocator_alloc_eq linear_good_def)
  show ?thesis
    using paging.new_page_table [OF linear_supply(2) [OF assms(1)] al(2,1) assms(4-6)] by blast
qed

theorem new_is_empty_witness:
  "\<exists>s'. (RecursivePageTable_new x86_64_entries (LinearFrameAllocator_alloc x86_64_entries) (Some hhdm)
      \<lparr>tables = Map.empty, frames = 0x8000\<rparr> :: (MemoryError, RecursivePageTable) outcome \<times> _) =
      (Ok \<lparr>lvl4 = 0xFFFF800000008000, internal_offset = hhdm\<rparr>, s')"
proof -
  have pre: "frame_address 0x8000" "0x8000 + 4096 < (2 ^ 52 :: nat)" "hhdm mod 4096 = 0" "canonical 0x8000"
    "canonical (0x8000 + hhdm)"
    by (simp_all add: frame_address_def hhdm_def canonical_def)
  show ?thesis
    using new_is_empty [OF entries.x86_64_crate_axioms pre,
        of "\<lparr>tables = Map.empty, frames = 0x8000\<rparr>"] by (auto simp: hhdm_def)
qed

text \<open>C40. The debug output of a page table is safe: while the invariant holds, \<open>fmt\<close> ends without a panic and without following a pointer to anything but a table, although
  it does not skip the recursive entry, as long as the formatter accepts the text.\<close>

theorem debug_output_safe:
  assumes "x86_64_crate X" "paging_inv X linear_good linear_taken self s" "writes_all write_str"
  shows "\<exists>w'. RecursivePageTable_fmt X D self (tables s) write_str w = (Ok (), w')"
proof -
  have "met_at X self (tables s) 4 (lvl4 self)"
    by (auto simp: met_at_def node_path_def intro: exI [of _ "[]"])
  then show ?thesis
    unfolding RecursivePageTable_fmt_def by (rule x86_64_crate.debug_recursive_total [OF assms])
qed

theorem debug_output_safe_witness:
  "\<exists>text. RecursivePageTable_fmt x86_64_entries \<lparr>entry_text = (\<lambda>e. display_u64 (unat e)), pointer_text = display_u64\<rparr>
     first_table (tables first_state) (\<lambda>t w. (Ok (), w @ t)) [] = (Ok (), text)"
proof -
  have "writes_all (\<lambda>t w. (Ok (), w @ t))"
    by (simp add: writes_all_def)
  then show ?thesis
    by (rule debug_output_safe [OF entries.x86_64_crate_axioms first_state_inv])
qed

end
