(* ===== verification/Address_Space.thy ===== *)
theory Address_Space
  imports Page_Table_Properties
begin

text \<open>
  The page table as a state machine. The specification is an address space, a partial function from
  virtual addresses to a frame and its flags, with one step for each answer an operation may give; the
  implementation is a sequence of calls of \<open>map\<close>, \<open>unmap\<close>, \<open>update_flags\<close> and \<open>translate\<close> of
  \<open>RecursivePageTable\<close> on tables in memory. Every sequence of calls that meet \<open>call_ok\<close> is a sequence of steps of
  the specification, for every frame allocator that meets \<open>frame_source\<close>, and with the linear allocator every
  such call is answered as long as frames are left. Only \<open>map\<close> checks that its address is outside the recursive
  range: an \<open>unmap\<close> inside it can erase the recursive entry itself.
\<close>

datatype 'fl paging_call =
    Map PhysAddr VirtAddr 'fl
  | Unmap VirtAddr
  | UpdateFlags VirtAddr 'fl
  | Translate VirtAddr

datatype answer = Done | Refused PagingError | Found "PhysAddr option"

type_synonym 'fl space = "VirtAddr \<Rightarrow> (PhysAddr \<times> 'fl) option"

section \<open>The specification\<close>

definition set_page :: "VirtAddr \<Rightarrow> (PhysAddr \<times> 'fl) option \<Rightarrow> 'fl space \<Rightarrow> 'fl space" where
  "set_page to v m = (\<lambda>a. if page_key a = page_key to then v else m a)"

inductive space_step :: "'fl space \<Rightarrow> 'fl paging_call \<Rightarrow> answer \<Rightarrow> 'fl space \<Rightarrow> bool" where
  map_done: "page_index 4 to \<noteq> 510 \<Longrightarrow> m to = None \<Longrightarrow>
     space_step m (Map from to flags) Done (set_page to (Some (from, flags)) m)"
| map_reserved: "page_index 4 to = 510 \<Longrightarrow>
     space_step m (Map from to flags) (Refused (AttemptedMappingToReserved to)) m"
| map_already: "m to \<noteq> None \<Longrightarrow> space_step m (Map from to flags) (Refused (AlreadyMapped to)) m"
| map_no_frame: "m to = None \<Longrightarrow> space_step m (Map from to flags) (Refused TableAllocationFailed) m"
| unmap_done: "m a \<noteq> None \<Longrightarrow> space_step m (Unmap a) Done (set_page a None m)"
| unmap_refused: "m a = None \<Longrightarrow> space_step m (Unmap a) (Refused (NotMapped a)) m"
| flags_done: "m a = Some (p, old) \<Longrightarrow>
     space_step m (UpdateFlags a flags) Done (set_page a (Some (p, flags)) m)"
| flags_refused: "m a = None \<Longrightarrow> space_step m (UpdateFlags a flags) (Refused (NotMapped a)) m"
| flags_ignored: "m a = None \<Longrightarrow> space_step m (UpdateFlags a flags) Done m"
| translate: "space_step m (Translate a) (Found (map_option (\<lambda>(p, _). p + a mod 4096) (m a))) m"

inductive space_run :: "'fl space \<Rightarrow> ('fl paging_call \<times> answer) list \<Rightarrow> 'fl space \<Rightarrow> bool" for m where
  run_start: "space_run m [] m"
| run_step: "space_run m tr m' \<Longrightarrow> space_step m' c r m'' \<Longrightarrow> space_run m (tr @ [(c, r)]) m''"

inductive_cases map_stepE: "space_step m (Map from to flags) r m'"
inductive_cases translate_stepE: "space_step m (Translate a) r m'"

text \<open>Frames are page aligned physical addresses.\<close>

definition space_ok :: "'fl space \<Rightarrow> bool" where
  "space_ok m \<longleftrightarrow> (\<forall>a p fl. m a = Some (p, fl) \<longrightarrow> frame_address p)"

section \<open>The implementation\<close>

text \<open>The calls the specification covers: a page aligned frame, flags with \<open>PRESENT\<close>, and no address of the recursive
  range other than in \<open>map\<close>, which refuses it.\<close>

fun call_ok :: "('pte, 'fl, 'z) x86_64_scheme \<Rightarrow> 'fl paging_call \<Rightarrow> bool" where
  "call_ok X (Map from to flags) \<longleftrightarrow> frame_address from \<and> flags_contains X flags (PRESENT X)"
| "call_ok X (Unmap a) \<longleftrightarrow> page_index 4 a \<noteq> 510"
| "call_ok X (UpdateFlags a flags) \<longleftrightarrow> page_index 4 a \<noteq> 510 \<and> flags_contains X flags (PRESENT X)"
| "call_ok X (Translate a) \<longleftrightarrow> page_index 4 a \<noteq> 510"

definition answer_of :: "('a \<Rightarrow> answer) \<Rightarrow> (PagingError, 'a) outcome \<times> 's \<Rightarrow> (answer \<times> 's) option" where
  "answer_of f = (\<lambda>(r, s). case r of
     Ok x \<Rightarrow> Some (f x, s) | Err e \<Rightarrow> Some (Refused e, s) | Panic p \<Rightarrow> None)"

fun perform ::
    "('pte, 'fl, 'z) x86_64_scheme \<Rightarrow> ('fa, MemoryError, PhysAddr) prog \<Rightarrow> RecursivePageTable \<Rightarrow> 'fl paging_call \<Rightarrow>
       ('pte, 'fa) paging_state \<Rightarrow> (answer \<times> ('pte, 'fa) paging_state) option" where
  "perform X alloc self (Map from to flags) s =
     answer_of (\<lambda>_. Done) (RecursivePageTable_map X alloc self from to flags s)"
| "perform X alloc self (Unmap a) s = answer_of (\<lambda>_. Done) (RecursivePageTable_unmap X self a s)"
| "perform X alloc self (UpdateFlags a flags) s =
     answer_of (\<lambda>_. Done) (RecursivePageTable_update_flags X self a flags s)"
| "perform X alloc self (Translate a) s =
     answer_of Found (RecursivePageTable_translate X self (tables s) a, s)"

inductive paging_run for X alloc self s where
  paging_start: "paging_run X alloc self s [] s"
| paging_call: "paging_run X alloc self s tr s' \<Longrightarrow> call_ok X c \<Longrightarrow> perform X alloc self c s' = Some (r, s'') \<Longrightarrow>
     paging_run X alloc self s (tr @ [(c, r)]) s''"

section \<open>Simulation\<close>

lemma answer_of_SomeD:
  assumes "answer_of f x = Some (r, s')"
  obtains y where "x = (Ok y, s')" "r = f y" | e where "x = (Err e, s')" "r = Refused e"
  using assms by (cases x) (auto simp: answer_of_def split: outcome.splits)

lemma space_ok_set_page: "space_ok m \<Longrightarrow> (\<And>p fl. v = Some (p, fl) \<Longrightarrow> frame_address p) \<Longrightarrow> space_ok (set_page to v m)"
  by (auto simp: space_ok_def set_page_def)

lemma space_step_ok:
  assumes "space_step m c r m'" "space_ok m" "call_ok X c"
  shows "space_ok m'"
  using assms
proof (induction rule: space_step.induct)
  case (flags_done m a p old flags)
  then have "frame_address p"
    unfolding space_ok_def by blast
  with flags_done show ?case
    by (intro space_ok_set_page) auto
qed (auto intro: space_ok_set_page)

context paging
begin

lemma translate_space:
  assumes inv: "invariant self s" and ok: "space_ok (mapped X self (tables s))" and a: "page_index 4 a \<noteq> 510"
  shows "(RecursivePageTable_translate X self (tables s) a :: ('e, PhysAddr option) outcome) =
    Ok (map_option (\<lambda>(p, _). p + a mod 4096) (mapped X self (tables s) a))"
proof (cases "mapped X self (tables s) a")
  case None
  then show ?thesis
    by (simp add: translate_eq [OF inv a])
next
  case (Some m)
  then have "frame_address (fst m)"
    using ok unfolding space_ok_def by (metis prod.collapse)
  then show ?thesis
    using translate_mapped [OF inv a, of "fst m" "snd m"] Some by (simp add: case_prod_beta)
qed

lemma perform_simulates:
  assumes inv: "invariant self s" and ok: "space_ok (mapped X self (tables s))" "call_ok X c"
    and run: "perform X alloc self c s = Some (r, s')"
  shows "invariant self s' \<and> space_step (mapped X self (tables s)) c r (mapped X self (tables s'))"
proof (cases c)
  case (Map "from" to flags)
  then have pre: "frame_address from" "flags_contains X flags (PRESENT X)"
    using ok(2) by simp_all
  obtain x where x: "RecursivePageTable_map X alloc self from to flags s = (x, s')" "\<nexists>p. x = Panic p"
    "x = Ok () \<and> r = Done \<or> (\<exists>e. x = Err e \<and> r = Refused e)"
    using run Map by (auto elim: answer_of_SomeD)
  show ?thesis
  proof (cases "page_index 4 to = 510")
    case True
    then show ?thesis
      using map_reserved [of to self "from" flags s] x inv Map by (auto intro: space_step.map_reserved)
  next
    case False
    note res = map_result [OF inv False pre x(1,2)]
    show ?thesis
    proof (cases "mapped X self (tables s) to = None")
      case True
      then show ?thesis
        using res(1,3) x(3) Map space_step.map_done [of to "mapped X self (tables s)", OF False True, of "from" flags]
        by (auto simp: set_page_def intro: space_step.map_no_frame)
    next
      case mapped_already: False
      then show ?thesis
        using res(2) x(3) Map inv by (auto intro: space_step.map_already)
    qed
  qed
next
  case (Unmap a)
  then have a: "page_index 4 a \<noteq> 510"
    using ok(2) by simp
  show ?thesis
  proof (cases "mapped X self (tables s) a = None")
    case True
    then show ?thesis
      using unmap_eq(1) [OF inv a True] run Unmap inv by (auto simp: answer_of_def intro: space_step.unmap_refused)
  next
    case False
    then show ?thesis
      using unmap_eq(2) [OF inv a False] run Unmap space_step.unmap_done [of "mapped X self (tables s)" a, OF False]
      by (auto simp: answer_of_def set_page_def)
  qed
next
  case (UpdateFlags a flags)
  then have a: "page_index 4 a \<noteq> 510" and fl: "flags_contains X flags (PRESENT X)"
    using ok(2) by simp_all
  show ?thesis
  proof (cases "mapped X self (tables s) a")
    case None
    then show ?thesis
      using update_flags_eq(1) [OF inv a fl None] run UpdateFlags inv
      by (auto simp: answer_of_def split: if_splits intro: space_step.flags_refused space_step.flags_ignored)
  next
    case (Some m)
    then obtain p old where m: "mapped X self (tables s) a = Some (p, old)"
      by (cases m) auto
    then show ?thesis
      using update_flags_eq(2) [OF inv a fl m] run UpdateFlags
        space_step.flags_done [of "mapped X self (tables s)" a p old flags]
      by (auto simp: answer_of_def set_page_def)
  qed
next
  case (Translate a)
  then have a: "page_index 4 a \<noteq> 510"
    using ok(2) by simp
  show ?thesis
    using translate_space [OF inv ok(1) a, where 'e = PagingError] run Translate inv
    by (auto simp: answer_of_def intro: space_step.translate)
qed

lemma paging_run_simulates:
  assumes "paging_run X alloc self s tr s'" "invariant self s" "space_ok (mapped X self (tables s))"
  shows "invariant self s' \<and> space_ok (mapped X self (tables s')) \<and>
    space_run (mapped X self (tables s)) tr (mapped X self (tables s'))"
  using assms
proof (induction rule: paging_run.induct)
  case paging_start
  then show ?case
    by (simp add: run_start)
next
  case (paging_call tr s' c r s'')
  then have IH: "invariant self s'" "space_ok (mapped X self (tables s'))"
      "space_run (mapped X self (tables s)) tr (mapped X self (tables s'))"
    by blast+
  then show ?case
    using perform_simulates [OF IH(1,2) paging_call(2,3)] paging_call(2) run_step space_step_ok by blast
qed

end

context paging_supply
begin

lemma perform_answers:
  assumes inv: "invariant self s" and ok: "space_ok (mapped X self (tables s))" "call_ok X c"
    and room: "room (internal_offset self) 3 (frames s)"
  shows "\<exists>r s'. perform X alloc self c s = Some (r, s')"
proof (cases c)
  case (Map "from" to flags)
  then have pre: "frame_address from" "flags_contains X flags (PRESENT X)"
    using ok(2) by simp_all
  consider "page_index 4 to = 510" | "page_index 4 to \<noteq> 510" "mapped X self (tables s) to = None"
    | "mapped X self (tables s) to \<noteq> None"
    by blast
  then show ?thesis
  proof cases
    case 2
    then show ?thesis
      using map_total [OF inv 2(1) pre 2(2), of 0] room Map by (auto simp: answer_of_def)
  qed (use Map map_reserved [of to self "from" flags s] map_already [OF inv _ pre] in \<open>auto simp: answer_of_def\<close>)
next
  case (Unmap a)
  then show ?thesis
    using unmap_eq [OF inv, of a] ok(2) by (cases "mapped X self (tables s) a = None") (auto simp: answer_of_def)
next
  case (UpdateFlags a flags)
  then show ?thesis
    using update_flags_eq [OF inv, of a flags] ok(2)
    by (cases "mapped X self (tables s) a") (auto simp: answer_of_def)
next
  case (Translate a)
  then show ?thesis
    using translate_space [OF inv ok(1), of a, where 'e = PagingError] ok(2) by (simp add: answer_of_def)
qed

end

text \<open>The address whose four indices are all 510: the walk to it goes round the recursive entry and ends at the root.\<close>

definition recursive_entry_page :: VirtAddr where
  "recursive_entry_page = 0xFFFFFF7FBFDFE000"

lemma recursive_entry_indices: "1 \<le> l \<Longrightarrow> l \<le> 4 \<Longrightarrow> page_index l recursive_entry_page = 510"
proof -
  assume "1 \<le> l" "l \<le> 4"
  then consider "l = 1" | "l = 2" | "l = 3" | "l = 4"
    by linarith
  then show ?thesis
    by cases (simp_all add: page_index_eq recursive_entry_page_def)
qed

context x86_64_crate
begin

lemma get_recursive_entry_table:
  assumes "tree_ok X (internal_offset self) (lvl4 self) T mem" "links_ok X (internal_offset self) (lvl4 self) mem"
  shows "get_page_table X self mem (Suc 0) recursive_entry_page = Ok (Some (lvl4 self))"
proof -
  obtain t where t: "mem (lvl4 self) = Some t" "\<not> entry_is_unused X (t 510)"
      "entry_addr X (t 510) + internal_offset self = lvl4 self"
    using assms(2) by (rule links_okE)
  have "canonical (lvl4 self)"
    using tree_okD(2) [OF assms(1), of "[]"] by (simp add: node_path_def valid_path_def)
  note virt = phys_as_virt [of "entry_addr X (t 510)" self, unfolded t(3), OF this]
  have levels: "[0..<3] = [0, 1, 2 :: nat]"
    by (simp add: upt_rec)
  show ?thesis
    by (simp add: get_page_table_def levels read_entry_eq [where mem = mem, OF t(1)] t(2) virt get_page_index_eq recursive_entry_indices)
qed

lemma unmap_recursive_entry:
  assumes "paging_inv X good taken self s"
  obtains s' where "RecursivePageTable_unmap X self recursive_entry_page s = (Ok (), s')"
    "\<not> paging_inv X good' taken' self s'"
proof -
  have inv: "tree_ok X (internal_offset self) (lvl4 self) (taken (frames s)) (tables s)"
      "links_ok X (internal_offset self) (lvl4 self) (tables s)"
    using assms by (simp_all add: paging_inv_def)
  obtain t where t: "tables s (lvl4 self) = Some t" "\<not> entry_is_unused X (t 510)"
    using inv(2) by (rule links_okE)
  define s' where "s' = s\<lparr>tables := (tables s)(lvl4 self \<mapsto> t(510 := entry_set_unused X (t 510)))\<rparr>"
  have "RecursivePageTable_unmap X self recursive_entry_page s = (Ok (), s')"
    using t by (simp add: RecursivePageTable_unmap_def get_recursive_entry_table [OF inv] try_prog_Ok
        get_page_index_eq recursive_entry_indices read_entry_eq [where mem = "tables s", OF t(1)] write_entry_eq s'_def)
  moreover have "\<not> links_ok X (internal_offset self) (lvl4 self) (tables s')"
    by (auto simp: s'_def unused_set_unused elim!: links_okE)
  ultimately show thesis
    using that by (simp add: paging_inv_def)
qed

end

text \<open>C1. The page table implements an address space. Take any sequence of calls of \<open>map\<close> with a page-aligned frame
  and flags that contain \<open>PRESENT\<close>, \<open>update_flags\<close> with such flags, \<open>unmap\<close> and \<open>translate\<close>, the addresses of the last three outside
  the recursive range of entry 510. With every answer given it is a run of the specification from the address
  space at the start to the one at the end; the invariant holds throughout; and with three frames left for
  tables the next such call is answered too. The restriction to addresses outside the recursive range is needed: only
  \<open>map\<close> checks it, and an \<open>unmap\<close> of the address whose four indices are 510 answers \<open>Ok\<close>, erases the recursive
  entry and breaks the invariant.\<close>

theorem page_table_refines_address_space:
  assumes "x86_64_crate X" "paging_inv X linear_good linear_taken self s" "space_ok (mapped X self (tables s))"
    and "paging_run X (LinearFrameAllocator_alloc X) self s tr s'"
  shows "paging_inv X linear_good linear_taken self s' \<and>
    space_run (mapped X self (tables s)) tr (mapped X self (tables s')) \<and>
    (\<forall>c. call_ok X c \<longrightarrow> linear_room (internal_offset self) 3 (frames s') \<longrightarrow>
       perform X (LinearFrameAllocator_alloc X) self c s' \<noteq> None) \<and>
    (\<exists>s''. perform X (LinearFrameAllocator_alloc X) self (Unmap recursive_entry_page) s' = Some (Done, s'') \<and>
       \<not> paging_inv X linear_good linear_taken self s'')"
proof -
  note lin = linear_supply [OF assms(1)]
  note sim = paging.paging_run_simulates [OF lin(2) assms(4,2,3)]
  then have inv: "paging_inv X linear_good linear_taken self s'"
    by blast
  obtain s'' where "RecursivePageTable_unmap X self recursive_entry_page s' = (Ok (), s'')"
      "\<not> paging_inv X linear_good linear_taken self s''"
    by (rule x86_64_crate.unmap_recursive_entry [OF assms(1) inv])
  then have "\<exists>s''. perform X (LinearFrameAllocator_alloc X) self (Unmap recursive_entry_page) s' = Some (Done, s'') \<and>
       \<not> paging_inv X linear_good linear_taken self s''"
    by (simp add: answer_of_def)
  with sim show ?thesis
    using paging_supply.perform_answers [OF lin(1)] by blast
qed

lemma page_state_calls:
  "paging_run x86_64_entries (LinearFrameAllocator_alloc x86_64_entries) first_table first_state
     [(Map 0x5000 0x400000 (flags_rw x86_64_entries), Done)] page_state"
proof -
  have "perform x86_64_entries (LinearFrameAllocator_alloc x86_64_entries) first_table
      (Map 0x5000 0x400000 (flags_rw x86_64_entries)) first_state = Some (Done, page_state)"
    by (simp add: page_state_run answer_of_def)
  moreover have "call_ok x86_64_entries (Map 0x5000 0x400000 (flags_rw x86_64_entries))"
    by (simp add: frame_address_def flags_rw_entries)
  ultimately show ?thesis
    using paging_call [OF paging_start] by fastforce
qed

theorem page_table_refines_address_space_witness:
  "space_run (\<lambda>_. None) [(Map 0x5000 0x400000 (flags_rw x86_64_entries), Done)]
     (mapped x86_64_entries first_table (tables page_state)) \<and>
   perform x86_64_entries (LinearFrameAllocator_alloc x86_64_entries) first_table (Unmap 0x400000) page_state \<noteq> None \<and>
   (\<exists>s. perform x86_64_entries (LinearFrameAllocator_alloc x86_64_entries) first_table
      (Unmap recursive_entry_page) page_state = Some (Done, s))"
proof -
  have "space_ok (mapped x86_64_entries first_table (tables first_state))"
    by (simp add: space_ok_def first_state_empty)
  note refined = page_table_refines_address_space
      [OF entries.x86_64_crate_axioms first_state_inv this page_state_calls, unfolded first_state_empty]
  have "page_index 4 0x400000 \<noteq> 510" "frame_address 0x5000"
    "mapped x86_64_entries first_table (tables first_state) 0x400000 = None"
    by (simp_all add: page_index_eq frame_address_def first_state_empty)
  then have "linear_room (internal_offset first_table) 3 (frames page_state)"
    using paging_supply.map_total [OF entries_supply first_state_inv _ _ flags_rw_entries, of "0x400000" "0x5000" 3]
      first_room [of 6] page_state_run by auto
  moreover have "call_ok x86_64_entries (Unmap 0x400000)"
    by (simp add: page_index_eq)
  ultimately show ?thesis
    using refined by blast
qed

end
