(* ===== verification/Bitmap_Allocator.thy ===== *)
theory Bitmap_Allocator
  imports Linear_Frame_Allocator
begin

text \<open>
  \<open>memory/paging/bitmap_allocator.rs\<close>: a bitmap with one bit per unit, set when the unit is in use.
  \<open>bits_size\<close> is the field \<open>size\<close>: the number of bits, eight per byte of the slice. The functions
  follow the source statement by statement; the two nested \<open>while\<close> loops of each scan are the
  pairs \<open>scan_bits_run\<close>/\<open>scan_bits_from\<close> and \<open>scan_bytes_run\<close>/\<open>scan_bytes_from\<close>.

  The abstraction is the set of bits in use, \<open>allocated\<close>. The lemmas show what every operation does
  to that set: marking a range adds it, checking a range is the bit-by-bit check, a request of at
  most sixteen bits gets a range that was free, and what the release operations do instead of
  releasing.
\<close>

record BitmapAllocator =
  bitmap :: "u8 list"
  bits_size :: u64
  last_allocated :: u64

section \<open>Operations\<close>

definition BitmapAllocator_new ::
    "('pte, 'fl, 'z) x86_64_scheme \<Rightarrow> u64 \<Rightarrow> usize \<Rightarrow> bool \<Rightarrow>
       (LinearFrameAllocator, MemoryError, BitmapAllocator) prog" where
  "BitmapAllocator_new X internal_offset size_bytes set_at_init =
     (let pages = size_in_pages size_bytes in
     try_prog (LinearFrameAllocator_alloc_contiguous X pages) (\<lambda>phys.
     try_prog (reads (\<lambda>_. add64 phys internal_offset)) (\<lambda>a.
     try_prog (reads (\<lambda>_. of_lib (VirtAddr_new X a))) (\<lambda>virt.
     try_prog (reads (\<lambda>_. mul64 size_bytes 8)) (\<lambda>bits.
     ret \<lparr>bitmap = replicate size_bytes (if set_at_init then 0xFF else 0),
          bits_size = bits, last_allocated = 0\<rparr>)))))"

definition BitmapAllocator_in_range :: "BitmapAllocator \<Rightarrow> u64 \<Rightarrow> (MemoryError, bool) outcome" where
  "BitmapAllocator_in_range self bt =
     try_outcome (mul64 (bits_size self) 8) (\<lambda>lim. Ok (bt < lim))"

definition BitmapAllocator_range_in_bounds ::
    "BitmapAllocator \<Rightarrow> u64 \<times> u64 \<Rightarrow> (MemoryError, bool) outcome" where
  "BitmapAllocator_range_in_bounds self rng =
     try_outcome (mul64 (bits_size self) 8) (\<lambda>lim. Ok (snd rng \<le> lim))"

definition BitmapAllocator_check ::
    "BitmapAllocator \<Rightarrow> u64 \<Rightarrow> bool \<Rightarrow> (MemoryError, bool) outcome" where
  "BitmapAllocator_check self bt st =
     try_outcome (BitmapAllocator_in_range self bt) (\<lambda>inr.
     if \<not> inr then Err OutOfBounds else
     try_outcome (index_slice (bitmap self) (bt div 8)) (\<lambda>byte.
     let m = push_bit (bt mod 8) (1 :: u8) in
     Ok (st = (byte AND m \<noteq> 0))))"

text \<open>\<open>for bit in bits { check = check && self.check(bit, set)?; }\<close>\<close>

fun check_bits ::
    "BitmapAllocator \<Rightarrow> u64 list \<Rightarrow> bool \<Rightarrow> bool \<Rightarrow> (MemoryError, bool) outcome" where
  "check_bits self [] st check = Ok check"
| "check_bits self (b # bs) st check =
     try_outcome (if check then BitmapAllocator_check self b st else Ok False)
       (\<lambda>check'. check_bits self bs st check')"

fun check_bytes :: "u8 list \<Rightarrow> u8 \<Rightarrow> bool \<Rightarrow> bool" where
  "check_bytes [] test check = check"
| "check_bytes (b # bs) test check = check_bytes bs test (check \<and> b = test)"

definition BitmapAllocator_check_range ::
    "BitmapAllocator \<Rightarrow> u64 \<times> u64 \<Rightarrow> bool \<Rightarrow> (MemoryError, bool) outcome" where
  "BitmapAllocator_check_range self rng st =
     try_outcome (BitmapAllocator_range_in_bounds self rng) (\<lambda>inb.
     if \<not> inb then Err OutOfBounds else
     try_outcome (sub64 (snd rng) (fst rng)) (\<lambda>len.
     if len < 8 then check_bits self [fst rng..<snd rng] st True else
     try_outcome (add64 (fst rng) ((8 - fst rng mod 8) mod 8)) (\<lambda>byte_aligned_start.
     let byte_aligned_end = snd rng - snd rng mod 8 in
     try_outcome (check_bits self [fst rng..<byte_aligned_start] st True) (\<lambda>check.
     let test = (if st then 0xFF else 0) in
     try_outcome (range_slice (bitmap self) (byte_aligned_start div 8) (byte_aligned_end div 8))
       (\<lambda>bytes.
     check_bits self [byte_aligned_end..<snd rng] st (check_bytes bytes test check))))))"

definition BitmapAllocator_flag ::
    "u64 \<Rightarrow> bool \<Rightarrow> (BitmapAllocator, MemoryError, unit) prog" where
  "BitmapAllocator_flag bt flg =
     try_prog (reads (\<lambda>self. BitmapAllocator_in_range self bt)) (\<lambda>inr.
     if \<not> inr then throw OutOfBounds else
     try_prog (reads (\<lambda>self. index_slice (bitmap self) (bt div 8))) (\<lambda>byte.
     modifies (\<lambda>self. self\<lparr>bitmap :=
       (bitmap self)[bt div 8 := byte OR push_bit (bt mod 8) (of_bool flg)]\<rparr>)))"

definition BitmapAllocator_flag_range ::
    "u64 \<times> u64 \<Rightarrow> bool \<Rightarrow> (BitmapAllocator, MemoryError, unit) prog" where
  "BitmapAllocator_flag_range rng flg =
     try_prog (reads (\<lambda>self. BitmapAllocator_range_in_bounds self rng)) (\<lambda>inb.
     if \<not> inb then throw OutOfBounds else
     try_prog (reads (\<lambda>_. sub64 (snd rng) (fst rng))) (\<lambda>len.
     if len < 8 then for_each [fst rng..<snd rng] (\<lambda>b. BitmapAllocator_flag b flg) else
     try_prog (reads (\<lambda>_. add64 (fst rng) ((8 - fst rng mod 8) mod 8))) (\<lambda>byte_aligned_start.
     let byte_aligned_end = snd rng - snd rng mod 8 in
     try_prog (for_each [fst rng..<byte_aligned_start] (\<lambda>b. BitmapAllocator_flag b flg)) (\<lambda>_.
     try_prog (reads (\<lambda>self. fill_slice (bitmap self) (byte_aligned_start div 8)
                 (byte_aligned_end div 8) (if flg then 0xFF else 0))) (\<lambda>bytes.
     try_prog (modifies (\<lambda>self. self\<lparr>bitmap := bytes\<rparr>)) (\<lambda>_.
     for_each [byte_aligned_end..<snd rng] (\<lambda>b. BitmapAllocator_flag b flg)))))))"

text \<open>The inner loop of \<open>scan_bits\<close>; \<open>lim\<close> is \<open>self.size * 8\<close>.\<close>

function scan_bits_run ::
    "u8 list \<Rightarrow> u64 \<Rightarrow> u64 \<Rightarrow> u64 \<Rightarrow> u8 \<Rightarrow> u64 \<Rightarrow> u64 \<Rightarrow> (MemoryError, u8 \<times> u64 \<times> u64) outcome" where
  "scan_bits_run bm sz target lim acc found current =
     (if acc = 0 \<and> found < target \<and> current < lim then
        try_outcome (rem64 (current div 8) (sz div 8)) (\<lambda>i.
        try_outcome (index_slice bm i) (\<lambda>byte.
        try_outcome (add8 acc (byte AND push_bit (current mod 8) 1)) (\<lambda>acc'.
        try_outcome (add64 found 1) (\<lambda>found'.
        try_outcome (add64 current 1) (\<lambda>current'.
        scan_bits_run bm sz target lim acc' found' current')))))
      else Ok (acc, found, current))"
  by pat_completeness auto
termination
  by (relation "measure (\<lambda>(bm, sz, target, lim, acc, found, current). lim - current)") auto

declare scan_bits_run.simps [simp del]

lemma scan_bits_run_stepE:
  assumes "scan_bits_run bm sz target lim acc found current = Ok r" and "acc = 0 \<and> found < target \<and> current < lim"
  obtains i byte acc1 found1 current1 where "rem64 (current div 8) (sz div 8) = (Ok i :: (MemoryError, u64) outcome)"
    "index_slice bm i = (Ok byte :: (MemoryError, u8) outcome)"
    "add8 acc (byte AND push_bit (current mod 8) 1) = (Ok acc1 :: (MemoryError, u8) outcome)"
    "add64 found 1 = (Ok found1 :: (MemoryError, u64) outcome)"
    "add64 current 1 = (Ok current1 :: (MemoryError, u64) outcome)"
    "scan_bits_run bm sz target lim acc1 found1 current1 = Ok r"
  using assms(1) [unfolded scan_bits_run.simps [of bm sz target lim acc found current]
      if_P [OF assms(2)] try_outcome_Ok_iff] that
  by blast

lemma scan_bits_run_grows:
  "scan_bits_run bm sz target lim acc found current = Ok (acc', found', current') \<Longrightarrow>
     current \<le> current' \<and> (acc' \<noteq> acc \<longrightarrow> current < current')"
proof (induction bm sz target lim acc found current arbitrary: acc' found' current'
    rule: scan_bits_run.induct)
  case (1 bm sz target lim acc found current)
  show ?case
  proof (cases "acc = 0 \<and> found < target \<and> current < lim")
    case True
    obtain i byte acc1 found1 current1 where step:
      "rem64 (current div 8) (sz div 8) = (Ok i :: (MemoryError, u64) outcome)"
      "index_slice bm i = (Ok byte :: (MemoryError, u8) outcome)"
      "add8 acc (byte AND push_bit (current mod 8) 1) = (Ok acc1 :: (MemoryError, u8) outcome)"
      "add64 found 1 = (Ok found1 :: (MemoryError, u64) outcome)"
      "add64 current 1 = (Ok current1 :: (MemoryError, u64) outcome)"
      and rest: "scan_bits_run bm sz target lim acc1 found1 current1 = Ok (acc', found', current')"
      using scan_bits_run_stepE [OF "1.prems" True] by metis
    from "1.IH" [OF True step rest] step(5) show ?thesis
      by simp
  next
    case False
    with "1.prems" show ?thesis
      by (subst (asm) scan_bits_run.simps) auto
  qed
qed

function scan_bits_from ::
    "u8 list \<Rightarrow> u64 \<Rightarrow> u64 \<Rightarrow> u64 \<Rightarrow> u64 \<Rightarrow> (MemoryError, u64) outcome" where
  "scan_bits_from bm sz target lim current =
     (if current < lim then
        try_outcome (scan_bits_run bm sz target lim 0 0 current) (\<lambda>(acc, found, current').
        if acc \<noteq> 0 then scan_bits_from bm sz target lim current'
        else sub64 current' found)
      else Err AllocationError)"
  by pat_completeness auto
termination
  by (relation "measure (\<lambda>(bm, sz, target, lim, current). lim - current)")
    (auto dest: scan_bits_run_grows)

declare scan_bits_from.simps [simp del]

definition BitmapAllocator_scan_bits ::
    "BitmapAllocator \<Rightarrow> u64 \<Rightarrow> (MemoryError, u64) outcome" where
  "BitmapAllocator_scan_bits self target =
     try_outcome (mul64 (bits_size self) 8) (\<lambda>lim.
     scan_bits_from (bitmap self) (bits_size self) target lim (last_allocated self))"

function scan_bytes_run ::
    "u8 list \<Rightarrow> u64 \<Rightarrow> u64 \<Rightarrow> u8 \<Rightarrow> u64 \<Rightarrow> u64 \<Rightarrow> (MemoryError, u8 \<times> u64 \<times> u64) outcome" where
  "scan_bytes_run bm sz target acc found current =
     (if acc = 0 \<and> found < target \<and> current < sz then
        try_outcome (rem64 current sz) (\<lambda>i.
        try_outcome (index_slice bm i) (\<lambda>byte.
        try_outcome (add8 acc byte) (\<lambda>acc'.
        try_outcome (add64 found 1) (\<lambda>found'.
        try_outcome (add64 current 8) (\<lambda>current'.
        scan_bytes_run bm sz target acc' found' current')))))
      else Ok (acc, found, current))"
  by pat_completeness auto
termination
  by (relation "measure (\<lambda>(bm, sz, target, acc, found, current). sz - current)") auto

declare scan_bytes_run.simps [simp del]

lemma scan_bytes_run_stepE:
  assumes "scan_bytes_run bm sz target acc found current = Ok r" and "acc = 0 \<and> found < target \<and> current < sz"
  obtains i byte acc1 found1 current1 where "rem64 current sz = (Ok i :: (MemoryError, u64) outcome)"
    "index_slice bm i = (Ok byte :: (MemoryError, u8) outcome)"
    "add8 acc (byte) = (Ok acc1 :: (MemoryError, u8) outcome)"
    "add64 found 1 = (Ok found1 :: (MemoryError, u64) outcome)"
    "add64 current 8 = (Ok current1 :: (MemoryError, u64) outcome)"
    "scan_bytes_run bm sz target acc1 found1 current1 = Ok r"
  using assms(1) [unfolded scan_bytes_run.simps [of bm sz target acc found current]
      if_P [OF assms(2)] try_outcome_Ok_iff] that
  by blast

lemma scan_bytes_run_grows:
  "scan_bytes_run bm sz target acc found current = Ok (acc', found', current') \<Longrightarrow>
     current \<le> current' \<and> (acc' \<noteq> acc \<longrightarrow> current < current')"
proof (induction bm sz target acc found current arbitrary: acc' found' current'
    rule: scan_bytes_run.induct)
  case (1 bm sz target acc found current)
  show ?case
  proof (cases "acc = 0 \<and> found < target \<and> current < sz")
    case True
    obtain i byte acc1 found1 current1 where step:
      "rem64 current sz = (Ok i :: (MemoryError, u64) outcome)"
      "index_slice bm i = (Ok byte :: (MemoryError, u8) outcome)"
      "add8 acc byte = (Ok acc1 :: (MemoryError, u8) outcome)"
      "add64 found 1 = (Ok found1 :: (MemoryError, u64) outcome)"
      "add64 current 8 = (Ok current1 :: (MemoryError, u64) outcome)"
      and rest: "scan_bytes_run bm sz target acc1 found1 current1 = Ok (acc', found', current')"
      using scan_bytes_run_stepE [OF "1.prems" True] by metis
    from "1.IH" [OF True step rest] step(5) show ?thesis
      by simp
  next
    case False
    with "1.prems" show ?thesis
      by (subst (asm) scan_bytes_run.simps) auto
  qed
qed

function scan_bytes_from ::
    "u8 list \<Rightarrow> u64 \<Rightarrow> u64 \<Rightarrow> u64 \<Rightarrow> (MemoryError, u64) outcome" where
  "scan_bytes_from bm sz target current =
     (if current < sz then
        try_outcome (scan_bytes_run bm sz target 0 0 current) (\<lambda>(acc, found, current').
        if acc \<noteq> 0 then scan_bytes_from bm sz target current'
        else try_outcome (mul64 found 8) (\<lambda>n. sub64 current' n))
      else Err AllocationError)"
  by pat_completeness auto
termination
  by (relation "measure (\<lambda>(bm, sz, target, current). sz - current)")
    (auto dest: scan_bytes_run_grows)

declare scan_bytes_from.simps [simp del]

definition BitmapAllocator_scan_bytes ::
    "('pte, 'fl, 'z) x86_64_scheme \<Rightarrow> BitmapAllocator \<Rightarrow> u64 \<Rightarrow> (MemoryError, u64) outcome" where
  "BitmapAllocator_scan_bytes X self target =
     try_outcome (of_lib (align_up X (last_allocated self) 8)) (\<lambda>current.
     scan_bytes_from (bitmap self) (bits_size self) target current)"

definition BitmapAllocator_scan ::
    "('pte, 'fl, 'z) x86_64_scheme \<Rightarrow> BitmapAllocator \<Rightarrow> u64 \<Rightarrow> (MemoryError, u64) outcome" where
  "BitmapAllocator_scan X self bits =
     (if bits \<ge> bits_size self then Err OutOfBounds
      else if bits > 16 then BitmapAllocator_scan_bytes X self bits
      else try_outcome (of_lib (align_up X bits 8)) (\<lambda>target.
             BitmapAllocator_scan_bits self target))"

definition BitmapAllocator_alloc ::
    "('pte, 'fl, 'z) x86_64_scheme \<Rightarrow> u64 \<Rightarrow> (BitmapAllocator, MemoryError, u64) prog" where
  "BitmapAllocator_alloc X bits =
     try_prog (reads (\<lambda>self. BitmapAllocator_scan X self bits)) (\<lambda>free_space.
     try_prog (reads (\<lambda>_. add64 free_space bits)) (\<lambda>last.
     try_prog (modifies (\<lambda>self. self\<lparr>last_allocated := last\<rparr>)) (\<lambda>_.
     try_prog (BitmapAllocator_flag_range (free_space, last) True) (\<lambda>_.
     ret free_space))))"

definition BitmapAllocator_free :: "u64 \<Rightarrow> (BitmapAllocator, MemoryError, unit) prog" where
  "BitmapAllocator_free bt =
     try_prog (reads (\<lambda>self. Ok (bits_size self))) (\<lambda>sz.
     if bt \<ge> sz then throw OutOfBounds else
     try_prog (reads (\<lambda>self. BitmapAllocator_check self bt False)) (\<lambda>c.
     if \<not> c then throw DoubleFree else
     try_prog (BitmapAllocator_flag bt False) (\<lambda>_.
     ret ())))"

definition BitmapAllocator_free_range ::
    "u64 \<times> u64 \<Rightarrow> (BitmapAllocator, MemoryError, unit) prog" where
  "BitmapAllocator_free_range rng =
     try_prog (reads (\<lambda>self. BitmapAllocator_check_range self rng False)) (\<lambda>c.
     if \<not> c then throw DoubleFree else
     try_prog (BitmapAllocator_flag_range rng False) (\<lambda>_.
     panic_with NotYetImplemented))"

section \<open>The set of bits in use\<close>

definition allocated :: "BitmapAllocator \<Rightarrow> nat set" where
  "allocated al = {i. i < 8 * length (bitmap al) \<and> bit (bitmap al ! (i div 8)) (i mod 8)}"

text \<open>
  The representation invariant: the size field counts the bits of the slice. The bound on the slice
  (a petabyte of bitmap) keeps \<open>self.size * 8\<close> and the scan positions inside \<open>u64\<close>.
\<close>

definition bitmap_ok :: "BitmapAllocator \<Rightarrow> bool" where
  "bitmap_ok al \<longleftrightarrow> bits_size al = 8 * length (bitmap al) \<and> length (bitmap al) < 2 ^ 50"

definition same_shape :: "BitmapAllocator \<Rightarrow> BitmapAllocator \<Rightarrow> bool" where
  "same_shape al al' \<longleftrightarrow> length (bitmap al') = length (bitmap al) \<and>
     bits_size al' = bits_size al \<and> last_allocated al' = last_allocated al"

lemma same_shape_refl [simp]: "same_shape al al"
  by (simp add: same_shape_def)

lemma same_shape_trans: "same_shape a b \<Longrightarrow> same_shape b c \<Longrightarrow> same_shape a c"
  by (simp add: same_shape_def)

lemma same_shape_ok: "same_shape al al' \<Longrightarrow> bitmap_ok al' \<longleftrightarrow> bitmap_ok al"
  by (auto simp: same_shape_def bitmap_ok_def)

lemma allocated_less: "bitmap_ok al \<Longrightarrow> i \<in> allocated al \<Longrightarrow> i < bits_size al"
  by (simp add: allocated_def bitmap_ok_def)

lemma bit_255_int [simp]: "bit (255 :: int) j \<longleftrightarrow> j < 8"
proof -
  have "(255 :: int) = mask 8"
    by (simp add: mask_eq_exp_minus_1)
  then show ?thesis
    by (simp only: bit_mask_iff) (simp add: possible_bit_def)
qed

lemma u8_eq_0xFF_iff: "(b :: u8) = 0xFF \<longleftrightarrow> (\<forall>j < 8. bit b j)"
proof
  assume "\<forall>j < 8. bit b j"
  then show "b = 0xFF"
    by (intro bit_word_eqI) simp
qed simp

lemma u8_eq_0_iff: "(b :: u8) = 0 \<longleftrightarrow> (\<forall>j < 8. \<not> bit b j)"
proof
  assume "\<forall>j < 8. \<not> bit b j"
  then show "b = 0"
    by (intro bit_word_eqI) simp
qed simp

lemma byte_in_bounds:
  "bitmap_ok al \<Longrightarrow> bt < bits_size al \<Longrightarrow> bt div 8 < length (bitmap al)"
  by (simp add: bitmap_ok_def less_mult_imp_div_less mult.commute)

lemma in_range_ok:
  "bitmap_ok al \<Longrightarrow> BitmapAllocator_in_range al bt = Ok (bt < bits_size al * 8)"
  by (simp add: BitmapAllocator_in_range_def bitmap_ok_def mul64_def)

lemma range_in_bounds_ok:
  "bitmap_ok al \<Longrightarrow> BitmapAllocator_range_in_bounds al rng = Ok (snd rng \<le> bits_size al * 8)"
  by (simp add: BitmapAllocator_range_in_bounds_def bitmap_ok_def mul64_def)

section \<open>Marking\<close>

definition mark_bit :: "bool \<Rightarrow> u64 \<Rightarrow> BitmapAllocator \<Rightarrow> BitmapAllocator" where
  "mark_bit flg bt al = al\<lparr>bitmap := (bitmap al)[bt div 8 :=
     bitmap al ! (bt div 8) OR push_bit (bt mod 8) (of_bool flg)]\<rparr>"

lemma flag_ok:
  assumes "bitmap_ok al" "bt < bits_size al"
  shows "BitmapAllocator_flag bt flg al = (Ok (), mark_bit flg bt al)"
  using assms byte_in_bounds [OF assms]
  by (simp add: BitmapAllocator_flag_def in_range_ok mark_bit_def)

lemma mark_bit_shape [simp]: "same_shape al (mark_bit flg bt al)"
  by (simp add: mark_bit_def same_shape_def)

lemma mark_bit_fields [simp]:
  "bits_size (mark_bit flg bt al) = bits_size al"
  "length (bitmap (mark_bit flg bt al)) = length (bitmap al)"
  by (simp_all add: mark_bit_def)

lemma mark_bit_False [simp]: "mark_bit False bt al = al"
  by (simp add: mark_bit_def)

lemma allocated_mark_bit:
  assumes "bt < 8 * length (bitmap al)"
  shows "allocated (mark_bit True bt al) = insert bt (allocated al)"
proof -
  have "i \<in> allocated (mark_bit True bt al) \<longleftrightarrow> i \<in> insert bt (allocated al)" for i
  proof (cases "i div 8 = bt div 8")
    case True
    then have "i = bt \<longleftrightarrow> i mod 8 = bt mod 8"
      by (metis div_mult_mod_eq)
    with True assms show ?thesis
      by (auto simp: allocated_def mark_bit_def bit_simps nth_list_update)
  next
    case False
    with assms show ?thesis
      by (auto simp: allocated_def mark_bit_def nth_list_update)
  qed
  then show ?thesis
    by blast
qed

text \<open>The loops of \<open>flag_range\<close> over single bits: they set the bits, or do nothing at all.\<close>

lemma for_each_flag:
  assumes "bitmap_ok al" "\<forall>b \<in> set bs. b < bits_size al"
  shows "\<exists>al'. for_each bs (\<lambda>b. BitmapAllocator_flag b flg) al = (Ok (), al') \<and> same_shape al al' \<and>
     allocated al' = (if flg then allocated al \<union> set bs else allocated al)"
  using assms
proof (induction bs arbitrary: al)
  case (Cons b bs)
  let ?al = "mark_bit flg b al"
  have shape: "same_shape al ?al"
    by simp
  have "bitmap_ok ?al" "\<forall>b \<in> set bs. b < bits_size ?al"
    using Cons.prems by (auto simp: same_shape_ok [OF shape])
  from Cons.IH [OF this] obtain al' where
    al': "for_each bs (\<lambda>b. BitmapAllocator_flag b flg) ?al = (Ok (), al')" "same_shape ?al al'"
      "allocated al' = (if flg then allocated ?al \<union> set bs else allocated ?al)"
    by blast
  have "for_each (b # bs) (\<lambda>b. BitmapAllocator_flag b flg) al = (Ok (), al')"
    using Cons.prems al'(1) by (simp add: try_prog_def flag_ok)
  moreover have "same_shape al al'"
    using same_shape_trans [OF shape al'(2)] .
  moreover have "allocated al' = (if flg then allocated al \<union> set (b # bs) else allocated al)"
    using al'(3) Cons.prems by (cases flg) (auto simp: allocated_mark_bit bitmap_ok_def)
  ultimately show ?case
    by blast
qed simp

lemma allocated_fill:
  assumes "a \<le> b" "b \<le> length (bitmap al)"
  shows "allocated (al\<lparr>bitmap := take a (bitmap al) @ replicate (b - a) v @ drop b (bitmap al)\<rparr>) =
    (allocated al - {8 * a..<8 * b}) \<union> {i \<in> {8 * a..<8 * b}. bit v (i mod 8)}"
proof -
  let ?bm = "take a (bitmap al) @ replicate (b - a) v @ drop b (bitmap al)"
  have len: "length ?bm = length (bitmap al)"
    using assms by simp
  have "?bm ! (i div 8) = (if i \<in> {8 * a..<8 * b} then v else bitmap al ! (i div 8))"
    if "i < 8 * length (bitmap al)" for i
  proof -
    have "i div 8 < length (bitmap al)"
      using that by (simp add: less_mult_imp_div_less mult.commute)
    from nth_fill [OF assms this, of v]
    show ?thesis
      by (auto simp: less_eq_div_iff_mult_less_eq div_less_iff_less_mult mult.commute)
  qed
  then show ?thesis
    using assms by (auto simp: allocated_def len split: if_splits)
qed

lemma byte_alignment:
  fixes s e :: nat
  assumes "8 \<le> e - s"
  defines "a \<equiv> s + (8 - s mod 8) mod 8" and "b \<equiv> e - e mod 8"
  shows "s \<le> a" "a \<le> b" "b \<le> e" "8 * (a div 8) = a" "8 * (b div 8) = b"
proof -
  define q r where "q = s div 8" and "r = s mod 8"
  have s: "s = 8 * q + r" "r < 8"
    by (simp_all add: q_def r_def)
  have a: "a = 8 * (if r = 0 then q else q + 1)"
    using s(2) by (auto simp: a_def s(1))
  have b: "b = 8 * (e div 8)"
    by (simp add: b_def minus_mod_eq_mult_div)
  show "s \<le> a" "b \<le> e" "8 * (a div 8) = a" "8 * (b div 8) = b"
    using s by (auto simp: a b)
  have "8 * q + 8 \<le> e"
    using assms(1) s by simp
  then have "q + 1 \<le> e div 8"
    by (simp add: less_eq_div_iff_mult_less_eq)
  then show "a \<le> b"
    by (simp add: a b)
qed

lemma flag_range_long:
  assumes "bitmap_ok al" "8 \<le> e - s" "e \<le> bits_size al * 8"
  shows "BitmapAllocator_flag_range (s, e) flg al =
     try_prog (for_each [s..<s + (8 - s mod 8) mod 8] (\<lambda>b. BitmapAllocator_flag b flg)) (\<lambda>_.
     try_prog (reads (\<lambda>self. fill_slice (bitmap self) ((s + (8 - s mod 8) mod 8) div 8)
                 ((e - e mod 8) div 8) (if flg then 0xFF else 0))) (\<lambda>bytes.
     try_prog (modifies (\<lambda>self. self\<lparr>bitmap := bytes\<rparr>)) (\<lambda>_.
     for_each [e - e mod 8..<e] (\<lambda>b. BitmapAllocator_flag b flg)))) al"
proof -
  have "s + (8 - s mod 8) mod 8 \<le> e"
    using byte_alignment(2,3) [OF assms(2)] by (rule order.trans)
  then have "s + (8 - s mod 8) mod 8 < 2 ^ 64"
    using assms(1,3) by (simp add: bitmap_ok_def)
  moreover have "s \<le> e"
    using assms(2) by simp
  ultimately show ?thesis
    using assms
    by (simp add: BitmapAllocator_flag_range_def range_in_bounds_ok sub64_def add64_def Let_def)
qed

text \<open>
  What \<open>flag_range\<close> does to the set of bits in use. Setting adds exactly the range; clearing a
  range of fewer than eight bits changes nothing, and clearing a longer one clears only its whole
  bytes.
\<close>

definition range_cleared :: "nat \<Rightarrow> nat \<Rightarrow> nat set" where
  "range_cleared s e = (if e - s < 8 then {} else {s + (8 - s mod 8) mod 8..<e - e mod 8})"

lemma flag_range_effect:
  assumes "bitmap_ok al" "s \<le> e" "e \<le> bits_size al"
  shows "\<exists>al'. BitmapAllocator_flag_range (s, e) flg al = (Ok (), al') \<and> same_shape al al' \<and>
     allocated al' = (if flg then allocated al \<union> {s..<e} else allocated al - range_cleared s e)"
proof (cases "e - s < 8")
  case True
  have "\<forall>b \<in> set [s..<e]. b < bits_size al"
    using assms(3) by auto
  from for_each_flag [OF assms(1) this, of flg] True assms show ?thesis
    by (auto simp: BitmapAllocator_flag_range_def range_in_bounds_ok range_cleared_def sub64_def)
next
  case False
  define a where "a = s + (8 - s mod 8) mod 8"
  define b where "b = e - e mod 8"
  have len: "8 \<le> e - s"
    using False by simp
  note al = byte_alignment [OF len, folded a_def b_def]
  have bytes: "a div 8 \<le> b div 8" "b div 8 \<le> length (bitmap al)"
    using al assms by (auto simp: bitmap_ok_def div_le_mono)
  have "\<forall>x \<in> set [s..<a]. x < bits_size al"
    using al assms(3) by auto
  from for_each_flag [OF assms(1) this, of flg] obtain al1 where
    al1: "for_each [s..<a] (\<lambda>x. BitmapAllocator_flag x flg) al = (Ok (), al1)" "same_shape al al1"
      "allocated al1 = (if flg then allocated al \<union> {s..<a} else allocated al)"
    by auto
  let ?v = "if flg then 0xFF else 0 :: u8"
  let ?bm = "take (a div 8) (bitmap al1) @ replicate (b div 8 - a div 8) ?v @ drop (b div 8) (bitmap al1)"
  let ?al2 = "al1\<lparr>bitmap := ?bm\<rparr>"
  have bytes1: "b div 8 \<le> length (bitmap al1)"
    using bytes al1(2) by (simp add: same_shape_def)
  have shape2: "same_shape al ?al2"
    using al1(2) bytes bytes1 by (simp add: same_shape_def)
  have set2: "allocated ?al2 = (allocated al1 - {a..<b}) \<union> {i \<in> {a..<b}. bit ?v (i mod 8)}"
    using allocated_fill [OF bytes(1) bytes1, of ?v] al by simp
  have "\<forall>x \<in> set [b..<e]. x < bits_size ?al2" "bitmap_ok ?al2"
    using assms shape2 same_shape_ok [OF shape2] by (auto simp: same_shape_def)
  from for_each_flag [OF this(2,1), of flg] obtain al3 where
    al3: "for_each [b..<e] (\<lambda>x. BitmapAllocator_flag x flg) ?al2 = (Ok (), al3)" "same_shape ?al2 al3"
      "allocated al3 = (if flg then allocated ?al2 \<union> {b..<e} else allocated ?al2)"
    by auto
  have "BitmapAllocator_flag_range (s, e) flg al = (Ok (), al3)"
    using flag_range_long [OF assms(1) len, of flg] assms al1(1) al3(1) bytes bytes1
    by (simp add: try_prog_def flip: a_def b_def)
  moreover have "same_shape al al3"
    using same_shape_trans [OF shape2 al3(2)] .
  moreover have "allocated al3 =
      (if flg then allocated al \<union> {s..<e} else allocated al - range_cleared s e)"
  proof (cases flg)
    case True
    with al al3(3) set2 al1(3) show ?thesis
      by auto
  next
    case nflg: False
    with al3(3) set2 al1(3) False show ?thesis
      by (simp add: range_cleared_def flip: a_def b_def)
  qed
  ultimately show ?thesis
    by blast
qed

section \<open>Checking\<close>

lemma check_ok:
  assumes "bitmap_ok al" "bt < bits_size al"
  shows "BitmapAllocator_check al bt st = Ok (st = (bt \<in> allocated al))"
proof -
  have "bt \<in> allocated al \<longleftrightarrow> bit (bitmap al ! (bt div 8)) (bt mod 8)"
    using assms by (simp add: allocated_def bitmap_ok_def)
  then show ?thesis
    using assms byte_in_bounds [OF assms]
    by (simp add: BitmapAllocator_check_def in_range_ok and_exp_eq_0_iff_not_bit)
qed

lemma check_bits_ok:
  assumes "bitmap_ok al" "\<forall>b \<in> set bs. b < bits_size al"
  shows "check_bits al bs st c = Ok (c \<and> (\<forall>b \<in> set bs. st = (b \<in> allocated al)))"
  using assms by (induction bs arbitrary: c) (auto simp: check_ok)

lemma check_bytes_iff: "check_bytes bs t c \<longleftrightarrow> c \<and> (\<forall>b \<in> set bs. b = t)"
  by (induction bs arbitrary: c) auto

lemma byte_uniform:
  assumes "k < length (bitmap al)"
  shows "bitmap al ! k = (if st then 0xFF else 0) \<longleftrightarrow>
    (\<forall>i \<in> {8 * k..<8 * k + 8}. st = (i \<in> allocated al))"
proof -
  have "(\<forall>i \<in> {8 * k..<8 * k + 8}. st = (i \<in> allocated al)) \<longleftrightarrow>
      (\<forall>j < 8. st = bit (bitmap al ! k) j)"
  proof (rule iffI; intro allI ballI impI)
    fix j :: nat assume h: "\<forall>i \<in> {8 * k..<8 * k + 8}. st = (i \<in> allocated al)" and j: "j < 8"
    have "(8 * k + j) div 8 = k" "(8 * k + j) mod 8 = j" "8 * k + j < 8 * length (bitmap al)"
      using j assms by auto
    then show "st = bit (bitmap al ! k) j"
      using h [rule_format, of "8 * k + j"] j by (simp add: allocated_def)
  next
    fix i assume h: "\<forall>j < 8. st = bit (bitmap al ! k) j" and i: "i \<in> {8 * k..<8 * k + 8}"
    have "i div 8 = k" "i < 8 * length (bitmap al)"
      using i assms by auto
    then show "st = (i \<in> allocated al)"
      using h by (simp add: allocated_def)
  qed
  then show ?thesis
    by (cases st) (auto simp: u8_eq_0xFF_iff u8_eq_0_iff)
qed

lemma bytes_uniform:
  assumes "a \<le> b" "b \<le> length (bitmap al)"
  shows "(\<forall>k \<in> {a..<b}. bitmap al ! k = (if st then 0xFF else 0)) \<longleftrightarrow>
    (\<forall>i \<in> {8 * a..<8 * b}. st = (i \<in> allocated al))"
proof (rule iffI; intro ballI)
  fix i assume h: "\<forall>k \<in> {a..<b}. bitmap al ! k = (if st then 0xFF else 0)"
    and i: "i \<in> {8 * a..<8 * b}"
  have "i div 8 \<in> {a..<b}" "i div 8 < length (bitmap al)" "i \<in> {8 * (i div 8)..<8 * (i div 8) + 8}"
    using i assms by auto
  then show "st = (i \<in> allocated al)"
    using h byte_uniform [of "i div 8" al st] by blast
next
  fix k assume h: "\<forall>i \<in> {8 * a..<8 * b}. st = (i \<in> allocated al)" and k: "k \<in> {a..<b}"
  have "{8 * k..<8 * k + 8} \<subseteq> {8 * a..<8 * b}"
    using k by auto
  then show "bitmap al ! k = (if st then 0xFF else 0)"
    using h k assms byte_uniform [of k al st] by auto
qed

lemma check_range_effect:
  assumes "bitmap_ok al" "s \<le> e" "e \<le> bits_size al"
  shows "BitmapAllocator_check_range al (s, e) st = Ok (\<forall>i \<in> {s..<e}. st = (i \<in> allocated al))"
proof (cases "e - s < 8")
  case True
  with assms show ?thesis
    by (simp add: BitmapAllocator_check_range_def range_in_bounds_ok check_bits_ok sub64_def)
next
  case False
  define a where "a = s + (8 - s mod 8) mod 8"
  define b where "b = e - e mod 8"
  have "8 \<le> e - s"
    using False by simp
  note al = byte_alignment [OF this, folded a_def b_def]
  have bytes: "a div 8 \<le> b div 8" "b div 8 \<le> length (bitmap al)"
    using al assms by (auto simp: bitmap_ok_def div_le_mono)
  have e64: "e < 2 ^ 64"
    using assms by (simp add: bitmap_ok_def)
  have parts: "check_bits al [s..<a] st True = Ok (\<forall>i \<in> {s..<a}. st = (i \<in> allocated al))"
    "check_bits al [b..<e] st c = Ok (c \<and> (\<forall>i \<in> {b..<e}. st = (i \<in> allocated al)))" for c
    using al assms by (auto simp: check_bits_ok)
  have middle: "(\<forall>x \<in> set (take (b div 8 - a div 8) (drop (a div 8) (bitmap al))).
      x = (if st then 0xFF else 0)) \<longleftrightarrow> (\<forall>i \<in> {a..<b}. st = (i \<in> allocated al))"
    using bytes_uniform [OF bytes, of st] al by (simp add: set_range_slice [OF bytes])
  have split: "{s..<e} = {s..<a} \<union> {a..<b} \<union> {b..<e}"
    using al by auto
  show ?thesis
    using False assms al e64 bytes
    by (simp add: BitmapAllocator_check_range_def range_in_bounds_ok sub64_def add64_def parts
        check_bytes_iff middle split ball_Un flip: a_def b_def)
qed

section \<open>A range past the end of the bitmap\<close>

text \<open>
  The bound checks compare with eight times the number of bits, so a range past the end of the slice
  passes them; what stops it is the slice access. A marking that returns \<open>Ok\<close> lies in the bitmap.
\<close>

text \<open>Whatever the outcome, marking changes bits only.\<close>

lemma flag_shape: "same_shape al (snd (BitmapAllocator_flag bt flg al))"
  by (auto simp: BitmapAllocator_flag_def same_shape_def split: outcome.splits)

lemma flag_range_shape: "same_shape al (snd (BitmapAllocator_flag_range rng flg al))"
proof -
  have loop: "same_shape al (snd (for_each bs (\<lambda>b. BitmapAllocator_flag b flg) al'))"
    if "same_shape al al'" for bs al'
    using that by (rule for_each_invariant) (blast intro: same_shape_trans flag_shape)
  have fill: "same_shape al (al'\<lparr>bitmap := bs\<rparr>)"
    if "same_shape al al'" "fill_slice (bitmap al') a b v = (Ok bs :: (MemoryError, u8 list) outcome)" for al' bs a b v
    using that by (auto simp: same_shape_def fill_slice_def split: if_splits)
  have tail: "same_shape al (snd (try_prog (reads (\<lambda>self. fill_slice (bitmap self) a b v)) (\<lambda>bytes.
      try_prog (modifies (\<lambda>self. self\<lparr>bitmap := bytes\<rparr>)) (\<lambda>_.
      for_each bs (\<lambda>b. BitmapAllocator_flag b flg))) al'))" if "same_shape al al'" for al' a b v bs
    by (cases "fill_slice (bitmap al') a b v :: (MemoryError, u8 list) outcome")
      (simp_all add: loop fill that)
  have long: "same_shape al (snd (try_prog (for_each bs (\<lambda>b. BitmapAllocator_flag b flg)) (\<lambda>_.
      try_prog (reads (\<lambda>self. fill_slice (bitmap self) a b v)) (\<lambda>bytes.
      try_prog (modifies (\<lambda>self. self\<lparr>bitmap := bytes\<rparr>)) (\<lambda>_.
      for_each cs (\<lambda>b. BitmapAllocator_flag b flg)))) al))" for a b v bs cs
    by (rule try_prog_snd) (rule loop tail, (rule loop)?, rule same_shape_refl)+
  obtain fv :: u8 where fv: "(if flg then 0xFF else 0) = fv"
    by blast
  show ?thesis
    unfolding BitmapAllocator_flag_range_def Let_def fv try_prog_reads [where s = al]
    by (auto simp: loop long simp del: try_prog_modifies split: outcome.split)
qed

lemma flag_OkD:
  assumes "bitmap_ok al" "BitmapAllocator_flag bt flg al = (Ok (), al')"
  shows "bt < bits_size al \<and> same_shape al al'"
  using assms
  by (auto simp: BitmapAllocator_flag_def in_range_ok index_slice_def bitmap_ok_def same_shape_def
      div_less_iff_less_mult mult.commute split: outcome.splits if_splits)

lemma for_each_flag_OkD:
  assumes "bitmap_ok al" "for_each bs (\<lambda>b. BitmapAllocator_flag b flg) al = (Ok (), al')"
  shows "(\<forall>b \<in> set bs. b < bits_size al) \<and> same_shape al al'"
  using assms
proof (induction bs arbitrary: al)
  case (Cons b bs)
  from Cons.prems(2) obtain al1 where step: "BitmapAllocator_flag b flg al = (Ok (), al1)"
    and rest: "for_each bs (\<lambda>b. BitmapAllocator_flag b flg) al1 = (Ok (), al')"
    by (auto elim: try_prog_OkE)
  from flag_OkD [OF Cons.prems(1) step] have b: "b < bits_size al" "same_shape al al1"
    by auto
  with Cons.IH [OF _ rest] Cons.prems(1) same_shape_ok [OF b(2)] have "\<forall>x \<in> set bs. x < bits_size al1" "same_shape al1 al'"
    by auto
  with b show ?case
    by (auto simp: same_shape_def)
qed simp

lemma flag_range_OkD:
  assumes ok: "bitmap_ok al" and run: "BitmapAllocator_flag_range (s, e) flg al = (Ok (), al')"
    and "s < e"
  shows "e \<le> bits_size al"
proof (cases "e - s < 8")
  case True
  with run \<open>s < e\<close> have "for_each [s..<e] (\<lambda>b. BitmapAllocator_flag b flg) al = (Ok (), al')"
    by (auto simp: BitmapAllocator_flag_range_def range_in_bounds_ok ok sub64_def split: if_splits)
  from for_each_flag_OkD [OF ok this] \<open>s < e\<close> show ?thesis
    by (cases e) auto
next
  case False
  define a where "a = s + (8 - s mod 8) mod 8"
  define b where "b = e - e mod 8"
  have "e \<le> bits_size al * 8"
    using run by (rule contrapos_pp) (simp add: BitmapAllocator_flag_range_def range_in_bounds_ok ok)
  moreover have "8 \<le> e - s"
    using False by simp
  ultimately have long: "try_prog (for_each [s..<a] (\<lambda>b. BitmapAllocator_flag b flg)) (\<lambda>_.
     try_prog (reads (\<lambda>self. fill_slice (bitmap self) (a div 8) (b div 8)
       (if flg then 0xFF else 0))) (\<lambda>bytes.
     try_prog (modifies (\<lambda>self. self\<lparr>bitmap := bytes\<rparr>)) (\<lambda>_.
     for_each [b..<e] (\<lambda>b. BitmapAllocator_flag b flg)))) al = (Ok (), al')"
    using run flag_range_long [OF ok, of e s flg] unfolding a_def b_def by simp
  obtain al1 where al1: "for_each [s..<a] (\<lambda>b. BitmapAllocator_flag b flg) al = (Ok (), al1)"
    and rest: "try_prog (reads (\<lambda>self. fill_slice (bitmap self) (a div 8) (b div 8)
       (if flg then 0xFF else 0))) (\<lambda>bytes.
     try_prog (modifies (\<lambda>self. self\<lparr>bitmap := bytes\<rparr>)) (\<lambda>_.
     for_each [b..<e] (\<lambda>b. BitmapAllocator_flag b flg))) al1 = (Ok (), al')"
    by (rule try_unit_OkE [OF long])
  obtain bytes where
    fill: "fill_slice (bitmap al1) (a div 8) (b div 8) (if flg then 0xFF else 0) =
      (Ok bytes :: (MemoryError, u8 list) outcome)"
    and "try_prog (modifies (\<lambda>self. self\<lparr>bitmap := bytes\<rparr>)) (\<lambda>_.
     for_each [b..<e] (\<lambda>b. BitmapAllocator_flag b flg)) al1 = (Ok (), al')"
    by (rule try_reads_OkE [OF rest])
  then have tail:
    "for_each [b..<e] (\<lambda>b. BitmapAllocator_flag b flg) (al1\<lparr>bitmap := bytes\<rparr>) = (Ok (), al')"
    by simp
  have shape: "same_shape al (al1\<lparr>bitmap := bytes\<rparr>)"
    using for_each_flag_OkD [OF ok al1] fill
    by (auto simp: fill_slice_def same_shape_def split: if_splits)
  from for_each_flag_OkD [OF _ tail] same_shape_ok [OF shape] ok
  have "\<forall>x \<in> set [b..<e]. x < bits_size (al1\<lparr>bitmap := bytes\<rparr>)"
    by simp
  then have tail_in: "\<forall>x \<in> set [b..<e]. x < bits_size al"
    using shape by (simp add: same_shape_def)
  show ?thesis
  proof (cases "b < e")
    case True
    then show ?thesis
      using tail_in by (cases e) auto
  next
    case nless: False
    have "b div 8 \<le> length (bitmap al)"
      using fill for_each_flag_OkD [OF ok al1] by (auto simp: fill_slice_def same_shape_def split: if_splits)
    moreover have "8 * (b div 8) = b" "b = e"
      using nless by (auto simp: b_def minus_mod_eq_mult_div)
    ultimately show ?thesis
      using ok by (simp add: bitmap_ok_def)
  qed
qed

section \<open>Scanning bit by bit\<close>

text \<open>
  The scan reads bit \<open>c\<close> at byte \<open>(c / 8) % (size / 8)\<close>: positions past the end wrap around to the
  start of the bitmap.
\<close>

lemma flag_range_marked:
  assumes ok: "bitmap_ok al" and run: "BitmapAllocator_flag_range (s, e) True al = (Ok (), al')"
  shows "bitmap_ok al' \<and> {s..<e} \<subseteq> allocated al'"
proof (cases "s < e")
  case True
  then have "e \<le> bits_size al"
    by (rule flag_range_OkD [OF ok run])
  then show ?thesis
    using flag_range_effect [OF ok, of s e True] run True same_shape_ok [of al al'] ok by auto
next
  case False
  then show ?thesis
    using flag_range_shape [of al "(s, e)" True] run same_shape_ok [of al al'] ok by auto
qed

definition taken_at :: "u8 list \<Rightarrow> nat \<Rightarrow> bool" where
  "taken_at bm c \<longleftrightarrow> bit (bm ! (c div 8 mod length bm)) (c mod 8)"

lemma taken_at_iff:
  "c < 8 * length (bitmap al) \<Longrightarrow> taken_at (bitmap al) c \<longleftrightarrow> c \<in> allocated al"
  by (simp add: taken_at_def allocated_def less_mult_imp_div_less mult.commute)

lemma scan_bits_run_spec:
  assumes "0 < length bm" "target < 2 ^ 64" "lim < 2 ^ 64" "found \<le> target" "current \<le> lim"
  shows "\<exists>acc found' current'.
    scan_bits_run bm (8 * length bm) target lim 0 found current = Ok (acc, found', current') \<and>
    current' + found = current + found' \<and> current \<le> current' \<and> current' \<le> lim \<and> found' \<le> target \<and>
    (if acc = 0 then (\<forall>i \<in> {current..<current'}. \<not> taken_at bm i) \<and> (found' = target \<or> current' = lim)
     else current < current' \<and> taken_at bm (current' - 1))"
  using assms(4,5)
proof (induction "lim - current" arbitrary: current found)
  case 0
  then have "current = lim"
    by simp
  then show ?case
    using 0 by (simp add: scan_bits_run.simps)
next
  case (Suc n)
  show ?case
  proof (cases "found < target")
    case False
    then show ?thesis
      using Suc.prems by (simp add: scan_bits_run.simps)
  next
    case True
    let ?byte = "bm ! (current div 8 mod length bm)"
    define acc where "acc = ?byte AND push_bit (current mod 8) 1"
    have acc: "acc = 0 \<longleftrightarrow> \<not> taken_at bm current"
      by (simp add: acc_def taken_at_def and_exp_eq_0_iff_not_bit)
    have lt: "current < lim"
      using Suc.hyps(2) by simp
    have step: "scan_bits_run bm (8 * length bm) target lim 0 found current =
        scan_bits_run bm (8 * length bm) target lim acc (found + 1) (current + 1)"
      using assms(1-3) True lt
      by (subst scan_bits_run.simps) (simp add: rem64_def add64_def acc_def)
    show ?thesis
    proof (cases "taken_at bm current")
      case taken: True
      then have "scan_bits_run bm (8 * length bm) target lim 0 found current =
          Ok (acc, found + 1, current + 1)"
        using acc step by (simp add: scan_bits_run.simps [of bm _ _ _ acc])
      then show ?thesis
        using acc taken lt True by simp
    next
      case free: False
      have zero: "acc = 0"
        using acc free by simp
      have "n = lim - (current + 1)" "found + 1 \<le> target" "current + 1 \<le> lim"
        using Suc.hyps(2) True lt by auto
      from Suc.hyps(1) [OF this] obtain acc' found' current' where
        rec: "scan_bits_run bm (8 * length bm) target lim 0 (found + 1) (current + 1) =
            Ok (acc', found', current')"
        and res: "current' + (found + 1) = current + 1 + found'" "current + 1 \<le> current'"
          "current' \<le> lim" "found' \<le> target"
          "if acc' = 0 then (\<forall>i \<in> {current + 1..<current'}. \<not> taken_at bm i) \<and>
             (found' = target \<or> current' = lim)
           else current + 1 < current' \<and> taken_at bm (current' - 1)"
        by blast
      have "{current..<current'} = insert current {current + 1..<current'}"
        using res(2) by auto
      then show ?thesis
        using step rec res free by (auto simp: zero)
    qed
  qed
qed

text \<open>
  Position \<open>q\<close> is blocked when a bit in use lies among the \<open>target\<close> bits from \<open>q\<close> on. A scan
  returns the first position that is not blocked, and fails when there is none.
\<close>

definition blocked :: "u8 list \<Rightarrow> nat \<Rightarrow> nat \<Rightarrow> nat \<Rightarrow> bool" where
  "blocked bm target lim q \<longleftrightarrow> (\<exists>i. q \<le> i \<and> i < q + target \<and> i < lim \<and> taken_at bm i)"

definition first_fit ::
    "u8 list \<Rightarrow> nat \<Rightarrow> nat \<Rightarrow> nat \<Rightarrow> (MemoryError, u64) outcome \<Rightarrow> bool" where
  "first_fit bm target lim start r = (case r of
      Ok p \<Rightarrow> start \<le> p \<and> p < lim \<and> \<not> blocked bm target lim p \<and>
        (\<forall>q \<in> {start..<p}. blocked bm target lim q)
    | Err e \<Rightarrow> e = AllocationError \<and> (\<forall>q \<in> {start..<lim}. blocked bm target lim q)
    | Panic p \<Rightarrow> False)"

lemma first_fit_skip:
  assumes "first_fit bm target lim c' r" "c \<le> c'" "\<forall>q \<in> {c..<c'}. blocked bm target lim q"
  shows "first_fit bm target lim c r"
proof -
  have "\<forall>q \<in> {c..<p}. blocked bm target lim q" if "\<forall>q \<in> {c'..<p}. blocked bm target lim q" for p
    using that assms(3) by (metis atLeastLessThan_iff linorder_not_le)
  then show ?thesis
    using assms(1,2) by (auto simp: first_fit_def split: outcome.splits)
qed

lemma scan_bits_from_first_fit:
  assumes "0 < length bm" "target < 2 ^ 64" "lim < 2 ^ 64"
  shows "first_fit bm target lim current (scan_bits_from bm (8 * length bm) target lim current)"
proof (induction "lim - current" arbitrary: current rule: less_induct)
  case less
  show ?case
  proof (cases "current < lim")
    case False
    then show ?thesis
      by (auto simp: scan_bits_from.simps first_fit_def)
  next
    case True
    from scan_bits_run_spec [OF assms, of 0 current] True obtain acc found current' where
      run: "scan_bits_run bm (8 * length bm) target lim 0 0 current = Ok (acc, found, current')"
      and res: "current' = current + found" "current' \<le> lim" "found \<le> target"
      and fin: "if acc = 0 then (\<forall>i \<in> {current..<current'}. \<not> taken_at bm i) \<and>
             (found = target \<or> current' = lim)
           else current < current' \<and> taken_at bm (current' - 1)"
      by auto
    show ?thesis
    proof (cases "acc = 0")
      case zero: True
      then have "scan_bits_from bm (8 * length bm) target lim current = Ok current"
        using True run res by (subst scan_bits_from.simps) (simp add: sub64_def)
      moreover have "\<not> blocked bm target lim current"
        using fin zero res by (auto simp: blocked_def)
      ultimately show ?thesis
        using True by (simp add: first_fit_def)
    next
      case nonzero: False
      have hit: "current < current'" "taken_at bm (current' - 1)"
        using fin nonzero by auto
      have "\<forall>q \<in> {current..<current'}. blocked bm target lim q"
        using hit res by (auto simp: blocked_def intro!: exI [of _ "current' - 1"])
      moreover have "scan_bits_from bm (8 * length bm) target lim current =
          scan_bits_from bm (8 * length bm) target lim current'"
        using True run nonzero by (subst scan_bits_from.simps) simp
      moreover have "first_fit bm target lim current' (scan_bits_from bm (8 * length bm) target lim current')"
        using less.hyps [of current'] hit True by simp
      ultimately show ?thesis
        using hit(1) by (auto intro: first_fit_skip)
    qed
  qed
qed

section \<open>Allocation of at most sixteen bits\<close>

definition round_up_8 :: "nat \<Rightarrow> nat" where
  "round_up_8 n = (n + 7) div 8 * 8"

lemma round_up_8_bounds: "n \<le> round_up_8 n" "round_up_8 n < n + 8" "8 dvd round_up_8 n"
proof -
  have eq: "round_up_8 n + (n + 7) mod 8 = n + 7"
    by (simp add: round_up_8_def)
  have lt: "(n + 7) mod 8 < 8"
    by simp
  show "n \<le> round_up_8 n" "round_up_8 n < n + 8"
    using eq lt by linarith+
  show "8 dvd round_up_8 n"
    by (simp add: round_up_8_def)
qed

lemma blocked_in_bitmap:
  assumes "bitmap_ok al" "q + target \<le> bits_size al"
  shows "blocked (bitmap al) target (bits_size al * 8) q \<longleftrightarrow> {q..<q + target} \<inter> allocated al \<noteq> {}"
proof -
  have eq: "taken_at (bitmap al) i \<longleftrightarrow> i \<in> allocated al" if "i < q + target" for i
    using that assms by (intro taken_at_iff) (simp add: bitmap_ok_def)
  have "i < bits_size al * 8" if "i < q + target" for i
    using that assms by (simp add: bitmap_ok_def)
  with eq show ?thesis
    by (auto simp: blocked_def)
qed

context x86_64_crate
begin

lemma scan_small:
  assumes "bitmap_ok al" "bits \<le> 16" "bits < bits_size al"
  shows "first_fit (bitmap al) (round_up_8 bits) (bits_size al * 8) (last_allocated al)
    (BitmapAllocator_scan X al bits)"
proof -
  have "round_up_8 bits < 2 ^ 64"
    using round_up_8_bounds(2) [of bits] assms(2) by simp
  then have al: "align_up X bits 8 = Some (round_up_8 bits)"
    by (simp add: round_up_8_def align_up_8)
  have lim: "bits_size al * 8 < 2 ^ 64" and sz: "bits_size al = 8 * length (bitmap al)"
    and ne: "0 < length (bitmap al)"
    using assms by (auto simp: bitmap_ok_def)
  have "BitmapAllocator_scan X al bits =
      scan_bits_from (bitmap al) (bits_size al) (round_up_8 bits) (bits_size al * 8) (last_allocated al)"
    using assms lim by (simp add: BitmapAllocator_scan_def BitmapAllocator_scan_bits_def al mul64_def)
  then show ?thesis
    using scan_bits_from_first_fit [OF ne \<open>round_up_8 bits < 2 ^ 64\<close> lim] sz by simp
qed

lemma alloc_Ok_scan:
  assumes "BitmapAllocator_alloc X bits al = (Ok p, al')"
  shows "BitmapAllocator_scan X al bits = Ok p"
    "BitmapAllocator_flag_range (p, p + bits) True (al\<lparr>last_allocated := p + bits\<rparr>) = (Ok (), al')"
  using assms
  by (auto simp: BitmapAllocator_alloc_def try_prog_Ok_iff add64_def split: outcome.splits if_splits)

lemma alloc_marks:
  assumes ok: "bitmap_ok al" and scan: "BitmapAllocator_scan X al bits = Ok p"
    and fits: "p + bits \<le> bits_size al"
  obtains al' where "BitmapAllocator_alloc X bits al = (Ok p, al')" "bitmap_ok al'"
    "bits_size al' = bits_size al" "last_allocated al' = p + bits"
    "allocated al' = allocated al \<union> {p..<p + bits}"
proof -
  let ?al = "al\<lparr>last_allocated := p + bits\<rparr>"
  have ok': "bitmap_ok ?al" and same: "allocated ?al = allocated al"
    using ok by (simp_all add: bitmap_ok_def allocated_def)
  have "p + bits < 2 ^ 64"
    using ok fits by (simp add: bitmap_ok_def)
  moreover from flag_range_effect [OF ok', of p "p + bits" True] fits obtain al' where
    "BitmapAllocator_flag_range (p, p + bits) True ?al = (Ok (), al')" "same_shape ?al al'"
    "allocated al' = allocated al \<union> {p..<p + bits}"
    by (auto simp: same)
  ultimately show thesis
    using that [of al'] scan ok' same_shape_ok [of ?al al']
    by (simp add: BitmapAllocator_alloc_def add64_def try_prog_def same_shape_def)
qed

lemma alloc_small_sound:
  assumes ok: "bitmap_ok al" and bits: "0 < bits" "bits \<le> 16"
    and run: "BitmapAllocator_alloc X bits al = (Ok p, al')"
  shows "last_allocated al \<le> p \<and> p + bits \<le> bits_size al \<and> {p..<p + bits} \<inter> allocated al = {} \<and>
    allocated al' = allocated al \<union> {p..<p + bits} \<and> last_allocated al' = p + bits \<and>
    bits_size al' = bits_size al \<and> bitmap_ok al'"
proof -
  note scan = alloc_Ok_scan [OF run]
  have ok': "bitmap_ok (al\<lparr>last_allocated := p + bits\<rparr>)"
    using ok by (simp add: bitmap_ok_def)
  have fits: "p + bits \<le> bits_size al"
    using flag_range_OkD [OF ok' scan(2)] bits by simp
  from alloc_marks [OF ok scan(1) fits] run have marked: "bitmap_ok al'"
      "bits_size al' = bits_size al" "last_allocated al' = p + bits"
      "allocated al' = allocated al \<union> {p..<p + bits}"
    by (metis Pair_inject)+
  have "bits < bits_size al"
    using scan(1) by (auto simp: BitmapAllocator_scan_def not_le split: if_splits)
  from scan_small [OF ok bits(2) this] scan(1)
  have first: "last_allocated al \<le> p" "\<not> blocked (bitmap al) (round_up_8 bits) (bits_size al * 8) p"
    by (auto simp: first_fit_def)
  have "\<not> blocked (bitmap al) bits (bits_size al * 8) p"
    using first(2) round_up_8_bounds(1) [of bits] unfolding blocked_def
    by (meson add_left_mono order_less_le_trans)
  then show ?thesis
    using first(1) fits marked blocked_in_bitmap [OF ok fits] by simp
qed

lemma alloc_small_complete:
  assumes ok: "bitmap_ok al" and bits: "bits \<le> 16" "bits < bits_size al"
    and room: "last_allocated al \<le> q" "q + round_up_8 bits \<le> bits_size al"
      "{q..<q + round_up_8 bits} \<inter> allocated al = {}"
  shows "\<exists>p al'. BitmapAllocator_alloc X bits al = (Ok p, al') \<and> p \<le> q"
proof -
  let ?lim = "bits_size al * 8"
  note fit = scan_small [OF ok bits]
  have free: "\<not> blocked (bitmap al) (round_up_8 bits) ?lim q"
    using blocked_in_bitmap [OF ok room(2)] room(3) by simp
  have "0 < bits_size al"
    using bits(2) by simp
  then have q: "q < ?lim"
    using room(2) by simp
  from fit free room(1) q obtain p where
    p: "BitmapAllocator_scan X al bits = Ok p" "p \<le> q"
    by (cases "BitmapAllocator_scan X al bits") (auto simp: first_fit_def not_le)
  have "p + bits \<le> bits_size al"
    using p(2) room(2) round_up_8_bounds(1) [of bits] by simp
  from alloc_marks [OF ok p(1) this] p(2) show ?thesis
    by metis
qed

end

section \<open>A full bitmap\<close>

definition bitmap_full :: "BitmapAllocator \<Rightarrow> bool" where
  "bitmap_full al \<longleftrightarrow> bitmap_ok al \<and> allocated al = {..<bits_size al}"

lemma bitmap_full_bytes:
  assumes "bitmap_full al" "k < length (bitmap al)"
  shows "bitmap al ! k = 0xFF"
proof -
  have "\<forall>i \<in> {8 * k..<8 * k + 8}. True = (i \<in> allocated al)"
    using assms by (auto simp: bitmap_full_def bitmap_ok_def)
  with byte_uniform [OF assms(2), of True] show ?thesis
    by simp
qed

lemma scan_bytes_full:
  assumes "\<forall>k < length bm. bm ! k = 0xFF" "0 < target"
  shows "scan_bytes_from bm sz target current \<noteq> Ok p"
proof (induction "sz - current" arbitrary: current rule: less_induct)
  case less
  show ?case
  proof (cases "current < sz \<and> current < length bm \<and> current + 8 < 2 ^ 64")
    case True
    then have "scan_bytes_run bm sz target 0 0 current = Ok (0xFF, 1, current + 8)"
      using assms by (simp add: scan_bytes_run.simps rem64_def add64_def)
    then have "scan_bytes_from bm sz target current = scan_bytes_from bm sz target (current + 8)"
      using True by (subst scan_bytes_from.simps) simp
    moreover have "sz - (current + 8) < sz - current"
      using True by auto
    ultimately show ?thesis
      using less.hyps [of "current + 8"] by simp
  next
    case False
    then show ?thesis
      using assms(2)
      by (subst scan_bytes_from.simps, subst scan_bytes_run.simps)
        (auto simp: rem64_def add64_def index_slice_def)
  qed
qed

lemma full_not_free:
  assumes "bitmap_full al" "0 < bits_size al" "0 < target" "q < lim"
  shows "blocked (bitmap al) target lim q"
proof -
  have "0 < length (bitmap al)"
    using assms(1,2) by (auto simp: bitmap_full_def bitmap_ok_def)
  then have "q div 8 mod length (bitmap al) < length (bitmap al)"
    by simp
  then have "taken_at (bitmap al) q"
    using bitmap_full_bytes [OF assms(1)] by (simp add: taken_at_def)
  then show ?thesis
    using assms(3,4) by (auto simp: blocked_def intro!: exI [of _ q])
qed

context x86_64_crate
begin

lemma scan_full:
  assumes full: "bitmap_full al" and "0 < bits"
  shows "BitmapAllocator_scan X al bits \<noteq> Ok p"
proof (cases "bits < bits_size al \<and> bits \<le> 16")
  case True
  have "bitmap_ok al"
    using full by (simp add: bitmap_full_def)
  from scan_small [OF this] True have
    "first_fit (bitmap al) (round_up_8 bits) (bits_size al * 8) (last_allocated al)
      (BitmapAllocator_scan X al bits)"
    by blast
  moreover have "blocked (bitmap al) (round_up_8 bits) (bits_size al * 8) q"
    if "q < bits_size al * 8" for q
    using full_not_free [OF full _ _ that] True round_up_8_bounds(1) [of bits] \<open>0 < bits\<close> by simp
  ultimately show ?thesis
    by (auto simp: first_fit_def)
next
  case False
  then show ?thesis
    using scan_bytes_full [of "bitmap al" bits] bitmap_full_bytes [OF full] \<open>0 < bits\<close>
    by (auto simp: BitmapAllocator_scan_def BitmapAllocator_scan_bytes_def try_outcome_Ok_iff)
qed

lemma alloc_full:
  assumes "bitmap_full al" "0 < bits"
  shows "fst (BitmapAllocator_alloc X bits al) \<noteq> Ok p"
  using scan_full [OF assms] alloc_Ok_scan(1) [of bits al p]
  by (metis prod.collapse)

lemma new_effect:
  assumes "frame_address base" "base + size_in_pages n * 4096 < 2 ^ 52"
    and "canonical (base + off)" "n < 2 ^ 50"
  shows "\<exists>al. BitmapAllocator_new X off n init base = (Ok al, base + size_in_pages n * 4096) \<and>
    bitmap_ok al \<and> bits_size al = 8 * n \<and> last_allocated al = 0 \<and>
    allocated al = (if init then {..<8 * n} else {})"
proof -
  have "base + off < 2 ^ 64"
    using assms(3) by (auto simp: canonical_def)
  moreover have "size_in_pages n * 4096 < 2 ^ 64"
    using assms(2) by simp
  moreover have "allocated \<lparr>bitmap = replicate n v, bits_size = k, last_allocated = l\<rparr> =
      {i \<in> {..<8 * n}. bit v (i mod 8)}" for v k l
    by (auto simp: allocated_def less_mult_imp_div_less mult.commute)
  ultimately show ?thesis
    using assms
    by (auto simp: BitmapAllocator_new_def Let_def LinearFrameAllocator_alloc_contiguous_eq try_prog_def
        add64_def mul64_def VirtAddr_new bitmap_ok_def)
qed

end

section \<open>Releasing\<close>

lemma free_effect:
  assumes "bitmap_ok al"
  shows "BitmapAllocator_free bt al =
    (if bits_size al \<le> bt then (Err OutOfBounds, al)
     else if bt \<in> allocated al then (Err DoubleFree, al)
     else (Ok (), al))"
  using assms
  by (auto simp: BitmapAllocator_free_def check_ok flag_ok not_le try_prog_def)

lemma free_range_not_Ok: "fst (BitmapAllocator_free_range rng al) \<noteq> Ok ()"
  by (auto simp: BitmapAllocator_free_range_def try_prog_def split: outcome.splits prod.splits)

section \<open>Requests for more than sixteen bits\<close>

text \<open>
  \<open>scan_bytes\<close> takes the position in bits for the index of a byte: from the position \<open>p\<close> it reads the bytes
  number \<open>p\<close>, \<open>p + 8\<close> and so on, one for every requested bit.
\<close>

definition bytes_read_free :: "u8 list \<Rightarrow> u64 \<Rightarrow> u64 \<Rightarrow> bool" where
  "bytes_read_free bm target p \<longleftrightarrow> (\<forall>k < target. p + 8 * k < length bm \<and> bm ! (p + 8 * k) = 0)"

lemma scan_bytes_run_free:
  assumes "bytes_read_free bm (target - found) current" "found \<le> target" "length bm \<le> sz" "sz + 8 < 2 ^ 64" "target < 2 ^ 64"
  shows "scan_bytes_run bm sz target 0 found current = Ok (0, target, current + 8 * (target - found))"
  using assms
proof (induction "target - found" arbitrary: found current)
  case 0
  then show ?case
    by (subst scan_bytes_run.simps) simp
next
  case (Suc n)
  have now: "current < length bm" "bm ! current = 0"
    using Suc.prems(1) Suc.hyps(2) by (auto simp: bytes_read_free_def dest: spec [of _ 0])
  have "bytes_read_free bm (target - (found + 1)) (current + 8)"
    unfolding bytes_read_free_def
  proof (intro allI impI)
    fix k assume "k < target - (found + 1)"
    then have "Suc k < target - found"
      by simp
    then have "current + 8 * Suc k < length bm \<and> bm ! (current + 8 * Suc k) = 0"
      using Suc.prems(1) unfolding bytes_read_free_def by blast
    then show "current + 8 + 8 * k < length bm \<and> bm ! (current + 8 + 8 * k) = 0"
      by (simp add: add.assoc)
  qed
  then have "scan_bytes_run bm sz target 0 (found + 1) (current + 8) = Ok (0, target, current + 8 + 8 * (target - (found + 1)))"
    using Suc.hyps(2) Suc.prems by (intro Suc.hyps(1)) auto
  moreover have "current + 8 + 8 * (target - (found + 1)) = current + 8 * (target - found)"
    using Suc.hyps(2) by auto
  ultimately show ?case
    using Suc.hyps(2) Suc.prems now by (subst scan_bytes_run.simps) (auto simp: rem64_def add64_def)
qed

lemma scan_bytes_run_reads:
  assumes "scan_bytes_run bm sz target acc found current = Ok (0, found', current')" "length bm \<le> sz" "found \<le> target"
  shows "\<exists>n. found' = found + n \<and> found' \<le> target \<and> current' = current + 8 * n \<and> bytes_read_free bm n current \<and>
    (found' = target \<or> sz \<le> current')"
  using assms
proof (induction bm sz target acc found current rule: scan_bytes_run.induct)
  case (1 bm sz target acc found current)
  show ?case
  proof (cases "acc = 0 \<and> found < target \<and> current < sz")
    case True
    obtain i byte acc1 found1 current1 where step:
      "rem64 current sz = (Ok i :: (MemoryError, u64) outcome)"
      "index_slice bm i = (Ok byte :: (MemoryError, u8) outcome)"
      "add8 acc byte = (Ok acc1 :: (MemoryError, u8) outcome)"
      "add64 found 1 = (Ok found1 :: (MemoryError, u64) outcome)"
      "add64 current 8 = (Ok current1 :: (MemoryError, u64) outcome)"
      and rest: "scan_bytes_run bm sz target acc1 found1 current1 = Ok (0, found', current')"
      using scan_bytes_run_stepE [OF "1.prems"(1) True] by metis
    have next_step: "found1 = found + 1" "current1 = current + 8" "acc1 = byte" "i = current"
      using step True by simp_all
    obtain n where n: "found' = found1 + n" "found' \<le> target" "current' = current1 + 8 * n" "bytes_read_free bm n current1"
      "found' = target \<or> sz \<le> current'"
      using "1.IH" [OF True step rest "1.prems"(2)] True next_step by auto
    have "acc1 = 0"
    proof (rule ccontr)
      assume "acc1 \<noteq> 0"
      then show False
        using rest by (subst (asm) scan_bytes_run.simps) simp
    qed
    then have "bm ! current = 0" "current < length bm"
      using step(2) next_step by (auto simp: index_slice_def split: if_splits)
    then have "bytes_read_free bm (Suc n) current"
      using n(4) next_step(2) unfolding bytes_read_free_def
      by (auto simp: less_Suc_eq_0_disj algebra_simps)
    then show ?thesis
      using n next_step by (intro exI [of _ "Suc n"]) auto
  next
    case False
    then show ?thesis
      using "1.prems" by (subst (asm) scan_bytes_run.simps) (auto simp: bytes_read_free_def intro!: exI [of _ 0])
  qed
qed

lemma scan_bytes_from_reads:
  assumes "scan_bytes_from bm sz target current = Ok p" "8 * length bm \<le> sz" "16 < sz" "0 < target"
  shows "current \<le> p \<and> bytes_read_free bm target p"
  using assms
proof (induction bm sz target current rule: scan_bytes_from.induct)
  case (1 bm sz target current)
  obtain acc found current' where run: "scan_bytes_run bm sz target 0 0 current = Ok (acc, found, current')" "current < sz"
    and res: "(if acc \<noteq> 0 then scan_bytes_from bm sz target current'
       else try_outcome (mul64 found 8) (\<lambda>n. sub64 current' n)) = Ok p"
    using "1.prems"(1) by (subst (asm) scan_bytes_from.simps) (auto simp: try_outcome_Ok_iff split: if_splits)
  show ?case
  proof (cases "acc = 0")
    case True
    then obtain n where n: "found = n" "n \<le> target" "current' = current + 8 * n" "bytes_read_free bm n current"
      "n = target \<or> sz \<le> current'"
      using scan_bytes_run_reads [of bm sz target 0 0 current found current'] run(1) "1.prems"(2) by auto
    have "n = target"
    proof (rule ccontr)
      assume ne: "n \<noteq> target"
      then have "sz \<le> current + 8 * n" "0 < n"
        using n(3,5) run(2) by (cases n; auto)+
      moreover have "current + 8 * (n - 1) < length bm"
        using n(4) \<open>0 < n\<close> by (simp add: bytes_read_free_def)
      moreover have "8 * n = 8 * (n - 1) + 8"
        using \<open>0 < n\<close> by (cases n) simp_all
      ultimately show False
        using "1.prems"(2,3) by linarith
    qed
    then show ?thesis
      using res True n by (auto simp: try_outcome_Ok_iff)
  next
    case False
    then have "current' \<le> p \<and> bytes_read_free bm target p"
      using "1.IH" [OF run(2,1)] res "1.prems"(2-4) by auto
    then show ?thesis
      using scan_bytes_run_grows [OF run(1)] by simp
  qed
qed

context x86_64_crate
begin

lemma alloc_large_free:
  assumes ok: "bitmap_ok al" and large: "16 < bits" "bits < bits_size al"
    and free: "bytes_read_free (bitmap al) bits ((last_allocated al + 7) div 8 * 8)"
  obtains al' where "BitmapAllocator_alloc X bits al = (Ok ((last_allocated al + 7) div 8 * 8), al')" "bitmap_ok al'"
    "allocated al' = allocated al \<union> {(last_allocated al + 7) div 8 * 8..<(last_allocated al + 7) div 8 * 8 + bits}"
proof -
  define c where "c = (last_allocated al + 7) div 8 * 8"
  have sz: "bits_size al = 8 * length (bitmap al)" "length (bitmap al) < 2 ^ 50"
    using ok by (simp_all add: bitmap_ok_def)
  have last_byte: "c + 8 * (bits - 1) < length (bitmap al)"
    using free large(1) unfolding c_def [symmetric] bytes_read_free_def by simp
  then have c: "c < bits_size al" "c + bits \<le> bits_size al"
    using sz(1) large(1) by linarith+
  have "scan_bytes_run (bitmap al) (bits_size al) bits 0 0 c = Ok (0, bits, c + 8 * bits)"
    using scan_bytes_run_free [of "bitmap al" bits 0 c "bits_size al"] free sz large(2) by (simp add: c_def)
  then have "scan_bytes_from (bitmap al) (bits_size al) bits c = Ok c"
    using c(1) sz large(2) by (subst scan_bytes_from.simps) (simp add: mul64_def sub64_def)
  then have "BitmapAllocator_scan X al bits = Ok c"
    using large align_up_8 [of "last_allocated al"] c(1) sz
    by (simp add: BitmapAllocator_scan_def BitmapAllocator_scan_bytes_def c_def)
  from alloc_marks [OF ok this c(2)] show ?thesis
    using that unfolding c_def by blast
qed

lemma alloc_large_reads:
  assumes ok: "bitmap_ok al" and large: "16 < bits" and last: "last_allocated al \<le> bits_size al"
    and run: "BitmapAllocator_alloc X bits al = (Ok p, al')"
  shows "last_allocated al \<le> p \<and> bytes_read_free (bitmap al) bits p"
proof -
  have scan: "BitmapAllocator_scan X al bits = Ok p"
    using run unfolding BitmapAllocator_alloc_def
    by (elim try_reads_OkE try_unit_OkE) simp
  then obtain c where c: "align_up X (last_allocated al) 8 = Some c" and lt: "bits < bits_size al"
    and from_c: "scan_bytes_from (bitmap al) (bits_size al) bits c = Ok p"
    using large by (auto simp: BitmapAllocator_scan_def BitmapAllocator_scan_bytes_def try_outcome_Ok_iff split: if_splits)
  have "c \<le> p \<and> bytes_read_free (bitmap al) bits p"
    using scan_bytes_from_reads [OF from_c] ok large lt by (simp add: bitmap_ok_def)
  moreover have "(last_allocated al + 7) div 8 * 8 \<le> last_allocated al + 7" "last_allocated al + 7 < 2 ^ 64"
    using last ok by (simp_all add: bitmap_ok_def)
  then have "c = (last_allocated al + 7) div 8 * 8"
    using align_up_8 [of "last_allocated al"] c by (metis le_less_trans option.inject)
  then have "last_allocated al \<le> c"
    by linarith
  ultimately show ?thesis
    by simp
qed

end

section \<open>The interface of an allocator of ranges\<close>

text \<open>
  What the frame allocator and the virtual memory allocator rely on: a request that is answered gets a
  range disjoint from everything in use, which is then in use. A run of requests is answered with
  pairwise disjoint ranges.
\<close>

fun request_all ::
    "(nat \<Rightarrow> ('a, MemoryError, nat) prog) \<Rightarrow> nat list \<Rightarrow> 'a \<Rightarrow> ((nat \<times> nat) list \<times> 'a) option" where
  "request_all req [] a = Some ([], a)"
| "request_all req (n # ns) a = (case req n a of
      (Ok p, a') \<Rightarrow> map_option (\<lambda>(rs, b). ((p, n) # rs, b)) (request_all req ns a')
    | _ \<Rightarrow> None)"

definition range_set :: "nat \<times> nat \<Rightarrow> nat set" where
  "range_set r = {fst r..<fst r + snd r}"

locale range_allocator =
  fixes inv :: "'a \<Rightarrow> bool" and in_use :: "'a \<Rightarrow> nat set"
    and req :: "nat \<Rightarrow> ('a, MemoryError, nat) prog" and largest :: nat
  assumes req_Ok: "inv a \<Longrightarrow> 0 < n \<Longrightarrow> n \<le> largest \<Longrightarrow> req n a = (Ok p, a') \<Longrightarrow>
    {p..<p + n} \<inter> in_use a = {} \<and> in_use a' = in_use a \<union> {p..<p + n} \<and> inv a'"
begin

lemma request_all_disjoint:
  assumes "inv a" "\<forall>n \<in> set ns. 0 < n \<and> n \<le> largest" "request_all req ns a = Some (rs, b)"
  shows "sorted_wrt (\<lambda>r r'. range_set r \<inter> range_set r' = {}) rs \<and>
    (\<forall>r \<in> set rs. range_set r \<inter> in_use a = {}) \<and> in_use b = in_use a \<union> (\<Union> (range_set ` set rs)) \<and> inv b"
  using assms
proof (induction ns arbitrary: a rs)
  case (Cons n ns)
  from Cons.prems(3) obtain p a' rs' where step: "req n a = (Ok p, a')"
    and rest: "request_all req ns a' = Some (rs', b)" and rs: "rs = (p, n) # rs'"
    by (auto split: prod.splits outcome.splits option.splits)
  have new: "range_set (p, n) \<inter> in_use a = {}" "in_use a' = in_use a \<union> range_set (p, n)" "inv a'"
    using req_Ok [OF Cons.prems(1) _ _ step] Cons.prems(2) by (auto simp: range_set_def)
  from Cons.IH [OF new(3) _ rest] Cons.prems(2) have
    IH: "sorted_wrt (\<lambda>r r'. range_set r \<inter> range_set r' = {}) rs'"
      "\<forall>r \<in> set rs'. range_set r \<inter> in_use a' = {}"
      "in_use b = in_use a' \<union> (\<Union> (range_set ` set rs'))" "inv b"
    by auto
  then show ?case
    using new(1) unfolding rs new(2) by auto
qed simp

end

sublocale x86_64_crate \<subseteq> bits: range_allocator bitmap_ok allocated "BitmapAllocator_alloc X" 16
  by unfold_locales (use alloc_small_sound in blast)

context x86_64_crate
begin

lemma bits_allocator: "range_allocator bitmap_ok allocated (BitmapAllocator_alloc X) 16"
  by (rule bits.range_allocator_axioms)

end

end
