(* ===== verification/Frame_Allocation.thy ===== *)
theory Frame_Allocation
  imports Bitmap_Allocator
begin

text \<open>
  \<open>BitmapFrameAllocator\<close> of \<open>memory/paging/frame_allocation.rs\<close>, a \<open>BitmapAllocator\<close> with one bit per
  page frame, and the memory map it is built from. The entries of the map come from the bootloader
  through the limine crate: a list of regions with base, length and type (what \<open>get_type()\<close> returns).
\<close>

datatype MemoryRegionType =
    Usable
  | Reserved
  | AcpiReclaimable
  | AcpiNvs
  | BadMemory
  | BootloaderReclaimable
  | ExecutableAndModules
  | Framebuffer
  | AcpiTables

record MemoryRegionInfo =
  base :: u64
  length_of :: u64
  region_type :: MemoryRegionType

type_synonym BitmapFrameAllocator = BitmapAllocator

definition clear_region :: "MemoryRegionInfo \<Rightarrow> (BitmapAllocator, MemoryError, unit) prog" where
  "clear_region r =
     try_prog (reads (\<lambda>_. add64 (base r) (length_of r))) (\<lambda>end_addr.
     unwrap_prog (BitmapAllocator_flag_range (base r div PAGE_SIZE, end_addr div PAGE_SIZE) False))"

definition BitmapFrameAllocator_new ::
    "('pte, 'fl, 'z) x86_64_scheme \<Rightarrow> u64 \<Rightarrow> usize \<Rightarrow> MemoryRegionInfo list \<Rightarrow>
       (LinearFrameAllocator, MemoryError, BitmapFrameAllocator) prog" where
  "BitmapFrameAllocator_new X internal_offset bitmap_size mmap_entries =
     try_prog (BitmapAllocator_new X internal_offset bitmap_size True) (\<lambda>allocator.
     run_local (for_each (filter (\<lambda>r. region_type r = Usable) mmap_entries) clear_region) allocator)"

definition BitmapFrameAllocator_alloc ::
    "('pte, 'fl, 'z) x86_64_scheme \<Rightarrow> (BitmapFrameAllocator, MemoryError, PhysAddr) prog" where
  "BitmapFrameAllocator_alloc X =
     try_prog (BitmapAllocator_alloc X 1) (\<lambda>frame.
     reads (\<lambda>_. of_lib (PhysAddr_new X frame)))"

definition BitmapFrameAllocator_alloc_contiguous ::
    "('pte, 'fl, 'z) x86_64_scheme \<Rightarrow> usize \<Rightarrow> (BitmapFrameAllocator, MemoryError, PhysAddr) prog" where
  "BitmapFrameAllocator_alloc_contiguous X pages =
     try_prog (BitmapAllocator_alloc X pages) (\<lambda>frame.
     reads (\<lambda>_. of_lib (PhysAddr_new X frame)))"

definition BitmapFrameAllocator_free ::
    "PhysAddr \<Rightarrow> (BitmapFrameAllocator, MemoryError, unit) prog" where
  "BitmapFrameAllocator_free phys_addr =
     (let offset = phys_addr div PAGE_SIZE in BitmapAllocator_free offset)"

definition BitmapFrameAllocator_free_contiguous ::
    "PhysAddr \<Rightarrow> usize \<Rightarrow> (BitmapFrameAllocator, MemoryError, unit) prog" where
  "BitmapFrameAllocator_free_contiguous phys_addr pages =
     (let offset = phys_addr div PAGE_SIZE in
      try_prog (reads (\<lambda>_. add64 offset pages)) (\<lambda>e.
      BitmapAllocator_free_range (offset, e)))"

section \<open>Building the allocator from the memory map\<close>

definition region_frames :: "MemoryRegionInfo \<Rightarrow> nat \<times> nat" where
  "region_frames r = (base r div 4096, (base r + length_of r) div 4096)"

definition region_cleared :: "MemoryRegionInfo \<Rightarrow> nat set" where
  "region_cleared r = range_cleared (fst (region_frames r)) (snd (region_frames r))"

lemma clear_region_effect:
  assumes "bitmap_ok al" "base r + length_of r < 2 ^ 64" "snd (region_frames r) \<le> bits_size al"
  shows "\<exists>al'. clear_region r al = (Ok (), al') \<and> same_shape al al' \<and>
    allocated al' = allocated al - region_cleared r"
proof -
  have "fst (region_frames r) \<le> snd (region_frames r)"
    by (simp add: region_frames_def div_le_mono)
  from flag_range_effect [OF assms(1) this assms(3), of False] assms(2) show ?thesis
    by (auto simp: clear_region_def add64_def region_frames_def region_cleared_def unwrap_prog_def)
qed

lemma clear_regions_effect:
  assumes "bitmap_ok al"
    and "\<forall>r \<in> set rs. base r + length_of r < 2 ^ 64 \<and> snd (region_frames r) \<le> bits_size al"
  shows "\<exists>al'. for_each rs clear_region al = (Ok (), al') \<and> same_shape al al' \<and>
    allocated al' = allocated al - (\<Union> (region_cleared ` set rs))"
  using assms
proof (induction rs arbitrary: al)
  case (Cons r rs)
  from clear_region_effect [OF Cons.prems(1), of r] Cons.prems(2) obtain al1 where
    al1: "clear_region r al = (Ok (), al1)" "same_shape al al1"
      "allocated al1 = allocated al - region_cleared r"
    by auto
  have "bitmap_ok al1" "bits_size al1 = bits_size al"
    using Cons.prems(1) same_shape_ok [OF al1(2)] al1(2) by (auto simp: same_shape_def)
  with Cons.IH [of al1] Cons.prems(2) obtain al2 where
    "for_each rs clear_region al1 = (Ok (), al2)" "same_shape al1 al2"
    "allocated al2 = allocated al1 - (\<Union> (region_cleared ` set rs))"
    by auto
  with al1 show ?case
    by (auto simp: try_prog_def intro: same_shape_trans)
qed simp

lemma clear_regions_OkD:
  assumes "bitmap_ok al" "for_each rs clear_region al = (Ok (), al')" "r \<in> set rs"
    and "fst (region_frames r) < snd (region_frames r)"
  shows "snd (region_frames r) \<le> bits_size al"
  using assms(1-3)
proof (induction rs arbitrary: al)
  case (Cons x xs)
  from Cons.prems(2) obtain al1 where step: "clear_region x al = (Ok (), al1)"
    and rest: "for_each xs clear_region al1 = (Ok (), al')"
    by (auto elim: try_unit_OkE)
  from step have sum: "base x + length_of x < 2 ^ 64"
    and flag: "BitmapAllocator_flag_range (region_frames x) False al = (Ok (), al1)"
    by (auto simp: clear_region_def region_frames_def add64_def split: if_splits)
  show ?case
  proof (cases "r = x")
    case True
    then show ?thesis
      using flag_range_OkD [OF Cons.prems(1), of "fst (region_frames r)" "snd (region_frames r)"]
        flag assms(4) by simp
  next
    case False
    have "snd (region_frames x) \<le> bits_size al \<or> fst (region_frames x) = snd (region_frames x)"
      using flag_range_OkD [OF Cons.prems(1), of "fst (region_frames x)" "snd (region_frames x)"] flag
      by (auto simp: region_frames_def div_le_mono le_neq_implies_less)
    then have "same_shape al al1"
    proof
      assume "snd (region_frames x) \<le> bits_size al"
      from clear_region_effect [OF Cons.prems(1) sum this] step show ?thesis
        by auto
    next
      assume "fst (region_frames x) = snd (region_frames x)"
      with flag show ?thesis
        by (cases "region_frames x")
          (auto simp: BitmapAllocator_flag_range_def range_in_bounds_ok [OF Cons.prems(1)] sub64_def
            split: if_splits)
    qed
    with Cons.IH [OF _ rest] False Cons.prems(1,3) same_shape_ok [of al al1] show ?thesis
      by (auto simp: same_shape_def)
  qed
qed simp

lemma clear_regions_shape: "same_shape al (snd (for_each rs clear_region al))"
proof (rule for_each_invariant [where P = "same_shape al"])
  fix r al' assume "same_shape al al'"
  then show "same_shape al (snd (clear_region r al'))"
    using same_shape_trans flag_range_shape
    by (auto simp: clear_region_def unwrap_prog_def split: outcome.split prod.split) (metis snd_conv)
qed simp

lemma frame_allocator_new_ok:
  assumes "BitmapFrameAllocator_new X off n mmap p = (Ok al, p')" "n < 2 ^ 50"
  shows "bitmap_ok al \<and> bits_size al = 8 * n"
proof -
  obtain al0 where "BitmapAllocator_new X off n True p = (Ok al0, p')"
    and al: "for_each (filter (\<lambda>r. region_type r = Usable) mmap) clear_region al0 = (Ok (), al)"
    using assms(1) by (auto simp: BitmapFrameAllocator_new_def try_prog_Ok_iff)
  then have "bitmap_ok al0" "bits_size al0 = 8 * n"
    using assms(2) by (auto simp: BitmapAllocator_new_def Let_def bitmap_ok_def try_prog_Ok_iff mul64_def
        add64_def of_lib_def split: if_splits option.splits)
  moreover have "same_shape al0 al"
    using clear_regions_shape [of al0 "filter (\<lambda>r. region_type r = Usable) mmap"] al by simp
  ultimately show ?thesis
    by (simp add: same_shape_def bitmap_ok_def)
qed

end
