(* ===== verification/Page_Mapping.thy ===== *)
theory Page_Mapping
  imports Bitmap_Allocator
begin

text \<open>
  \<open>memory/paging/page_mapping.rs\<close>: the allocator of virtual pages above \<open>PAGE_ALLOCATOR_START\<close>, again a
  \<open>BitmapAllocator\<close>.
\<close>

type_synonym VirtualMemoryAllocator = BitmapAllocator

definition PAGE_ALLOCATOR_START :: VirtAddr where
  "PAGE_ALLOCATOR_START = 0xFFFFE00000000000"

definition VirtualMemoryAllocator_new ::
    "('pte, 'fl, 'z) x86_64_scheme \<Rightarrow> u64 \<Rightarrow> usize \<Rightarrow>
       (LinearFrameAllocator, MemoryError, VirtualMemoryAllocator) prog" where
  "VirtualMemoryAllocator_new X internal_offset size_bytes =
     try_prog (BitmapAllocator_new X internal_offset size_bytes True) (\<lambda>bm. ret bm)"

definition VirtualMemoryAllocator_alloc_contiguous ::
    "('pte, 'fl, 'z) x86_64_scheme \<Rightarrow> usize \<Rightarrow> (VirtualMemoryAllocator, MemoryError, VirtAddr) prog" where
  "VirtualMemoryAllocator_alloc_contiguous X pages =
     try_prog (BitmapAllocator_alloc X pages) (\<lambda>page.
     try_prog (reads (\<lambda>_. mul64 page PAGE_SIZE)) (\<lambda>bytes.
     reads (\<lambda>_. of_lib (VirtAddr_add X PAGE_ALLOCATOR_START bytes))))"

definition VirtualMemoryAllocator_free ::
    "VirtAddr \<Rightarrow> usize \<Rightarrow> (VirtualMemoryAllocator, MemoryError, unit) prog" where
  "VirtualMemoryAllocator_free addr pages =
     try_prog (reads (\<lambda>_. sub64 addr PAGE_ALLOCATOR_START)) (\<lambda>d.
     let offset = d div PAGE_SIZE in
     try_prog (reads (\<lambda>_. add64 offset pages)) (\<lambda>e.
     BitmapAllocator_free_range (offset, e)))"

lemma VirtualMemoryAllocator_free_not_Ok:
  "fst (VirtualMemoryAllocator_free addr pages al) \<noteq> Ok ()"
  using free_range_not_Ok
  by (auto simp: VirtualMemoryAllocator_free_def Let_def split: outcome.splits)

context x86_64_crate
begin

lemma VirtualMemoryAllocator_alloc_Ok:
  assumes "VirtualMemoryAllocator_alloc_contiguous X pages al = (Ok v, al')"
  obtains page where "BitmapAllocator_alloc X pages al = (Ok page, al')"
    "v = PAGE_ALLOCATOR_START + page * 4096" "canonical v"
  using assms
  by (auto simp: VirtualMemoryAllocator_alloc_contiguous_def VirtAddr_add mul64_def
      elim!: try_prog_OkE split: outcome.splits if_splits)

end

end
