(* ===== verification/Paging_Init.thy ===== *)
theory Paging_Init
  imports Frame_Allocation Page_Mapping Page_Ranges
begin

text \<open>
  \<open>memory/paging/mod.rs\<close>: how the kernel's address space is built at boot, and
  \<open>KernelPagingController\<close>, what it ends up in. The addresses of the linker symbols and the answers of
  the bootloader (kernel addresses, offset of the higher half direct map) are the record
  \<open>boot_info\<close>; the memory map is a list of regions. The state is the memory of page tables with the
  linear frame allocator.
\<close>

record boot_info =
  limine_reqs_start :: u64
  text_start :: u64
  rodata_start :: u64
  data_start :: u64
  elf_end :: u64
  kernel_address :: "(u64 \<times> u64) option"  \<comment> \<open>virtual and physical base\<close>
  hhdm_offset :: "u64 option"

text \<open>\<open>STACK_SIZE_REQUEST.stack_size\<close>\<close>

definition STACK_SIZE :: u64 where
  "STACK_SIZE = 64 * KIBIBYTE"

record KernelPagingController =
  rec_page_table :: RecursivePageTable
  frame_allocator :: BitmapFrameAllocator
  virt_mem_allocator :: VirtualMemoryAllocator

type_synonym 'pte boot_state = "('pte, LinearFrameAllocator) paging_state"

text \<open>The addresses of \<open>(start..end).step_by(PAGE_SIZE)\<close>.\<close>

definition page_range :: "usize \<Rightarrow> usize \<Rightarrow> usize list" where
  "page_range start end_of = map (\<lambda>k. start + k * PAGE_SIZE) [0..<div_ceil (end_of - start) PAGE_SIZE]"

section \<open>Operations\<close>

definition map_kernel_section ::
    "('pte, 'fl, 'z) x86_64_scheme \<Rightarrow> boot_info \<Rightarrow> u64 \<Rightarrow> u64 \<Rightarrow> 'fl \<Rightarrow> RecursivePageTable \<Rightarrow>
       ('pte boot_state, MemoryError, unit) prog" where
  "map_kernel_section X info region_start region_end flags page_table =
     try_prog (reads (\<lambda>_. unwrap_option (kernel_address info))) (\<lambda>(virtual_base, physical_base).
     if region_start = region_end then ret () else
     for_each (page_range region_start region_end) (\<lambda>page.
       try_prog (reads (\<lambda>_. sub64 page virtual_base)) (\<lambda>d.
       try_prog (reads (\<lambda>_. add64 d physical_base)) (\<lambda>p.
       try_prog (reads (\<lambda>_. of_lib (PhysAddr_new X p))) (\<lambda>from.
       try_prog (reads (\<lambda>_. of_lib (VirtAddr_new X page))) (\<lambda>to.
       map_err_prog MemoryError_from (RecursivePageTable_map X (LinearFrameAllocator_alloc X)
         page_table from to (flags_or X flags (GLOBAL X)))))))))"

definition map_kernel ::
    "('pte, 'fl, 'z) x86_64_scheme \<Rightarrow> boot_info \<Rightarrow> RecursivePageTable \<Rightarrow> MemoryRegionInfo \<Rightarrow>
       ('pte boot_state, MemoryError, unit) prog" where
  "map_kernel X info page_table kernel_region =
     try_prog (map_kernel_section X info (limine_reqs_start info) (text_start info) (flags_r X) page_table) (\<lambda>_.
     try_prog (map_kernel_section X info (text_start info) (rodata_start info) (flags_rx X) page_table) (\<lambda>_.
     try_prog (map_kernel_section X info (rodata_start info) (data_start info) (flags_r X) page_table) (\<lambda>_.
     try_prog (map_kernel_section X info (data_start info) (elf_end info) (flags_rw X) page_table) (\<lambda>_.
     try_prog (reads (\<lambda>_. unwrap_option (kernel_address info))) (\<lambda>(virtual_base, physical_base).
     try_prog (reads (\<lambda>_. sub64 (elf_end info) (limine_reqs_start info))) (\<lambda>mapped_sect_size.
     try_prog (reads (\<lambda>_. sub64 (length_of kernel_region) mapped_sect_size)) (\<lambda>rest.
     let remaining_pages = size_in_pages rest in
     try_prog (reads (\<lambda>_. sub64 (elf_end info) virtual_base)) (\<lambda>d.
     try_prog (reads (\<lambda>_. add64 d physical_base)) (\<lambda>p.
     try_prog (reads (\<lambda>_. of_lib (PhysAddr_new X p))) (\<lambda>from.
     try_prog (reads (\<lambda>_. of_lib (VirtAddr_new X (elf_end info)))) (\<lambda>to.
     map_err_prog MemoryError_from (RecursivePageTable_map_contiguous X (LinearFrameAllocator_alloc X)
       page_table remaining_pages from to (flags_or X (flags_r X) (GLOBAL X))))))))))))))"

definition misc_flags :: "('pte, 'fl, 'z) x86_64_scheme \<Rightarrow> MemoryRegionType \<Rightarrow> 'fl option" where
  "misc_flags X t = (case t of
      Framebuffer \<Rightarrow> Some (flags_rwx X)
    | AcpiNvs \<Rightarrow> Some (flags_rwx X)
    | AcpiReclaimable \<Rightarrow> Some (flags_rwx X)
    | AcpiTables \<Rightarrow> Some (flags_rwx X)
    | BootloaderReclaimable \<Rightarrow> Some (flags_rwx X)
    | _ \<Rightarrow> None)"

definition map_misc_region ::
    "('pte, 'fl, 'z) x86_64_scheme \<Rightarrow> RecursivePageTable \<Rightarrow> MemoryRegionInfo \<Rightarrow>
       ('pte boot_state, MemoryError, unit) prog" where
  "map_misc_region X page_table region = (case misc_flags X (region_type region) of
      None \<Rightarrow> ret ()
    | Some flags \<Rightarrow>
       (let pages = size_in_pages (length_of region) in
        try_prog (reads (\<lambda>_. of_lib (PhysAddr_new X (base region)))) (\<lambda>from.
        try_prog (reads (\<lambda>_. add64 (base region) (internal_offset page_table))) (\<lambda>a.
        try_prog (reads (\<lambda>_. of_lib (VirtAddr_new X a))) (\<lambda>to.
        map_err_prog MemoryError_from (RecursivePageTable_map_contiguous X (LinearFrameAllocator_alloc X)
          page_table pages from to flags))))))"

definition map_misc ::
    "('pte, 'fl, 'z) x86_64_scheme \<Rightarrow> MemoryRegionInfo list \<Rightarrow> RecursivePageTable \<Rightarrow>
       ('pte boot_state, MemoryError, unit) prog" where
  "map_misc X rammap_entries page_table = for_each rammap_entries (map_misc_region X page_table)"

definition remap_stack ::
    "('pte, 'fl, 'z) x86_64_scheme \<Rightarrow> VirtAddr \<Rightarrow> RecursivePageTable \<Rightarrow>
       ('pte boot_state, MemoryError, unit) prog" where
  "remap_stack X entry_stack_pointer page_table =
     try_prog (reads (\<lambda>_. of_lib (VirtAddr_add X entry_stack_pointer 16))) (\<lambda>stack_top.
     try_prog (reads (\<lambda>_. of_lib (VirtAddr_sub X stack_top STACK_SIZE))) (\<lambda>stack_bottom.
     try_prog (map_err_prog MemoryError_from (RecursivePageTable_unmap X page_table stack_top)) (\<lambda>_.
     for_each (VirtAddr_step_by X stack_bottom stack_top PAGE_SIZE) (\<lambda>page.
       map_err_prog MemoryError_from (RecursivePageTable_update_flags X page_table page (flags_rw X))))))"

text \<open>
  \<open>max_by\<close> on the end of the region: the comparison adds base and length (checked), and the later of
  two equal regions wins.
\<close>

fun max_by_end :: "MemoryRegionInfo \<Rightarrow> MemoryRegionInfo list \<Rightarrow> ('e, MemoryRegionInfo) outcome" where
  "max_by_end best [] = Ok best"
| "max_by_end best (r # rs) =
     try_outcome (add64 (base best) (length_of best)) (\<lambda>x.
     try_outcome (add64 (base r) (length_of r)) (\<lambda>y.
     max_by_end (if x > y then best else r) rs))"

definition highest_valid_region :: "MemoryRegionInfo list \<Rightarrow> ('e, MemoryRegionInfo) outcome" where
  "highest_valid_region rammap_entries =
     (case filter (\<lambda>r. region_type r \<noteq> Reserved \<and> region_type r \<noteq> Framebuffer) rammap_entries of
        [] \<Rightarrow> Panic UnwrapFailed
      | r # rs \<Rightarrow> max_by_end r rs)"

definition init_paging ::
    "('pte, 'fl, 'z) x86_64_scheme \<Rightarrow> boot_info \<Rightarrow> VirtAddr \<Rightarrow> MemoryRegionInfo list \<Rightarrow>
       ('pte boot_state, MemoryError, KernelPagingController) prog" where
  "init_paging X info entry_stack_pointer rammap_entries =
     try_prog (RecursivePageTable_new X (LinearFrameAllocator_alloc X) (hhdm_offset info)) (\<lambda>page_table.
     try_prog (reads (\<lambda>_. unwrap_option (find (\<lambda>r. region_type r = ExecutableAndModules) rammap_entries)))
       (\<lambda>k_sect.
     try_prog (map_kernel X info page_table k_sect) (\<lambda>_.
     try_prog (map_misc X rammap_entries page_table) (\<lambda>_.
     try_prog (remap_stack X entry_stack_pointer page_table) (\<lambda>_.
     try_prog (reads (\<lambda>_. highest_valid_region rammap_entries)) (\<lambda>highest.
     try_prog (reads (\<lambda>_. add64 (base highest) (length_of highest))) (\<lambda>end_of.
     let size_bytes = end_of div PAGE_SIZE div 8 in
     try_prog (zoom frames (\<lambda>a s. s\<lparr>frames := a\<rparr>)
       (BitmapFrameAllocator_new X (internal_offset page_table) size_bytes rammap_entries)) (\<lambda>fa.
     try_prog (reads (\<lambda>_. mul64 size_bytes 2)) (\<lambda>virt_size.
     try_prog (zoom frames (\<lambda>a s. s\<lparr>frames := a\<rparr>)
       (VirtualMemoryAllocator_new X (internal_offset page_table) virt_size)) (\<lambda>va.
     ret \<lparr>rec_page_table = page_table, frame_allocator = fa, virt_mem_allocator = va\<rparr>))))))))))"

lemma max_by_end_member: "max_by_end best rs = Ok h \<Longrightarrow> h \<in> set (best # rs)"
  by (induction rs arbitrary: best) (auto simp: try_outcome_Ok_iff split: if_splits)

lemma highest_valid_region_member:
  assumes "highest_valid_region mmap = Ok h"
  shows "h \<in> set mmap"
proof -
  define rs where "rs = filter (\<lambda>r. region_type r \<noteq> Reserved \<and> region_type r \<noteq> Framebuffer) mmap"
  have "h \<in> set rs"
    using assms unfolding highest_valid_region_def rs_def [symmetric]
    by (auto split: list.splits dest!: max_by_end_member)
  then show ?thesis
    by (simp add: rs_def)
qed

text \<open>The stack lies in the upper half and outside the recursive range.\<close>

definition stack_ok :: "VirtAddr \<Rightarrow> bool" where
  "stack_ok sp \<longleftrightarrow> 2 ^ 47 + STACK_SIZE \<le> sp + 16 \<and>
     (\<forall>a. sp + 16 \<le> a + STACK_SIZE \<and> a \<le> sp + 16 \<longrightarrow> page_index 4 a \<noteq> 510)"

section \<open>Mapping the kernel image\<close>

lemma range_mapped_keeps:
  assumes "range_mapped n from to flags (mapped X self mem) m'" "mapped X self mem a = Some v"
  shows "m' a = Some v"
proof -
  have "page_key a \<noteq> page_key (to + k * 4096)" if "k < n" for k
    using assms mapped_page_key [of a "to + k * 4096" X self mem] that by (auto simp: range_mapped_def)
  then show ?thesis
    using assms by (simp add: range_mapped_def)
qed

context x86_64_crate
begin

abbreviation boot_inv where
  "boot_inv \<equiv> paging_inv X linear_good linear_taken"

lemma map_contiguous_boot:
  assumes inv: "boot_inv self s" and "from": "from < 2 ^ 52" and flags: "flags_contains X flags (PRESENT X)"
    and run: "RecursivePageTable_map_contiguous X (LinearFrameAllocator_alloc X) self n from to flags s = (Ok (), s')"
  shows "boot_inv self s' \<and> range_mapped n from to flags (mapped X self (tables s)) (mapped X self (tables s'))"
proof (cases "n = 0")
  case True
  then show ?thesis
    using run inv by (simp add: RecursivePageTable_map_contiguous_def page_offsets_def mul64_def div_ceil_def
        range_mapped_def)
next
  case False
  have n: "n * 4096 < 2 ^ 64"
    using run by (auto simp: RecursivePageTable_map_contiguous_def page_offsets_def mul64_def split: if_splits)
  have "frame_address from"
    by (rule linear_paging.map_pages_Ok_frame [OF inv "from", of n])
      (use run False in \<open>simp_all add: RecursivePageTable_map_contiguous_def page_offsets_eq [OF n]\<close>)
  then show ?thesis
    using linear_paging.map_contiguous_OkD [OF inv _ flags run] by blast
qed

abbreviation section_body where
  "section_body self vb pb flags \<equiv> (\<lambda>page. try_prog (reads (\<lambda>_. sub64 page vb)) (\<lambda>d.
       try_prog (reads (\<lambda>_. add64 d pb)) (\<lambda>p.
       try_prog (reads (\<lambda>_. of_lib (PhysAddr_new X p))) (\<lambda>from.
       try_prog (reads (\<lambda>_. of_lib (VirtAddr_new X page))) (\<lambda>to.
       map_err_prog MemoryError_from (RecursivePageTable_map X (LinearFrameAllocator_alloc X)
         self from to (flags_or X flags (GLOBAL X))))))))"

lemma section_round:
  "section_body self vb pb flags page t = (Ok (), t') \<longleftrightarrow> vb \<le> page \<and> page - vb + pb < 2 ^ 52 \<and> canonical page \<and>
     RecursivePageTable_map X (LinearFrameAllocator_alloc X) self (page - vb + pb) page
       (flags_or X flags (GLOBAL X)) t = (Ok (), t')"
  by (auto simp: sub64_def add64_def PhysAddr_new VirtAddr_new)

lemma map_kernel_section_OkD:
  assumes inv: "boot_inv self s" and flags: "flags_contains X flags (PRESENT X)"
    and ka: "kernel_address info = Some (vb, pb)"
    and run: "map_kernel_section X info a b flags self s = (Ok (), s')"
  shows "boot_inv self s' \<and> range_mapped (div_ceil (b - a) 4096) (a - vb + pb) a (flags_or X flags (GLOBAL X))
    (mapped X self (tables s)) (mapped X self (tables s')) \<and> (a < b \<longrightarrow> vb \<le> a)"
proof (cases "b \<le> a")
  case True
  then show ?thesis
    using run ka inv by (auto simp: map_kernel_section_def page_range_def div_ceil_def range_mapped_def
        split: if_splits)
next
  case False
  define n where "n = div_ceil (b - a) 4096"
  have pos: "0 < n"
    using False div_ceil_bounds(1) [of 4096 "b - a"] by (cases n) (auto simp: n_def)
  have loop: "for_each (map (\<lambda>k. a + k * 4096) [0..<n]) (section_body self vb pb flags) s = (Ok (), s')"
    using run ka False by (simp add: map_kernel_section_def page_range_def n_def)
  have first: "vb \<le> a" "a - vb + pb < 2 ^ 52"
    using loop pos unfolding upt_conv_Cons [OF pos] list.map for_each.simps
    by (auto elim!: try_unit_OkE simp: section_round simp del: try_prog_reads)
  have pages: "for_each (map (\<lambda>k. k * 4096) [0..<n]) (\<lambda>page.
       try_prog (reads (\<lambda>_. of_lib (PhysAddr_add X (a - vb + pb) page))) (\<lambda>p.
       try_prog (reads (\<lambda>_. of_lib (VirtAddr_add X a page))) (\<lambda>v.
       RecursivePageTable_map X (LinearFrameAllocator_alloc X) self p v (flags_or X flags (GLOBAL X))))) s =
       (Ok (), s')"
    by (rule for_each_Ok_mono [OF loop], unfold section_round)
      (use first in \<open>auto simp: PhysAddr_add VirtAddr_add algebra_simps\<close>)
  have "frame_address (a - vb + pb)"
    by (rule linear_paging.map_pages_Ok_frame [OF inv first(2) pos pages])
  moreover have "flags_contains X (flags_or X flags (GLOBAL X)) (PRESENT X)"
    using flags by (simp add: contains_or)
  ultimately show ?thesis
    using linear_paging.map_pages_OkD [OF inv _ _ pages] first(1) by (simp add: n_def)
qed

lemma map_kernel_section_total:
  assumes inv: "boot_inv self s" and flags: "flags_contains X flags (PRESENT X)"
    and ka: "kernel_address info = Some (vb, pb)" and a: "vb \<le> a" "a < b" "frame_address (a - vb + pb)"
    and pages: "\<And>k. k < div_ceil (b - a) 4096 \<Longrightarrow> canonical (a + k * 4096) \<and> page_index 4 (a + k * 4096) \<noteq> 510 \<and>
      a - vb + pb + k * 4096 < 2 ^ 52 \<and> mapped X self (tables s) (a + k * 4096) = None"
    and room: "linear_room (internal_offset self) (m + 3 * div_ceil (b - a) 4096) (frames s)"
  shows "\<exists>s'. map_kernel_section X info a b flags self s = (Ok (), s') \<and>
    linear_room (internal_offset self) m (frames s')"
proof -
  define n where "n = div_ceil (b - a) 4096"
  have fl: "flags_contains X (flags_or X flags (GLOBAL X)) (PRESENT X)"
    using flags by (simp add: contains_or)
  obtain s' where run: "for_each (map (\<lambda>k. k * 4096) [0..<n]) (\<lambda>page.
       try_prog (reads (\<lambda>_. of_lib (PhysAddr_add X (a - vb + pb) page))) (\<lambda>p.
       try_prog (reads (\<lambda>_. of_lib (VirtAddr_add X a page))) (\<lambda>v.
       RecursivePageTable_map X (LinearFrameAllocator_alloc X) self p v (flags_or X flags (GLOBAL X))))) s =
       (Ok (), s')" and room': "linear_room (internal_offset self) m (frames s')"
    using paging_supply.map_pages_total [OF linear_paging_supply inv a(3) fl pages room] unfolding n_def by blast
  have "for_each (map (\<lambda>k. a + k * 4096) [0..<n]) (section_body self vb pb flags) s = (Ok (), s')"
    by (rule for_each_Ok_mono [OF run], unfold section_round)
      (use a in \<open>auto simp: PhysAddr_add VirtAddr_add algebra_simps split: if_splits\<close>)
  then show ?thesis
    using room' ka a(2) by (auto simp: map_kernel_section_def page_range_def n_def)
qed

text \<open>The mappings an operation adds: old ones stay.\<close>

definition keeps_mappings where
  "keeps_mappings self s s' \<longleftrightarrow> boot_inv self s' \<and>
     (\<forall>a v. mapped X self (tables s) a = Some v \<longrightarrow> mapped X self (tables s') a = Some v)"

lemma keeps_mappings_refl: "boot_inv self s \<Longrightarrow> keeps_mappings self s s"
  by (simp add: keeps_mappings_def)

lemma keeps_mappings_trans:
  "keeps_mappings self s s' \<Longrightarrow> keeps_mappings self s' s'' \<Longrightarrow> keeps_mappings self s s''"
  by (simp add: keeps_mappings_def)

lemma range_mapped_keeps_mappings:
  assumes "boot_inv self s'" "range_mapped n from to flags (mapped X self (tables s)) (mapped X self (tables s'))"
  shows "keeps_mappings self s s'"
  unfolding keeps_mappings_def using assms(1) range_mapped_keeps [OF assms(2)] by simp

lemma map_contiguous_keeps:
  assumes "boot_inv self s" "from < 2 ^ 52" "flags_contains X flags (PRESENT X)"
    and "RecursivePageTable_map_contiguous X (LinearFrameAllocator_alloc X) self n from to flags s = (Ok (), s')"
  shows "keeps_mappings self s s'"
  using map_contiguous_boot [OF assms] by (elim conjE) (rule range_mapped_keeps_mappings)

lemma map_kernel_section_effect:
  assumes "boot_inv self s" "flags_contains X flags (PRESENT X)" "kernel_address info = Some (vb, pb)"
    and "map_kernel_section X info a b flags self s = (Ok (), s')"
  shows "keeps_mappings self s s'"
    and "page \<in> set (page_range a b) \<Longrightarrow>
      mapped X self (tables s') page = Some (page - vb + pb, flags_or X flags (GLOBAL X))"
proof -
  note sec = map_kernel_section_OkD [OF assms]
  show "keeps_mappings self s s'"
    using sec by (elim conjE) (rule range_mapped_keeps_mappings)
  assume "page \<in> set (page_range a b)"
  then obtain k where k: "page = a + k * 4096" "k < div_ceil (b - a) 4096"
    by (auto simp: page_range_def)
  then have "a < b"
    by (cases "a < b") (auto simp: div_ceil_def)
  then show "mapped X self (tables s') page = Some (page - vb + pb, flags_or X flags (GLOBAL X))"
    using sec k by (simp add: range_mapped_def)
qed

lemma section_flags_present:
  "flags_contains X (flags_r X) (PRESENT X)" "flags_contains X (flags_rx X) (PRESENT X)"
  "flags_contains X (flags_rw X) (PRESENT X)" "flags_contains X (flags_rwx X) (PRESENT X)"
  "flags_contains X (flags_or X (flags_r X) (GLOBAL X)) (PRESENT X)"
  by (simp_all add: flags_r_def flags_rx_def flags_rw_def flags_rwx_def flag_simps)

lemma map_kernel_effect:
  assumes inv: "boot_inv self s" and ka: "kernel_address info = Some (vb, pb)"
    and run: "map_kernel X info self region s = (Ok (), s')"
  shows "keeps_mappings self s s'"
    and "page \<in> set (page_range (limine_reqs_start info) (text_start info)) \<Longrightarrow>
      mapped X self (tables s') page = Some (page - vb + pb, flags_or X (flags_r X) (GLOBAL X))"
    and "page \<in> set (page_range (text_start info) (rodata_start info)) \<Longrightarrow>
      mapped X self (tables s') page = Some (page - vb + pb, flags_or X (flags_rx X) (GLOBAL X))"
    and "page \<in> set (page_range (rodata_start info) (data_start info)) \<Longrightarrow>
      mapped X self (tables s') page = Some (page - vb + pb, flags_or X (flags_r X) (GLOBAL X))"
    and "page \<in> set (page_range (data_start info) (elf_end info)) \<Longrightarrow>
      mapped X self (tables s') page = Some (page - vb + pb, flags_or X (flags_rw X) (GLOBAL X))"
proof -
  obtain s1 s2 s3 s4 "from" n where
    r1: "map_kernel_section X info (limine_reqs_start info) (text_start info) (flags_r X) self s = (Ok (), s1)"
    and r2: "map_kernel_section X info (text_start info) (rodata_start info) (flags_rx X) self s1 = (Ok (), s2)"
    and r3: "map_kernel_section X info (rodata_start info) (data_start info) (flags_r X) self s2 = (Ok (), s3)"
    and r4: "map_kernel_section X info (data_start info) (elf_end info) (flags_rw X) self s3 = (Ok (), s4)"
    and r5: "from < 2 ^ 52" "RecursivePageTable_map_contiguous X (LinearFrameAllocator_alloc X) self n from
      (elf_end info) (flags_or X (flags_r X) (GLOBAL X)) s4 = (Ok (), s')"
    using run ka unfolding map_kernel_def Let_def
    by (elim try_unit_OkE) (auto simp: sub64_def add64_def PhysAddr_new VirtAddr_new split: if_splits)
  note e1 = map_kernel_section_effect [OF inv section_flags_present(1) ka r1]
  have i1: "boot_inv self s1" using e1(1) by (simp add: keeps_mappings_def)
  note e2 = map_kernel_section_effect [OF i1 section_flags_present(2) ka r2]
  have i2: "boot_inv self s2" using e2(1) by (simp add: keeps_mappings_def)
  note e3 = map_kernel_section_effect [OF i2 section_flags_present(1) ka r3]
  have i3: "boot_inv self s3" using e3(1) by (simp add: keeps_mappings_def)
  note e4 = map_kernel_section_effect [OF i3 section_flags_present(3) ka r4]
  have i4: "boot_inv self s4" using e4(1) by (simp add: keeps_mappings_def)
  have k4: "keeps_mappings self s4 s'"
    by (rule map_contiguous_keeps [OF i4 r5(1) section_flags_present(5) r5(2)])
  have k3: "keeps_mappings self s3 s'" and k2: "keeps_mappings self s2 s'" and k1: "keeps_mappings self s1 s'"
    using e2(1) e3(1) e4(1) k4 keeps_mappings_trans by blast+
  show "keeps_mappings self s s'"
    using e1(1) k1 keeps_mappings_trans by blast
  show "mapped X self (tables s') page = Some (page - vb + pb, flags_or X (flags_r X) (GLOBAL X))"
    if "page \<in> set (page_range (limine_reqs_start info) (text_start info))"
    using e1(2) [OF that] k1 by (simp add: keeps_mappings_def)
  show "mapped X self (tables s') page = Some (page - vb + pb, flags_or X (flags_rx X) (GLOBAL X))"
    if "page \<in> set (page_range (text_start info) (rodata_start info))"
    using e2(2) [OF that] k2 by (simp add: keeps_mappings_def)
  show "mapped X self (tables s') page = Some (page - vb + pb, flags_or X (flags_r X) (GLOBAL X))"
    if "page \<in> set (page_range (rodata_start info) (data_start info))"
    using e3(2) [OF that] k3 by (simp add: keeps_mappings_def)
  show "mapped X self (tables s') page = Some (page - vb + pb, flags_or X (flags_rw X) (GLOBAL X))"
    if "page \<in> set (page_range (data_start info) (elf_end info))"
    using e4(2) [OF that] k4 by (simp add: keeps_mappings_def)
qed

section \<open>Building the address space\<close>

lemma misc_flags_present: "misc_flags X t = Some flags \<Longrightarrow> flags_contains X flags (PRESENT X)"
  by (cases t) (auto simp: misc_flags_def section_flags_present)

lemma map_misc_keeps:
  assumes "boot_inv self s" "map_misc X mmap self s = (Ok (), s')"
  shows "keeps_mappings self s s'"
proof (rule for_each_Ok_invariant [where P = "keeps_mappings self s"])
  show "for_each mmap (map_misc_region X self) s = (Ok (), s')"
    using assms(2) by (simp add: map_misc_def)
  show "keeps_mappings self s s"
    using assms(1) by (rule keeps_mappings_refl)
  fix r t t' assume t: "keeps_mappings self s t" and run: "map_misc_region X self r t = (Ok (), t')"
  then have inv: "boot_inv self t"
    by (simp add: keeps_mappings_def)
  have "keeps_mappings self t t'"
  proof (cases "misc_flags X (region_type r)")
    case None
    then show ?thesis
      using run inv by (simp add: map_misc_region_def keeps_mappings_refl)
  next
    case (Some flags)
    then obtain "from" n to where "from < 2 ^ 52"
      "RecursivePageTable_map_contiguous X (LinearFrameAllocator_alloc X) self n from to flags t = (Ok (), t')"
      using run by (auto simp: map_misc_region_def Let_def PhysAddr_new add64_def VirtAddr_new split: if_splits)
    then show ?thesis
      using map_contiguous_keeps [OF inv _ misc_flags_present [OF Some]] by blast
  qed
  with t show "keeps_mappings self s t'"
    by (rule keeps_mappings_trans)
qed

lemma unmap_inv:
  assumes "boot_inv self s" "page_index 4 a \<noteq> 510" "RecursivePageTable_unmap X self a s = (Ok (), s')"
  shows "boot_inv self s'"
  using linear_paging.unmap_eq [OF assms(1,2)] assms(3) by (cases "mapped X self (tables s) a = None") auto

lemma update_flags_inv:
  assumes "boot_inv self s" "page_index 4 a \<noteq> 510" "flags_contains X flags (PRESENT X)"
    "RecursivePageTable_update_flags X self a flags s = (Ok (), s')"
  shows "boot_inv self s'"
proof (cases "mapped X self (tables s) a")
  case None
  then show ?thesis
    using linear_paging.update_flags_eq(1) [OF assms(1-3)] assms(1,4) by auto
next
  case (Some m)
  then show ?thesis
    using linear_paging.update_flags_eq(2) [OF assms(1-3)] assms(4) by (cases m) fastforce
qed

lemma remap_stack_inv:
  assumes inv: "boot_inv self s" and sp: "stack_ok sp" and run: "remap_stack X sp self s = (Ok (), s')"
  shows "boot_inv self s'"
proof -
  define bottom where "bottom = sp + 16 - STACK_SIZE"
  have steps: "VirtAddr_step_by X bottom (sp + 16) 4096 =
      map (\<lambda>k. bottom + k * 4096) [0..<div_ceil (sp + 16 - bottom) 4096]"
    using sp by (intro VirtAddr_step_by) (auto simp: stack_ok_def bottom_def)
  obtain s1 where s1: "RecursivePageTable_unmap X self (sp + 16) s = (Ok (), s1)"
    and loop: "for_each (VirtAddr_step_by X bottom (sp + 16) 4096) (\<lambda>page.
       map_err_prog MemoryError_from (RecursivePageTable_update_flags X self page (flags_rw X))) s1 = (Ok (), s')"
    using run by (auto simp: remap_stack_def VirtAddr_add VirtAddr_sub bottom_def elim!: try_unit_OkE
        split: if_splits)
  have inv1: "boot_inv self s1"
    by (rule unmap_inv [OF inv _ s1]) (use sp in \<open>simp add: stack_ok_def\<close>)
  show ?thesis
  proof (rule for_each_Ok_invariant [where P = "boot_inv self", OF loop inv1])
    fix a t t' assume a: "a \<in> set (VirtAddr_step_by X bottom (sp + 16) 4096)" and "boot_inv self t"
      and "map_err_prog MemoryError_from (RecursivePageTable_update_flags X self a (flags_rw X)) t = (Ok (), t')"
    moreover have "page_index 4 a \<noteq> 510"
    proof -
      obtain k where k: "a = bottom + k * 4096" "k < div_ceil (sp + 16 - bottom) 4096"
        using a unfolding steps by auto
      have "(k + 1) * 4096 \<le> div_ceil (sp + 16 - bottom) 4096 * 4096"
        using k(2) by (intro mult_le_mono1) simp
      also have "\<dots> < sp + 16 - bottom + 4096"
        by (rule div_ceil_bounds(2)) simp
      finally have "k * 4096 < sp + 16 - bottom"
        by simp
      then have "sp + 16 \<le> a + STACK_SIZE" "a \<le> sp + 16"
        using k(1) sp by (auto simp: bottom_def stack_ok_def)
      then show ?thesis
        using sp by (simp add: stack_ok_def)
    qed
    ultimately show "boot_inv self t'"
      using update_flags_inv [OF _ _ section_flags_present(3)] by simp
  qed
qed

lemma new_OkD:
  assumes good: "linear_good (frames s)" and off: "off mod 4096 = 0"
    and run: "(RecursivePageTable_new X (LinearFrameAllocator_alloc X) (Some off) s
      :: (MemoryError, RecursivePageTable) outcome \<times> _) = (Ok self, s')"
  shows "boot_inv self s' \<and> internal_offset self = off"
proof -
  have room: "frames s + 4096 < 2 ^ 52" and can: "canonical (frames s)" "canonical (frames s + off)"
    using run by (auto simp: RecursivePageTable_new_def unwrap_prog_def alloc_frame_def zoom_def
        LinearFrameAllocator_alloc_eq try_prog_def VirtAddr_new VirtAddr_add split: if_splits)
  have "LinearFrameAllocator_alloc X (frames s) = (Ok (frames s), frames s + 4096)"
    using room by (simp add: LinearFrameAllocator_alloc_eq)
  then obtain s2 where "(RecursivePageTable_new X (LinearFrameAllocator_alloc X) (Some off) s
      :: (MemoryError, RecursivePageTable) outcome \<times> _) =
      (Ok \<lparr>lvl4 = frames s + off, internal_offset = off\<rparr>, s2)"
    "boot_inv \<lparr>lvl4 = frames s + off, internal_offset = off\<rparr> s2"
    using linear_paging.new_page_table [OF good _ off can] by blast
  then show ?thesis
    using run by auto
qed

lemma frames_step:
  assumes "boot_inv self s" "frames s \<le> p" "frame_address p"
  shows "boot_inv self (s\<lparr>frames := p\<rparr>)"
proof -
  have "linear_taken (frames s) \<subseteq> linear_taken p"
    using assms(2) by (auto simp: linear_taken_def)
  then show ?thesis
    using assms(1,3) tree_ok_mono by (auto simp: paging_inv_def linear_good_def)
qed

lemma bitmap_new_frames:
  assumes "BitmapAllocator_new X off n init p = (Ok al, p')" "frame_address p"
  shows "p \<le> p' \<and> frame_address p'"
proof -
  have "p' = p + size_in_pages n * 4096" "p + size_in_pages n * 4096 < 2 ^ 52"
    using assms(1)
    by (auto simp: BitmapAllocator_new_def Let_def try_prog_def add64_def mul64_def VirtAddr_new
        LinearFrameAllocator_alloc_contiguous_eq split: if_splits)
  then show ?thesis
    using assms(2) by (simp add: frame_address_def)
qed

lemma init_paging_steps:
  assumes info: "hhdm_offset info = Some off" and run: "init_paging X info sp mmap s = (Ok ctrl, s')"
  obtains pt s1 k s2 s3 s4 h p5 p6 where
    "(RecursivePageTable_new X (LinearFrameAllocator_alloc X) (Some off) s
      :: (MemoryError, RecursivePageTable) outcome \<times> _) = (Ok pt, s1)"
    "map_kernel X info pt k s1 = (Ok (), s2)" "map_misc X mmap pt s2 = (Ok (), s3)"
    "remap_stack X sp pt s3 = (Ok (), s4)"
    "(highest_valid_region mmap :: (MemoryError, _) outcome) = Ok h"
    "BitmapFrameAllocator_new X (internal_offset pt) ((base h + length_of h) div 4096 div 8) mmap (frames s4) =
      (Ok (frame_allocator ctrl), p5)"
    "VirtualMemoryAllocator_new X (internal_offset pt) ((base h + length_of h) div 4096 div 8 * 2) p5 =
      (Ok (virt_mem_allocator ctrl), p6)"
    "rec_page_table ctrl = pt" "s' = s4\<lparr>frames := p6\<rparr>"
  using run unfolding init_paging_def Let_def info
  by (elim try_reads_OkE try_unit_OkE try_prog_OkE zoom_OkE) auto

lemma init_paging_effect:
  assumes good: "frame_address (frames s)" and info: "hhdm_offset info = Some off" "off mod 4096 = 0"
    "kernel_address info = Some (vb, pb)" and sp: "stack_ok sp"
    and run: "init_paging X info sp mmap s = (Ok ctrl, s')"
  shows "boot_inv (rec_page_table ctrl) s' \<and> internal_offset (rec_page_table ctrl) = off"
proof (rule init_paging_steps [OF info(1) run])
  fix pt s1 k s2 s3 s4 h p5 p6
  assume r1: "(RecursivePageTable_new X (LinearFrameAllocator_alloc X) (Some off) s
      :: (MemoryError, RecursivePageTable) outcome \<times> _) = (Ok pt, s1)"
    and r2: "map_kernel X info pt k s1 = (Ok (), s2)" and r3: "map_misc X mmap pt s2 = (Ok (), s3)"
    and r4: "remap_stack X sp pt s3 = (Ok (), s4)"
    and r5: "BitmapFrameAllocator_new X (internal_offset pt) ((base h + length_of h) div 4096 div 8) mmap
      (frames s4) = (Ok (frame_allocator ctrl), p5)"
    and r6: "VirtualMemoryAllocator_new X (internal_offset pt) ((base h + length_of h) div 4096 div 8 * 2) p5 =
      (Ok (virt_mem_allocator ctrl), p6)"
    and ctrl: "rec_page_table ctrl = pt" "s' = s4\<lparr>frames := p6\<rparr>"
  have i1: "boot_inv pt s1" "internal_offset pt = off"
    using new_OkD [OF _ info(2) r1] good by (simp_all add: linear_good_def)
  have i2: "boot_inv pt s2"
    using map_kernel_effect(1) [OF i1(1) info(3) r2] by (simp add: keeps_mappings_def)
  have i3: "boot_inv pt s3"
    using map_misc_keeps [OF i2 r3] by (simp add: keeps_mappings_def)
  have i4: "boot_inv pt s4"
    by (rule remap_stack_inv [OF i3 sp r4])
  have "frame_address (frames s4)"
    using i4 by (simp add: paging_inv_def linear_good_def)
  moreover obtain al al' where
    "BitmapAllocator_new X (internal_offset pt) ((base h + length_of h) div 4096 div 8) True (frames s4) = (Ok al, p5)"
    "BitmapAllocator_new X (internal_offset pt) ((base h + length_of h) div 4096 div 8 * 2) True p5 = (Ok al', p6)"
    using r5 r6 by (auto simp: BitmapFrameAllocator_new_def VirtualMemoryAllocator_new_def try_prog_Ok_iff)
  ultimately have "frames s4 \<le> p6 \<and> frame_address p6"
    using bitmap_new_frames by (meson le_trans)
  then show ?thesis
    unfolding ctrl using frames_step [OF i4] i1(2) by simp
qed

lemma init_paging_allocator:
  assumes info: "hhdm_offset info = Some off" and run: "init_paging X info sp mmap s = (Ok ctrl, s')"
    and phys: "\<forall>r \<in> set mmap. base r + length_of r < 2 ^ 52"
  shows "bitmap_ok (frame_allocator ctrl)"
proof (rule init_paging_steps [OF info run])
  fix pt s4 h p5
  assume h: "(highest_valid_region mmap :: (MemoryError, _) outcome) = Ok h"
    and r: "BitmapFrameAllocator_new X (internal_offset pt) ((base h + length_of h) div 4096 div 8) mmap
      (frames s4) = (Ok (frame_allocator ctrl), p5)"
  have "(base h + length_of h) div 4096 div 8 < 2 ^ 50"
    using phys highest_valid_region_member [OF h] by (auto simp: div_mult2_eq [symmetric] div_less_iff_less_mult)
  then show ?thesis
    using frame_allocator_new_ok [OF r] by simp
qed

end

end
