(* ===== verification/Memory_Init.thy ===== *)
theory Memory_Init
  imports Paging_Init
begin

text \<open>
  \<open>init_memory\<close> of \<open>memory/mod.rs\<close> with \<open>memory/heap.rs\<close>. The linear allocator starts in the largest
  usable region; the kernel heap, the page tables and the bitmaps are placed there; the new table is
  loaded and the controller stored. The result collects what the function leaves behind: the
  controller stored in \<open>KERNEL_PAGING_CONTROLLER\<close>, the frame written to CR3 and the block given to the
  heap allocator (linked\_list\_allocator). \<open>log_ram_map\<close> and the other
  output are in \<open>Kernel_Main\<close>.
\<close>

definition KERNEL_HEAP_SIZE :: usize where
  "KERNEL_HEAP_SIZE = 4 * MEBIBYTE"

record init_result =
  paging_controller :: KernelPagingController
  cr3 :: PhysAddr
  heap_start :: u64

text \<open>\<open>max_by\<close> on the length: the later of two equal regions wins.\<close>

fun max_by_length :: "MemoryRegionInfo \<Rightarrow> MemoryRegionInfo list \<Rightarrow> MemoryRegionInfo" where
  "max_by_length best [] = best"
| "max_by_length best (r # rs) = max_by_length (if length_of best > length_of r then best else r) rs"

definition largest_usable :: "MemoryRegionInfo list \<Rightarrow> MemoryRegionInfo option" where
  "largest_usable rammap_entries = (case filter (\<lambda>r. region_type r = Usable) rammap_entries of
      [] \<Rightarrow> None | r # rs \<Rightarrow> Some (max_by_length r rs))"

text \<open>The part of \<open>init_memory\<close> from the choice of \<open>allocator_region\<close> on.\<close>

definition init_memory_in ::
    "('pte, 'fl, 'z) x86_64_scheme \<Rightarrow> boot_info \<Rightarrow> MemoryRegionInfo list \<Rightarrow> VirtAddr \<Rightarrow> MemoryRegionInfo \<Rightarrow> u64 \<Rightarrow>
       ('pte boot_state, MemoryError, init_result) prog" where
  "init_memory_in X info rammap_entries physical_memory_offset region entry_stack_pointer =
     try_prog (reads (\<lambda>_. of_lib (PhysAddr_new X (base region)))) (\<lambda>allocator_phys_base.
     try_prog (reads (\<lambda>_. of_lib (VirtAddr_new X (base region)))) (\<lambda>v.
     try_prog (reads (\<lambda>_. of_lib (VirtAddr_add X v physical_memory_offset))) (\<lambda>allocator_virt_base.
     try_prog (reads (\<lambda>_. of_lib (VirtAddr_diff X allocator_virt_base physical_memory_offset))) (\<lambda>d.
     try_prog (reads (\<lambda>_. of_lib (PhysAddr_new X d))) (\<lambda>dummy.
     try_prog (modifies (\<lambda>s. s\<lparr>frames := dummy\<rparr>)) (\<lambda>_.
     let heap_pages = KERNEL_HEAP_SIZE div PAGE_SIZE in
     try_prog (zoom frames (\<lambda>a s. s\<lparr>frames := a\<rparr>) (LinearFrameAllocator_alloc_contiguous X heap_pages)) (\<lambda>heap_phys.
     try_prog (reads (\<lambda>_. of_lib (VirtAddr_new X entry_stack_pointer))) (\<lambda>sp.
     try_prog (init_paging X info sp rammap_entries) (\<lambda>ctrl.
     try_prog (reads (\<lambda>_. of_lib (VirtAddr_new X heap_phys))) (\<lambda>h.
     try_prog (reads (\<lambda>_. of_lib (VirtAddr_add X h (internal_offset (rec_page_table ctrl))))) (\<lambda>heap_virt.
     try_prog (map_err_prog MemoryError_from (RecursivePageTable_map_contiguous X (LinearFrameAllocator_alloc X)
       (rec_page_table ctrl) heap_pages heap_phys heap_virt (flags_rw X))) (\<lambda>_.
     try_prog (reads (\<lambda>s. Ok (frames s))) (\<lambda>used.
     try_prog (run_local (BitmapAllocator_flag_range
       (allocator_phys_base div PAGE_SIZE, used div PAGE_SIZE) True) (frame_allocator ctrl)) (\<lambda>fa.
     try_prog (reads (\<lambda>_. RecursivePageTable_load X (rec_page_table ctrl))) (\<lambda>loaded.
     ret \<lparr>paging_controller = ctrl\<lparr>frame_allocator := fa, rec_page_table := snd loaded\<rparr>,
          cr3 = fst loaded, heap_start = heap_virt\<rparr>)))))))))))))))"

definition init_memory ::
    "('pte, 'fl, 'z) x86_64_scheme \<Rightarrow> boot_info \<Rightarrow> MemoryRegionInfo list option \<Rightarrow> u64 \<Rightarrow>
       ('pte boot_state, MemoryError, init_result) prog" where
  "init_memory X info memory_map entry_stack_pointer =
     try_prog (reads (\<lambda>_. unwrap_option memory_map)) (\<lambda>rammap_entries.
     try_prog (reads (\<lambda>_. unwrap_option (hhdm_offset info))) (\<lambda>offset.
     try_prog (reads (\<lambda>_. of_lib (VirtAddr_new X offset))) (\<lambda>physical_memory_offset.
     case largest_usable rammap_entries of
       None \<Rightarrow> throw AllocationError
     | Some allocator_region \<Rightarrow>
         init_memory_in X info rammap_entries physical_memory_offset allocator_region entry_stack_pointer)))"

lemma max_by_length_max:
  "max_by_length best rs \<in> set (best # rs) \<and> (\<forall>r \<in> set (best # rs). length_of r \<le> length_of (max_by_length best rs))"
proof (induction rs arbitrary: best)
  case (Cons r rs)
  show ?case
    using Cons.IH [of "if length_of best > length_of r then best else r"] by (auto split: if_splits)
qed simp

lemma largest_usable_SomeD:
  assumes "largest_usable mmap = Some r"
  shows "r \<in> set mmap" "region_type r = Usable"
    "\<forall>r' \<in> set mmap. region_type r' = Usable \<longrightarrow> length_of r' \<le> length_of r"
proof -
  obtain x xs where x: "filter (\<lambda>r. region_type r = Usable) mmap = x # xs" "r = max_by_length x xs"
    using assms by (auto simp: largest_usable_def split: list.splits)
  have "r \<in> set (filter (\<lambda>r. region_type r = Usable) mmap)"
    "\<forall>r' \<in> set (filter (\<lambda>r. region_type r = Usable) mmap). length_of r' \<le> length_of r"
    unfolding x using max_by_length_max [of x xs] by simp_all
  then show "r \<in> set mmap" "region_type r = Usable"
    "\<forall>r' \<in> set mmap. region_type r' = Usable \<longrightarrow> length_of r' \<le> length_of r"
    by auto
qed

section \<open>What \<open>init_memory\<close> leaves behind\<close>

context x86_64_crate
begin

lemma init_memory_steps:
  assumes info: "hhdm_offset info = Some off"
    and run: "init_memory X info (Some mmap) sp s = (Ok res, s')"
  obtains region p ctrl s1 frame pt where
    "largest_usable mmap = Some region" "base region < 2 ^ 52" "p = base region + 1024 * 4096" "p < 2 ^ 52"
    "init_paging X info sp mmap (s\<lparr>frames := p\<rparr>) = (Ok ctrl, s1)"
    "heap_start res = base region + internal_offset (rec_page_table ctrl)"
    "RecursivePageTable_map_contiguous X (LinearFrameAllocator_alloc X) (rec_page_table ctrl) 1024
       (base region) (heap_start res) (flags_rw X) s1 = (Ok (), s')"
    "BitmapAllocator_flag_range (base region div 4096, frames s' div 4096) True (frame_allocator ctrl) =
       (Ok (), frame_allocator (paging_controller res))"
    "(RecursivePageTable_load X (rec_page_table ctrl) :: (MemoryError, _) outcome) = Ok (cr3 res, pt)"
    "rec_page_table (paging_controller res) = pt"
proof -
  have pages: "KERNEL_HEAP_SIZE div PAGE_SIZE = 1024"
    by (simp add: KERNEL_HEAP_SIZE_def MEBIBYTE_def KIBIBYTE_def)
  obtain region where region: "largest_usable mmap = Some region"
    and body: "init_memory_in X info mmap off region sp s = (Ok res, s')"
    using run info by (auto simp: init_memory_def VirtAddr_new split: option.splits if_splits)
  show ?thesis
    using body unfolding init_memory_in_def Let_def pages
    by (elim try_reads_OkE try_unit_OkE try_prog_OkE zoom_OkE)
      (rule that [OF region]; auto simp: VirtAddr_new VirtAddr_add VirtAddr_diff PhysAddr_new
        LinearFrameAllocator_alloc_contiguous_eq split: if_splits)
qed

lemma init_memory_effect:
  assumes info: "hhdm_offset info = Some off" "off mod 4096 = 0" "kernel_address info = Some (vb, pb)"
    and sp: "stack_ok sp"
    and mmap: "\<forall>r \<in> set mmap. base r + length_of r < 2 ^ 52"
      "\<forall>r \<in> set mmap. region_type r = Usable \<longrightarrow> base r mod 4096 = 0"
    and run: "init_memory X info (Some mmap) sp s = (Ok res, s')"
  obtains region pt where "largest_usable mmap = Some region"
    "boot_inv pt s'" "internal_offset pt = off" "lvl4 pt = cr3 res + off"
    "rec_page_table (paging_controller res) = pt\<lparr>lvl4 := LEVEL4\<rparr>"
    "heap_start res = base region + off"
    "\<forall>k < 1024. mapped X pt (tables s') (heap_start res + k * 4096) = Some (base region + k * 4096, flags_rw X)"
    "bitmap_ok (frame_allocator (paging_controller res))"
    "{base region div 4096..<frames s' div 4096} \<subseteq> allocated (frame_allocator (paging_controller res))"
proof (rule init_memory_steps [OF info(1) run])
  fix region p ctrl s1 pt
  assume region: "largest_usable mmap = Some region" and base: "base region < 2 ^ 52"
    and p: "p = base region + 1024 * 4096" "p < 2 ^ 52"
    and init: "init_paging X info sp mmap (s\<lparr>frames := p\<rparr>) = (Ok ctrl, s1)"
    and heap: "heap_start res = base region + internal_offset (rec_page_table ctrl)"
    and hmap: "RecursivePageTable_map_contiguous X (LinearFrameAllocator_alloc X) (rec_page_table ctrl) 1024
       (base region) (heap_start res) (flags_rw X) s1 = (Ok (), s')"
    and mark: "BitmapAllocator_flag_range (base region div 4096, frames s' div 4096) True (frame_allocator ctrl) =
       (Ok (), frame_allocator (paging_controller res))"
    and load: "(RecursivePageTable_load X (rec_page_table ctrl) :: (MemoryError, _) outcome) = Ok (cr3 res, pt)"
    and pt: "rec_page_table (paging_controller res) = pt"
  have "base region mod 4096 = 0"
    using largest_usable_SomeD(1,2) [OF region] mmap(2) by blast
  then have "p mod 4096 = 0"
    unfolding p(1) mod_mult_self1 .
  then have "frame_address (frames (s\<lparr>frames := p\<rparr>))"
    using p(2) by (simp add: frame_address_def)
  from init_paging_effect [OF this info sp init]
  have inv1: "boot_inv (rec_page_table ctrl) s1" and off: "internal_offset (rec_page_table ctrl) = off"
    by auto
  have inv: "boot_inv (rec_page_table ctrl) s'"
    and hp: "range_mapped 1024 (base region) (heap_start res) (flags_rw X)
      (mapped X (rec_page_table ctrl) (tables s1)) (mapped X (rec_page_table ctrl) (tables s'))"
    using map_contiguous_boot [OF inv1 base section_flags_present(3) hmap] by auto
  have fa: "bitmap_ok (frame_allocator (paging_controller res))"
    "{base region div 4096..<frames s' div 4096} \<subseteq> allocated (frame_allocator (paging_controller res))"
    using flag_range_marked [OF init_paging_allocator [OF info(1) init mmap(1)] mark] by auto
  have ld: "lvl4 (rec_page_table ctrl) = cr3 res + off" "pt = (rec_page_table ctrl)\<lparr>lvl4 := LEVEL4\<rparr>"
    using load off by (auto simp: RecursivePageTable_load_def try_outcome_Ok_iff PhysAddr_new from_start_address
        split: if_splits)
  show thesis
    by (rule that [OF region inv off ld(1) _ _ _ fa])
      (use pt ld(2) heap off hp in \<open>auto simp: range_mapped_def\<close>)
qed

end

text \<open>What \<open>init_memory\<close> leaves behind when it succeeds: the page table that CR3 points at satisfies
  the invariant, the four mebibytes of kernel heap are mapped writable and not executable to
  consecutive frames at the start of the largest usable region, every frame the linear allocator
  handed out (heap, page tables, bitmaps) is marked as used in the frame allocator, and the
  controller's table pointer is \<open>LEVEL4\<close>.\<close>

lemma init_memory_establishes:
  assumes "x86_64_crate X" "hhdm_offset info = Some off" "off mod 4096 = 0"
    and "kernel_address info = Some (vb, pb)" "stack_ok sp"
    and "\<forall>r \<in> set mmap. base r + length_of r < 2 ^ 52"
    and "\<forall>r \<in> set mmap. region_type r = Usable \<longrightarrow> base r mod 4096 = 0"
    and "init_memory X info (Some mmap) sp s = (Ok res, s')"
  shows "\<exists>region pt. region \<in> set mmap \<and> region_type region = Usable \<and>
    (\<forall>r \<in> set mmap. region_type r = Usable \<longrightarrow> length_of r \<le> length_of region) \<and>
    paging_inv X linear_good linear_taken pt s' \<and> lvl4 pt = cr3 res + off \<and>
    rec_page_table (paging_controller res) = pt\<lparr>lvl4 := LEVEL4\<rparr> \<and>
    (\<forall>k < 1024. mapped X pt (tables s') (heap_start res + k * 4096) = Some (base region + k * 4096, flags_rw X)) \<and>
    bitmap_ok (frame_allocator (paging_controller res)) \<and>
    {base region div 4096..<frames s' div 4096} \<subseteq> allocated (frame_allocator (paging_controller res))"
  by (rule x86_64_crate.init_memory_effect [OF assms])
    (use largest_usable_SomeD in blast)

end
