(* ===== verification/Allocator_Properties.thy ===== *)
theory Allocator_Properties
  imports Frame_Allocation Page_Mapping
begin

text \<open>
  The properties of the allocators of page frames and virtual pages, over the definitions of
  \<open>Linear_Frame_Allocator\<close>, \<open>Bitmap_Allocator\<close>, \<open>Frame_Allocation\<close> and \<open>Page_Mapping\<close>, with their
  witnesses on small bitmaps.
\<close>

section \<open>Concrete bitmaps\<close>

definition sample_bitmap :: BitmapAllocator where
  "sample_bitmap = \<lparr>bitmap = [0xFF, 0x00, 0xFF, 0x00, 0x00], bits_size = 40, last_allocated = 0\<rparr>"

lemma sample_ok: "bitmap_ok sample_bitmap"
  by (simp add: bitmap_ok_def sample_bitmap_def)

lemma sample_fields: "bits_size sample_bitmap = 40" "last_allocated sample_bitmap = 0"
  by (simp_all add: sample_bitmap_def)

lemma sample_allocated: "allocated sample_bitmap = {0..<8} \<union> {16..<24}"
proof -
  have bytes: "i \<in> allocated sample_bitmap \<longleftrightarrow> i div 8 = 0 \<or> i div 8 = 2" for i
  proof (cases "i < 40")
    case True
    then consider "i div 8 = 0" | "i div 8 = 1" | "i div 8 = 2" | "i div 8 = 3" | "i div 8 = 4"
      by linarith
    then show ?thesis
      by cases (use True in \<open>simp_all add: allocated_def sample_bitmap_def\<close>)
  qed (auto simp: allocated_def sample_bitmap_def)
  have "i div 8 = 0 \<longleftrightarrow> i \<in> {0..<8}" "i div 8 = 2 \<longleftrightarrow> i \<in> {16..<24}" for i :: nat
    by auto
  then show ?thesis
    using bytes by blast
qed

lemma sample_hole: "{8..<16} \<inter> allocated sample_bitmap = {}"
  by (auto simp: sample_allocated)

lemma sample_alloc:
  assumes "bits \<le> 8" "0 < bits"
  obtains p al' where "BitmapAllocator_alloc x86_64_entries bits sample_bitmap = (Ok p, al')"
proof -
  have "round_up_8 bits = 8"
    using assms by (cases "bits = 1") (auto simp: round_up_8_def intro!: div_nat_eqI)
  then show ?thesis
    using that entries.alloc_small_complete [OF sample_ok, of bits 8] sample_hole assms
    by (auto simp: sample_fields)
qed

section \<open>Allocation\<close>

text \<open>C20. A request for 1 to 16 bits that is answered gets a range that lies inside the bitmap, was
  entirely free, and is marked afterwards; no other bit changes and the invariant is kept.\<close>

theorem alloc_sound:
  assumes "x86_64_crate X" "bitmap_ok al" "0 < bits" "bits \<le> 16"
    and "BitmapAllocator_alloc X bits al = (Ok p, al')"
  shows "last_allocated al \<le> p \<and> p + bits \<le> bits_size al \<and> {p..<p + bits} \<inter> allocated al = {} \<and>
    allocated al' = allocated al \<union> {p..<p + bits} \<and> last_allocated al' = p + bits \<and> bitmap_ok al'"
  using x86_64_crate.alloc_small_sound [OF assms] by blast

theorem alloc_sound_witness:
  "\<exists>p al'. BitmapAllocator_alloc x86_64_entries 5 sample_bitmap = (Ok p, al') \<and>
     allocated al' = {0..<8} \<union> {16..<24} \<union> {p..<p + 5} \<and> {p..<p + 5} \<inter> ({0..<8} \<union> {16..<24}) = {}"
proof -
  obtain p al' where run: "BitmapAllocator_alloc x86_64_entries 5 sample_bitmap = (Ok p, al')"
    by (rule sample_alloc [of 5]) simp_all
  have small: "(0::nat) < 5" "(5::nat) \<le> 16"
    by simp_all
  show ?thesis
    using run alloc_sound [OF entries.x86_64_crate_axioms sample_ok small run]
    unfolding sample_allocated by blast
qed

text \<open>C21. In a bitmap with more bits than are requested, a request for at most 16 bits is answered whenever some free range of that size, rounded up
  to whole bytes, lies at or after the position of the last allocation; the answer is at or before
  that range. So no free range that the scan can see is missed.\<close>

theorem alloc_complete:
  assumes "x86_64_crate X" "bitmap_ok al" "bits \<le> 16" "bits < bits_size al"
    and "last_allocated al \<le> q" "q + round_up_8 bits \<le> bits_size al"
    and "{q..<q + round_up_8 bits} \<inter> allocated al = {}"
  shows "\<exists>p al'. BitmapAllocator_alloc X bits al = (Ok p, al') \<and> p \<le> q"
  by (rule x86_64_crate.alloc_small_complete [OF assms])

theorem alloc_complete_witness:
  "\<exists>p al'. BitmapAllocator_alloc x86_64_entries 3 sample_bitmap = (Ok p, al') \<and> p \<le> 8"
  by (rule alloc_complete [OF entries.x86_64_crate_axioms sample_ok])
    (auto simp: sample_fields sample_allocated round_up_8_def)

text \<open>C22. A sequence of requests of 1 to 16 bits, all answered, gets pairwise disjoint ranges, none of
  which was in use before; afterwards exactly these ranges have been added.\<close>

theorem alloc_sequence_disjoint:
  assumes "x86_64_crate X" "bitmap_ok al" "\<forall>n \<in> set ns. 0 < n \<and> n \<le> 16"
    and "request_all (BitmapAllocator_alloc X) ns al = Some (rs, al')"
  shows "sorted_wrt (\<lambda>r r'. range_set r \<inter> range_set r' = {}) rs \<and>
    (\<forall>r \<in> set rs. range_set r \<inter> allocated al = {}) \<and>
    allocated al' = allocated al \<union> (\<Union> (range_set ` set rs)) \<and> bitmap_ok al'"
  by (rule range_allocator.request_all_disjoint [OF x86_64_crate.bits_allocator [OF assms(1)] assms(2-4)])

lemma sample_two_requests:
  obtains p q al where "request_all (BitmapAllocator_alloc x86_64_entries) [7, 5] sample_bitmap = Some ([(p, 7), (q, 5)], al)"
proof -
  obtain p al1 where run: "BitmapAllocator_alloc x86_64_entries 7 sample_bitmap = (Ok p, al1)" and p: "p \<le> 8"
    using entries.alloc_small_complete [OF sample_ok, of 7 8] sample_hole by (auto simp: sample_fields round_up_8_def)
  then have al1: "bitmap_ok al1" "bits_size al1 = 40" "last_allocated al1 = p + 7" "allocated al1 = {0..<8} \<union> {16..<24} \<union> {p..<p + 7}"
    using entries.alloc_small_sound [OF sample_ok _ _ run] by (auto simp: sample_allocated sample_fields)
  have "{24..<32} \<inter> ({0..<8} \<union> {16..<24} \<union> {p..<p + 7}) = {}"
    using p by auto
  then obtain q al2 where "BitmapAllocator_alloc x86_64_entries 5 al1 = (Ok q, al2)"
    using entries.alloc_small_complete [OF al1(1), of 5 24] al1 p by (auto simp: round_up_8_def)
  then show ?thesis
    using that run by simp
qed

theorem alloc_sequence_disjoint_witness:
  "\<exists>p q al'. request_all (BitmapAllocator_alloc x86_64_entries) [7, 5] sample_bitmap = Some ([(p, 7), (q, 5)], al') \<and>
     range_set (p, 7) \<inter> range_set (q, 5) = {} \<and> range_set (q, 5) \<inter> {16..<24} = {}"
proof -
  obtain p q al where run: "request_all (BitmapAllocator_alloc x86_64_entries) [7, 5] sample_bitmap = Some ([(p, 7), (q, 5)], al)"
    by (rule sample_two_requests)
  with alloc_sequence_disjoint [OF entries.x86_64_crate_axioms sample_ok _ run] show ?thesis
    by (auto simp: sample_allocated)
qed

text \<open>C23. In a bitmap with more bits than are requested, the scan for a request of at most 16 bits is a first fit: it returns the first position, from
  the last allocation on, with no bit in use among the next \<open>round_up_8 bits\<close> positions, fails with
  \<open>AllocationError\<close> only when there is none, and never panics.\<close>

theorem scan_first_fit:
  assumes "x86_64_crate X" "bitmap_ok al" "bits \<le> 16" "bits < bits_size al"
  shows "case BitmapAllocator_scan X al bits of
      Ok p \<Rightarrow> last_allocated al \<le> p \<and>
        \<not> blocked (bitmap al) (round_up_8 bits) (bits_size al * 8) p \<and>
        (\<forall>q. last_allocated al \<le> q \<and> q < p \<longrightarrow> blocked (bitmap al) (round_up_8 bits) (bits_size al * 8) q)
    | Err e \<Rightarrow> e = AllocationError \<and> (\<forall>q. last_allocated al \<le> q \<and> q < bits_size al * 8 \<longrightarrow>
        blocked (bitmap al) (round_up_8 bits) (bits_size al * 8) q)
    | Panic p \<Rightarrow> False"
  using x86_64_crate.scan_small [OF assms] by (auto simp: first_fit_def split: outcome.splits)

theorem scan_first_fit_witness:
  "\<exists>p. BitmapAllocator_scan x86_64_entries sample_bitmap 6 = Ok p \<and> p \<le> 8"
proof -
  have small: "(6::nat) \<le> 16" "6 < bits_size sample_bitmap"
    by (simp_all add: sample_fields)
  have "\<not> blocked (bitmap sample_bitmap) (round_up_8 6) (bits_size sample_bitmap * 8) 8"
    using blocked_in_bitmap [OF sample_ok, of 8 "round_up_8 6"] sample_hole
    by (simp add: round_up_8_def sample_fields)
  then show ?thesis
    using scan_first_fit [OF entries.x86_64_crate_axioms sample_ok small]
    by (auto simp: sample_fields split: outcome.splits) (meson not_le)
qed

section \<open>Larger requests\<close>

text \<open>C24. Requests for more than 16 bits are decided by the wrong bytes. In a bitmap with more bits than are requested,
  whose last allocation does not lie behind its end, such a request is only ever answered with a
  position \<open>p\<close> when the bytes number \<open>p\<close>, \<open>p + 8\<close>, and so on, one for each requested bit, are zero; and when
  these bytes are zero for the position of the last allocation, rounded up to a multiple of eight, that position is
  handed out and marked, whether or not the bits of the range are in use.\<close>

theorem large_request_reads_wrong_bytes:
  assumes "x86_64_crate X" "bitmap_ok al" "16 < bits" "bits < bits_size al" "last_allocated al \<le> bits_size al"
  defines "start \<equiv> (last_allocated al + 7) div 8 * 8"
  shows "(\<forall>p al'. BitmapAllocator_alloc X bits al = (Ok p, al') \<longrightarrow>
      last_allocated al \<le> p \<and> (\<forall>k < bits. p + 8 * k < length (bitmap al) \<and> bitmap al ! (p + 8 * k) = 0)) \<and>
    ((\<forall>k < bits. start + 8 * k < length (bitmap al) \<and> bitmap al ! (start + 8 * k) = 0) \<longrightarrow>
      (\<exists>al'. BitmapAllocator_alloc X bits al = (Ok start, al') \<and> bitmap_ok al' \<and>
         allocated al' = allocated al \<union> {start..<start + bits}))"
proof (intro conjI impI)
  show "\<forall>p al'. BitmapAllocator_alloc X bits al = (Ok p, al') \<longrightarrow>
      last_allocated al \<le> p \<and> (\<forall>k < bits. p + 8 * k < length (bitmap al) \<and> bitmap al ! (p + 8 * k) = 0)"
    using x86_64_crate.alloc_large_reads [OF assms(1-3,5)] unfolding bytes_read_free_def by blast
  assume "\<forall>k < bits. start + 8 * k < length (bitmap al) \<and> bitmap al ! (start + 8 * k) = 0"
  then have "bytes_read_free (bitmap al) bits ((last_allocated al + 7) div 8 * 8)"
    unfolding bytes_read_free_def start_def .
  from x86_64_crate.alloc_large_free [OF assms(1-4) this]
  show "\<exists>al'. BitmapAllocator_alloc X bits al = (Ok start, al') \<and> bitmap_ok al' \<and>
      allocated al' = allocated al \<union> {start..<start + bits}"
    unfolding start_def by blast
qed

text \<open>Bits 8 to 15 are in use, and 17 bits from bit 8 on are handed out.\<close>

definition striped_bitmap :: BitmapAllocator where
  "striped_bitmap = \<lparr>bitmap = 0 # 0xFF # replicate 158 0, bits_size = 1280, last_allocated = 8\<rparr>"

theorem large_request_reads_wrong_bytes_witness:
  "8 \<in> allocated striped_bitmap \<and> (\<exists>al'. BitmapAllocator_alloc x86_64_entries 17 striped_bitmap = (Ok 8, al'))"
proof -
  have ok: "bitmap_ok striped_bitmap" "(16 :: nat) < 17" "17 < bits_size striped_bitmap"
    "last_allocated striped_bitmap \<le> bits_size striped_bitmap" "(last_allocated striped_bitmap + 7) div 8 * 8 = 8"
    by (simp_all add: bitmap_ok_def striped_bitmap_def)
  have "\<forall>k < 17. 8 + 8 * k < length (bitmap striped_bitmap) \<and> bitmap striped_bitmap ! (8 + 8 * k) = 0"
    by (auto simp: striped_bitmap_def nth_Cons')
  moreover have "8 \<in> allocated striped_bitmap"
    by (simp add: allocated_def striped_bitmap_def)
  ultimately show ?thesis
    using large_request_reads_wrong_bytes [OF entries.x86_64_crate_axioms ok(1-4), unfolded ok(5)] by blast
qed

section \<open>Marking and checking\<close>

text \<open>C25. Marking a range as used adds exactly that range. Clearing a range clears only the whole bytes
  inside it, and nothing when the range is shorter than eight bits: the bits before the first and after
  the last byte boundary keep their value.\<close>

theorem flag_range_marks:
  assumes "bitmap_ok al" "s \<le> e" "e \<le> bits_size al"
  shows "\<exists>al'. BitmapAllocator_flag_range (s, e) flg al = (Ok (), al') \<and> bitmap_ok al' \<and>
    allocated al' = (if flg then allocated al \<union> {s..<e}
      else allocated al - (if e - s < 8 then {} else {s + (8 - s mod 8) mod 8..<e - e mod 8}))"
proof -
  obtain al' where "BitmapAllocator_flag_range (s, e) flg al = (Ok (), al')" "same_shape al al'"
    "allocated al' = (if flg then allocated al \<union> {s..<e} else allocated al - range_cleared s e)"
    using flag_range_effect [OF assms] by blast
  then show ?thesis
    using assms(1) same_shape_ok [of al al'] by (simp add: range_cleared_def)
qed

theorem flag_range_marks_witness:
  "\<exists>al'. BitmapAllocator_flag_range (20, 22) False sample_bitmap = (Ok (), al') \<and>
     allocated al' = {0..<8} \<union> {16..<24}"
  using flag_range_marks [OF sample_ok, of 20 22 False] by (auto simp: sample_fields sample_allocated)

text \<open>C26. \<open>check_range\<close>, which compares whole bytes in the middle of the range, answers what a check of
  every single bit would.\<close>

theorem check_range_bitwise:
  assumes "bitmap_ok al" "s \<le> e" "e \<le> bits_size al"
  shows "BitmapAllocator_check_range al (s, e) st = Ok (\<forall>i. s \<le> i \<and> i < e \<longrightarrow>
    BitmapAllocator_check al i st = Ok True)"
proof -
  have "BitmapAllocator_check al i st = Ok (st = (i \<in> allocated al))" if "i < e" for i
    using check_ok [OF assms(1)] that assms(3) by simp
  then show ?thesis
    unfolding check_range_effect [OF assms] by auto
qed

theorem check_range_bitwise_witness:
  "BitmapAllocator_check_range sample_bitmap (3, 20) True \<noteq> Ok True"
proof -
  have "BitmapAllocator_check sample_bitmap 9 True \<noteq> Ok True"
    using check_ok [OF sample_ok, of 9 True] by (simp add: sample_fields sample_allocated)
  then show ?thesis
    using check_range_bitwise [OF sample_ok, of 3 20 True]
    by (auto simp: sample_fields intro!: exI [of _ 9])
qed

section \<open>Releasing\<close>

text \<open>C27. \<open>free\<close> has its check the wrong way round and releases nothing: a bit in use is answered with
  \<open>DoubleFree\<close>, a free bit with \<open>Ok\<close>, and the bitmap never changes.\<close>

theorem free_never_frees:
  assumes "bitmap_ok al" "bt < bits_size al"
  shows "BitmapAllocator_free bt al = (if bt \<in> allocated al then Err DoubleFree else Ok (), al)"
  using free_effect [OF assms(1)] assms(2) by simp

theorem free_never_frees_witness:
  "BitmapAllocator_free 20 sample_bitmap = (Err DoubleFree, sample_bitmap)"
  using free_never_frees [OF sample_ok, of 20] by (simp add: sample_fields sample_allocated)

text \<open>No range is ever released: \<open>free_range\<close> ends in \<open>todo!()\<close>, so neither the frame allocator nor
  the allocator of virtual pages ever returns from a release of a range with \<open>Ok\<close>; on a free range it
  panics.\<close>

theorem free_range_never_returns:
  "fst (BitmapFrameAllocator_free_contiguous phys pages al) \<noteq> Ok () \<and>
   fst (VirtualMemoryAllocator_free virt pages al) \<noteq> Ok ()"
proof
  show "fst (BitmapFrameAllocator_free_contiguous phys pages al) \<noteq> Ok ()"
    using free_range_not_Ok [of _ al]
    by (auto simp: BitmapFrameAllocator_free_contiguous_def Let_def add64_def)
  show "fst (VirtualMemoryAllocator_free virt pages al) \<noteq> Ok ()"
    by (rule VirtualMemoryAllocator_free_not_Ok)
qed

section \<open>Building the allocators\<close>

lemma frame_allocator_new:
  assumes "x86_64_crate X" "frame_address start" "start + size_in_pages n * 4096 < 2 ^ 52"
    and "canonical (start + off)" "n < 2 ^ 50"
    and regions: "\<forall>r \<in> set mmap. region_type r = Usable \<longrightarrow>
      base r + length_of r < 2 ^ 64 \<and> (base r + length_of r) div 4096 \<le> 8 * n"
  shows "\<exists>al. BitmapFrameAllocator_new X off n mmap start = (Ok al, start + size_in_pages n * 4096) \<and>
    bitmap_ok al \<and> bits_size al = 8 * n \<and> last_allocated al = 0 \<and>
    allocated al = {..<8 * n} - (\<Union> (region_cleared ` {r \<in> set mmap. region_type r = Usable}))"
proof -
  obtain al0 where al0: "BitmapAllocator_new X off n True start = (Ok al0, start + size_in_pages n * 4096)"
    "bitmap_ok al0" "bits_size al0 = 8 * n" "last_allocated al0 = 0" "allocated al0 = {..<8 * n}"
    using x86_64_crate.new_effect [OF assms(1-5), of True] by auto
  let ?rs = "filter (\<lambda>r. region_type r = Usable) mmap"
  have "\<forall>r \<in> set ?rs. base r + length_of r < 2 ^ 64 \<and> snd (region_frames r) \<le> bits_size al0"
    using regions al0(3) by (simp add: region_frames_def)
  from clear_regions_effect [OF al0(2) this] obtain al where
    al: "for_each ?rs clear_region al0 = (Ok (), al)" "same_shape al0 al"
    "allocated al = allocated al0 - (\<Union> (region_cleared ` set ?rs))"
    by blast
  then have "BitmapFrameAllocator_new X off n mmap start = (Ok al, start + size_in_pages n * 4096)"
    using al0(1) by (simp add: BitmapFrameAllocator_new_def try_prog_Ok)
  moreover have "bitmap_ok al"
    using same_shape_ok [OF al(2)] al0(2) by simp
  ultimately show ?thesis
    using al(2,3) al0(3-5) by (auto simp: same_shape_def)
qed

text \<open>C28. The frame allocator built from the memory map: when every usable region ends inside the bitmap,
  \<open>new\<close> succeeds, and a frame is free afterwards exactly when it lies in the part of a usable region
  made of whole groups of eight frames. No frame outside the usable regions is ever free.\<close>

theorem frame_allocator_frees_usable:
  assumes "x86_64_crate X" "frame_address start" "start + size_in_pages n * 4096 < 2 ^ 52"
    and "canonical (start + off)" "n < 2 ^ 50"
    and regions: "\<forall>r \<in> set mmap. region_type r = Usable \<longrightarrow> base r mod 4096 = 0 \<and>
      base r + length_of r < 2 ^ 64 \<and> (base r + length_of r) div 4096 \<le> 8 * n"
  shows "\<exists>al. BitmapFrameAllocator_new X off n mmap start = (Ok al, start + size_in_pages n * 4096) \<and>
    bitmap_ok al \<and> bits_size al = 8 * n \<and>
    (\<forall>f < 8 * n. f \<notin> allocated al \<longleftrightarrow> (\<exists>r \<in> set mmap. region_type r = Usable \<and> f \<in> region_cleared r)) \<and>
    (\<forall>f < 8 * n. f \<notin> allocated al \<longrightarrow> (\<exists>r \<in> set mmap. region_type r = Usable \<and>
       base r \<le> f * 4096 \<and> f * 4096 + 4096 \<le> base r + length_of r))"
proof -
  obtain al where al: "BitmapFrameAllocator_new X off n mmap start = (Ok al, start + size_in_pages n * 4096)"
    "bitmap_ok al" "bits_size al = 8 * n"
    "allocated al = {..<8 * n} - (\<Union> (region_cleared ` {r \<in> set mmap. region_type r = Usable}))"
    using frame_allocator_new [OF assms(1-5)] regions by blast
  have free: "f \<notin> allocated al \<longleftrightarrow> (\<exists>r \<in> set mmap. region_type r = Usable \<and> f \<in> region_cleared r)"
    if "f < 8 * n" for f
    using that by (auto simp: al(4))
  have inside: "base r \<le> f * 4096 \<and> f * 4096 + 4096 \<le> base r + length_of r"
    if "f \<in> region_cleared r" "base r mod 4096 = 0" for f r
  proof -
    have "base r div 4096 \<le> f" "f < (base r + length_of r) div 4096"
      using that(1) by (auto simp: region_cleared_def region_frames_def range_cleared_def
          split: if_splits intro: less_le_trans [OF _ diff_le_self])
    then have "base r div 4096 \<le> f" "f + 1 \<le> (base r + length_of r) div 4096"
      by simp_all
    then have "base r div 4096 * 4096 \<le> f * 4096" "(f + 1) * 4096 \<le> base r + length_of r"
      by (simp_all add: less_eq_div_iff_mult_less_eq)
    then show ?thesis
      using div_mult_mod_eq [of "base r" 4096] that(2) by simp
  qed
  have usable: "\<exists>r \<in> set mmap. region_type r = Usable \<and> base r \<le> f * 4096 \<and>
      f * 4096 + 4096 \<le> base r + length_of r" if "f < 8 * n" "f \<notin> allocated al" for f
    using free [OF that(1)] that(2) inside regions by metis
  show ?thesis
    using al(1-3) free usable by (intro exI [of _ al]) simp
qed

definition sample_mmap :: "MemoryRegionInfo list" where
  "sample_mmap = [\<lparr>base = 0x8000, length_of = 0x10000, region_type = Usable\<rparr>,
     \<lparr>base = 0x20000, length_of = 0x1000, region_type = Reserved\<rparr>]"

theorem frame_allocator_frees_usable_witness:
  "\<exists>al. BitmapFrameAllocator_new x86_64_entries 0xFFFF800000000000 3 sample_mmap 0x100000 =
     (Ok al, 0x101000) \<and> 9 \<notin> allocated al \<and> 3 \<in> allocated al"
proof -
  have pre: "frame_address 0x100000" "0x100000 + size_in_pages 3 * 4096 < 2 ^ 52"
    "canonical (0x100000 + 0xFFFF800000000000)" "(3::nat) < 2 ^ 50"
    "\<forall>r \<in> set sample_mmap. region_type r = Usable \<longrightarrow> base r mod 4096 = 0 \<and>
      base r + length_of r < 2 ^ 64 \<and> (base r + length_of r) div 4096 \<le> 8 * 3"
    by (simp_all add: frame_address_def size_in_pages_def canonical_def sample_mmap_def)
  have cleared: "(\<exists>r \<in> set sample_mmap. region_type r = Usable \<and> f \<in> region_cleared r) \<longleftrightarrow> f \<in> {8..<24}" for f
    by (simp add: sample_mmap_def region_cleared_def region_frames_def range_cleared_def)
  obtain al where al: "BitmapFrameAllocator_new x86_64_entries 0xFFFF800000000000 3 sample_mmap 0x100000 =
      (Ok al, 0x100000 + size_in_pages 3 * 4096)"
    "\<forall>f < 8 * 3. f \<notin> allocated al \<longleftrightarrow> f \<in> {8..<24}"
    using frame_allocator_frees_usable [OF entries.x86_64_crate_axioms pre] unfolding cleared by blast
  have "3 \<in> allocated al" "9 \<notin> allocated al"
    using spec [OF al(2), of 3] spec [OF al(2), of 9] by simp_all
  then show ?thesis
    using al(1) by (simp add: size_in_pages_def)
qed

text \<open>The allocator of virtual pages is created with every bit set and never answers a request: after
  \<open>new\<close>, \<open>alloc_contiguous\<close> fails or panics for every number of pages, and stays so.\<close>

theorem virtual_allocator_never_allocates:
  assumes "x86_64_crate X" "frame_address start" "start + size_in_pages n * 4096 < 2 ^ 52"
    and "canonical (start + off)" "n < 2 ^ 50" and "0 < pages"
  shows "\<exists>al. VirtualMemoryAllocator_new X off n start = (Ok al, start + size_in_pages n * 4096) \<and>
    bits_size al = 8 * n \<and> (\<nexists>v. fst (VirtualMemoryAllocator_alloc_contiguous X pages al) = Ok v)"
proof -
  obtain al where al: "BitmapAllocator_new X off n True start = (Ok al, start + size_in_pages n * 4096)"
    "bitmap_ok al" "bits_size al = 8 * n" "allocated al = {..<8 * n}"
    using x86_64_crate.new_effect [OF assms(1-5), of True] by auto
  then have full: "bitmap_full al"
    by (simp add: bitmap_full_def)
  have "fst (VirtualMemoryAllocator_alloc_contiguous X pages al) \<noteq> Ok v" for v
  proof
    assume "fst (VirtualMemoryAllocator_alloc_contiguous X pages al) = Ok v"
    then obtain al' where "VirtualMemoryAllocator_alloc_contiguous X pages al = (Ok v, al')"
      by (metis prod.collapse)
    then obtain page where "BitmapAllocator_alloc X pages al = (Ok page, al')"
      by (rule x86_64_crate.VirtualMemoryAllocator_alloc_Ok [OF assms(1)])
    then show False
      using x86_64_crate.alloc_full [OF assms(1) full assms(6)] by (metis fst_conv)
  qed
  then show ?thesis
    using al by (auto simp: VirtualMemoryAllocator_new_def try_prog_Ok)
qed

theorem virtual_allocator_never_allocates_witness:
  "\<exists>al. VirtualMemoryAllocator_new x86_64_entries 0xFFFF800000000000 4096 0x100000 = (Ok al, 0x101000) \<and>
     (\<nexists>v. fst (VirtualMemoryAllocator_alloc_contiguous x86_64_entries 4 al) = Ok v)"
proof -
  have pre: "frame_address 0x100000" "0x100000 + size_in_pages 4096 * 4096 < 2 ^ 52"
    "canonical (0x100000 + 0xFFFF800000000000)" "(4096::nat) < 2 ^ 50" "(0::nat) < 4"
    by (simp_all add: frame_address_def size_in_pages_def canonical_def)
  show ?thesis
    using virtual_allocator_never_allocates [OF entries.x86_64_crate_axioms pre]
    by (auto simp: size_in_pages_def)
qed

text \<open>The linear allocator hands out consecutive, pairwise disjoint blocks: a request for \<open>n\<close> pages
  answers the current position and moves it by exactly \<open>n\<close> pages, so the next block starts where
  this one ends.\<close>

theorem linear_blocks_consecutive:
  assumes "x86_64_crate X"
    and "LinearFrameAllocator_alloc_contiguous X n p = (Ok f, p')"
    and "LinearFrameAllocator_alloc_contiguous X m p' = (Ok g, p'')"
  shows "f = p \<and> g = f + n * 4096 \<and> p'' = g + m * 4096 \<and> {f..<f + n * 4096} \<inter> {g..<g + m * 4096} = {} \<and>
    p'' < 2 ^ 52"
  using assms(2,3) unfolding x86_64_crate.LinearFrameAllocator_alloc_contiguous_eq [OF assms(1)]
  by (auto split: if_splits)

theorem linear_blocks_consecutive_witness:
  "LinearFrameAllocator_alloc_contiguous x86_64_entries 2 0x1000 = (Ok 0x1000, 0x3000) \<and>
   {0x1000..<0x3000} \<inter> {0x3000..<0x4000} = ({} :: nat set)"
proof -
  have "LinearFrameAllocator_alloc_contiguous x86_64_entries 2 0x1000 = (Ok 0x1000, 0x3000)"
    "LinearFrameAllocator_alloc_contiguous x86_64_entries 1 0x3000 = (Ok 0x3000, 0x4000)"
    by (simp_all add: entries.LinearFrameAllocator_alloc_contiguous_eq)
  from linear_blocks_consecutive [OF entries.x86_64_crate_axioms this] this show ?thesis
    by simp
qed

end
