(* ===== verification/Page_Table_Growth.thy ===== *)
theory Page_Table_Growth
  imports Page_Ranges
begin

text \<open>
  Which tables exist. \<open>map\<close> creates tables on the path of the address it maps and nowhere else, \<open>unmap\<close> and
  \<open>update_flags\<close> create none; no operation removes a table. \<open>tables_within\<close> says that every table below the
  root lies on the path of some page of a set, and the lemmas say how the set grows.
\<close>

definition pages_of :: "VirtAddr \<Rightarrow> nat \<Rightarrow> nat set" where
  "pages_of to n = {to div 4096..<to div 4096 + n}"

lemma pages_of_member: "k < n \<Longrightarrow> (to + k * 4096) div 4096 \<in> pages_of to n"
  by (simp add: pages_of_def)

lemma pages_of_Suc: "pages_of to (Suc n) = insert ((to + n * 4096) div 4096) (pages_of to n)"
  by (auto simp: pages_of_def)

lemma pages_of_0 [simp]: "pages_of to 0 = {}"
  by (simp add: pages_of_def)

definition tables_within ::
    "('pte, 'fl, 'z) x86_64_scheme \<Rightarrow> RecursivePageTable \<Rightarrow> (u64 \<rightharpoonup> 'pte table) \<Rightarrow> nat set \<Rightarrow> bool" where
  "tables_within X self mem S \<longleftrightarrow>
     (\<forall>js. node_path js \<and> js \<noteq> [] \<and> table_at X (internal_offset self) mem (lvl4 self) js \<noteq> None \<longrightarrow>
       (\<exists>a. canonical a \<and> a div 4096 \<in> S \<and> take (length js) (table_path a) = js))"

lemma tables_within_mono: "tables_within X self mem S \<Longrightarrow> S \<subseteq> S' \<Longrightarrow> tables_within X self mem S'"
  unfolding tables_within_def by blast

lemma tables_within_cong:
  assumes "tables_within X self mem S" "\<And>js. node_path js \<Longrightarrow> table_at X (internal_offset self) mem' (lvl4 self) js =
    table_at X (internal_offset self) mem (lvl4 self) js"
  shows "tables_within X self mem' S"
  using assms unfolding tables_within_def by metis

context paging
begin

text \<open>\<open>s'\<close> has no tables that \<open>s\<close> does not have, but on the path of \<open>to\<close>.\<close>

definition grows_on where
  "grows_on self to s s' \<longleftrightarrow> (\<forall>js. node_path js \<and> table_for self s' js \<noteq> None \<longrightarrow>
     table_for self s js \<noteq> None \<or> take (length js) (table_path to) = js)"

lemma grows_on_same: "(\<And>js. node_path js \<Longrightarrow> table_for self s' js = table_for self s js) \<Longrightarrow> grows_on self to s s'"
  unfolding grows_on_def by metis

lemma grows_on_trans: "grows_on self to s s1 \<Longrightarrow> grows_on self to s1 s' \<Longrightarrow> grows_on self to s s'"
  unfolding grows_on_def by blast

lemma create_levels_grows:
  assumes "lowest self s to level cur" "invariant self s"
    and "create_levels X alloc self to (rev [2..<level + 1]) cur s = (r, s')" "\<nexists>p. r = Panic p"
  shows "grows_on self to s s'"
  using assms
proof (induction level arbitrary: cur s)
  case (Suc level)
  show ?case
  proof (cases "level = 0")
    case True
    then show ?thesis
      using Suc.prems by (auto intro: grows_on_same)
  next
    case False
    then have level: "1 \<le> level" "1 \<le> Suc level" "Suc level \<le> 4" "level \<le> 3"
      using Suc.prems(1) by (auto simp: lowest_def)
    note low = lowest_step [OF Suc.prems(1) level(1)]
    define pre where "pre = take (4 - Suc level) (table_path to) @ [page_index (Suc level) to]"
    have path: "pre = take (4 - level) (table_path to)"
      using path_step [OF level(1,4)] by (simp add: pre_def)
    obtain x a' where al: "alloc (frames s) = (x, a')"
      by (cases "alloc (frames s)")
    have run: "create_levels X alloc self to (Suc level # rev [2..<level + 1]) cur s = (r, s')"
      using Suc.prems(3) levels_step [OF level(1)] by simp
    have panic: False if "(\<exists>p. x = Panic p) \<or> (\<exists>f. x = Ok f \<and> \<not> canonical (f + internal_offset self))"
      using create_level_Panic [OF Suc.prems(2) refl level(2,3) low(1-3) al that] run Suc.prems(4)
      by (metis prod.inject)
    show ?thesis
    proof (cases x)
      case (Ok f)
      then have can: "canonical (f + internal_offset self)"
        using panic by blast
      obtain s1 where s1: "create_levels X alloc self to (Suc level # rev [2..<level + 1]) cur s =
          create_levels X alloc self to (rev [2..<level + 1]) (f + internal_offset self) s1"
        "invariant self s1" "lowest self s1 to level (f + internal_offset self)"
        "\<And>js. node_path js \<Longrightarrow> js \<noteq> pre \<Longrightarrow> table_for self s1 js = table_for self s js"
        using create_level [OF Suc.prems(2) refl level(2,3) low(1-3) al [unfolded Ok] can] low(4)
        unfolding pre_def by metis
      have "take (length pre) (table_path to) = pre"
        using level(1) by (simp add: path)
      then have "grows_on self to s s1"
        using s1(4) unfolding grows_on_def by metis
      moreover have "grows_on self to s1 s'"
        using Suc.IH [OF s1(3,2)] Suc.prems(4) run s1(1) by simp
      ultimately show ?thesis
        by (rule grows_on_trans)
    next
      case (Err e)
      then show ?thesis
        using create_level_Err [OF Suc.prems(2) refl level(2,3) low(1-3) al [unfolded Err]] run
        by (auto intro: grows_on_same)
    next
      case (Panic p)
      then show ?thesis
        using panic by blast
    qed
  qed
qed (simp add: lowest_def)

text \<open>Writing the entry of a page in its level-1 table changes no walk.\<close>

lemma write_leaf_tables:
  assumes inv: "invariant self s" and to: "page_index 4 to \<noteq> 510"
    and p: "table_for self s (table_path to) = Some p" and run: "write_entry p i e s = (r, s')" and js: "node_path js"
  shows "table_for self s' js = table_for self s js"
proof -
  have ok: "tree_ok X (internal_offset self) (lvl4 self) (taken (frames s)) (tables s)"
    using inv by (simp add: paging_inv_def)
  have "tables s' = tables s \<or> (\<exists>t. tables s' = (tables s)(p \<mapsto> t))"
    using run by (auto simp: write_entry_def deref_table_def index_table_def split: option.splits if_splits)
  then show ?thesis
    using table_at_leaf_update [OF ok node_table_path [OF to] length_table_path p js] by auto
qed

lemma map_grows:
  assumes inv: "invariant self s" and run: "RecursivePageTable_map X alloc self from to flags s = (Ok (), s')"
  shows "grows_on self to s s'"
proof -
  have to: "page_index 4 to \<noteq> 510"
    using run map_reserved [of to] by auto
  then obtain level cur where low: "lowest self s to level cur"
    by (rule lowest_exists)
  obtain q s1 where cr: "create_levels X alloc self to (rev [2..<level + 1]) cur s = (Ok q, s1)"
    and leaf: "set_leaf self from to flags q s1 = (Ok (), s')"
    using run unfolding map_eq [OF low inv] by (rule try_prog_OkE)
  have s1: "invariant self s1" "lowest self s1 to 1 q"
    using create_levels_result [OF low inv cr] by auto
  then have "table_for self s1 (table_path to) = Some q"
    by (simp add: lowest_def)
  moreover obtain e where "write_entry q (page_index 1 to) e s1 = (Ok () :: (PagingError, unit) outcome, s')"
    using leaf by (elim try_reads_OkE) (use that in \<open>auto split: if_splits outcome.splits\<close>)
  ultimately have "table_for self s' js = table_for self s1 js" if "node_path js" for js
    using write_leaf_tables [OF s1(1) to] that by blast
  then show ?thesis
    using grows_on_trans [OF create_levels_grows [OF low inv cr]] grows_on_same by blast
qed

lemma map_within:
  assumes "invariant self s" "RecursivePageTable_map X alloc self from to flags s = (Ok (), s')" "canonical to"
    and "tables_within X self (tables s) S"
  shows "tables_within X self (tables s') (insert (to div 4096) S)"
  using map_grows [OF assms(1,2)] assms(3,4) unfolding tables_within_def grows_on_def by blast

lemma map_pages_within:
  assumes inv: "invariant self s" and "from": "frame_address from"
    and flags: "flags_contains X flags (PRESENT X)" and S: "tables_within X self (tables s) S"
    and run: "for_each (map (\<lambda>k. k * 4096) [0..<n]) (\<lambda>page.
       try_prog (reads (\<lambda>_. of_lib (PhysAddr_add X from page))) (\<lambda>p.
       try_prog (reads (\<lambda>_. of_lib (VirtAddr_add X to page))) (\<lambda>v.
       RecursivePageTable_map X alloc self p v flags))) s = (Ok (), s')"
  shows "tables_within X self (tables s') (S \<union> pages_of to n)"
  using run
proof (induction n arbitrary: s')
  case 0
  then show ?case
    using S by simp
next
  case (Suc n)
  from Suc.prems [unfolded for_each_upt_Suc] obtain s1 where
    s1: "for_each (map (\<lambda>k. k * 4096) [0..<n]) (\<lambda>page.
       try_prog (reads (\<lambda>_. of_lib (PhysAddr_add X from page))) (\<lambda>p.
       try_prog (reads (\<lambda>_. of_lib (VirtAddr_add X to page))) (\<lambda>v.
       RecursivePageTable_map X alloc self p v flags))) s = (Ok (), s1)"
    and step: "canonical (to + n * 4096)"
      "RecursivePageTable_map X alloc self (from + n * 4096) (to + n * 4096) flags s1 = (Ok (), s')"
    by (elim try_unit_OkE try_reads_OkE) (auto simp: PhysAddr_add VirtAddr_add split: if_splits)
  have "invariant self s1"
    using map_pages_OkD [OF inv "from" flags s1] by blast
  from map_within [OF this step(2,1) Suc.IH [OF s1]] show ?case
    by (simp add: pages_of_Suc)
qed

lemma map_contiguous_within:
  assumes "invariant self s" "frame_address from" "flags_contains X flags (PRESENT X)"
    and "RecursivePageTable_map_contiguous X alloc self n from to flags s = (Ok (), s')"
    and "tables_within X self (tables s) S"
  shows "tables_within X self (tables s') (S \<union> pages_of to n)"
proof (rule map_pages_within [OF assms(1-3,5)])
  show "for_each (map (\<lambda>k. k * 4096) [0..<n]) (\<lambda>page.
       try_prog (reads (\<lambda>_. of_lib (PhysAddr_add X from page))) (\<lambda>p.
       try_prog (reads (\<lambda>_. of_lib (VirtAddr_add X to page))) (\<lambda>v.
       RecursivePageTable_map X alloc self p v flags))) s = (Ok (), s')"
    using assms(4) by (simp add: RecursivePageTable_map_contiguous_def
        page_offsets_eq [OF map_contiguous_OkD(2) [OF assms(1-4)]])
qed

text \<open>An operation that changes the entry of a page in its level-1 table, if there is one, creates no table.\<close>

lemma leaf_access_tables:
  assumes inv: "invariant self s" and a: "page_index 4 a \<noteq> 510" and js: "node_path js"
    and run: "try_prog (reads (\<lambda>s. get_page_table X self (tables s) 1 a)) (\<lambda>found. case found of
        Some p \<Rightarrow> try_prog (reads (\<lambda>_. get_page_index 1 a)) (\<lambda>i.
          try_prog (reads (\<lambda>s. read_entry (tables s) p i)) (\<lambda>entry.
          if entry_is_unused X entry then throw err else write_entry p i (change entry)))
      | None \<Rightarrow> missing) s = (r, s')" and missing: "snd (missing s) = s"
  shows "table_for self s' js = table_for self s js"
proof -
  have ok: "tree_ok X (internal_offset self) (lvl4 self) (taken (frames s)) (tables s)"
    using inv by (simp add: paging_inv_def)
  show ?thesis
  proof (cases "table_for self s (table_path a)")
    case None
    then show ?thesis
      using run missing by (auto simp: get_level_1 [OF ok a])
  next
    case (Some p)
    obtain t where "tables s p = Some t"
      by (rule level_1_entry [OF inv a Some])
    then have "s' = s \<or> (\<exists>e. write_entry p (page_index 1 a) e s = (r, s'))"
      using run Some by (auto simp: get_level_1 [OF ok a] read_entry_eq split: if_splits)
    then show ?thesis
      using write_leaf_tables [OF inv a Some _ js] by blast
  qed
qed

lemma unmap_tables:
  assumes "invariant self s" "page_index 4 a \<noteq> 510" "RecursivePageTable_unmap X self a s = (r, s')" "node_path js"
  shows "table_for self s' js = table_for self s js"
  by (rule leaf_access_tables [OF assms(1,2,4) assms(3) [unfolded RecursivePageTable_unmap_def]]) simp

lemma update_flags_tables:
  assumes "invariant self s" "page_index 4 a \<noteq> 510"
    and "RecursivePageTable_update_flags X self a flags s = (r, s')" "node_path js"
  shows "table_for self s' js = table_for self s js"
  by (rule leaf_access_tables [OF assms(1,2,4) assms(3) [unfolded RecursivePageTable_update_flags_def]]) simp

end

end
