(* ===== verification/Boot_Success.thy ===== *)
theory Boot_Success
  imports Memory_Init Allocator_Properties Page_Table_Growth
begin

text \<open>
  The steps of \<open>init_memory\<close> succeed, one lemma for each. The proofs keep a bound on the linear allocator, which
  shows that it never leaves the usable region it starts in, and the set of pages mapped so far, which every step
  changes in a known way: the predicate \<open>boot_at\<close>. \<open>Boot_Complete\<close> puts the steps together.
\<close>

section \<open>A bound on the linear allocator\<close>

definition linear_below :: "u64 \<Rightarrow> u64 \<Rightarrow> nat \<Rightarrow> LinearFrameAllocator \<Rightarrow> bool" where
  "linear_below L off n p \<longleftrightarrow> p + 4096 * n \<le> L \<and> linear_room off n p"

lemma linear_below_supply:
  assumes "x86_64_crate X"
  shows "paging_supply X (LinearFrameAllocator_alloc X) linear_good linear_taken (linear_below L)"
proof -
  note lin = linear_supply [OF assms]
  show ?thesis
  proof (rule paging_supply.intro [OF lin(2)], unfold_locales)
    fix off n p
    assume "linear_below L off (Suc n) p"
    then show "\<exists>f a'. LinearFrameAllocator_alloc X p = (Ok f, a') \<and> canonical (f + off) \<and> linear_below L off n a'"
      and "linear_below L off n p"
      by (auto simp: x86_64_crate.LinearFrameAllocator_alloc_eq [OF assms] linear_below_def linear_room_def canonical_def)
  qed
qed

section \<open>Ranges of pages outside the recursive range\<close>

definition free_range :: "VirtAddr \<Rightarrow> nat \<Rightarrow> bool" where
  "free_range to n \<longleftrightarrow> to mod 4096 = 0 \<and>
     (to + n * 4096 \<le> 2 ^ 47 \<or> 2 ^ 64 - 2 ^ 47 \<le> to \<and> to + n * 4096 \<le> 0xFFFFFF0000000000 \<or>
      0xFFFFFF8000000000 \<le> to \<and> to + n * 4096 \<le> 2 ^ 64)"

lemma free_address:
  assumes "a < 2 ^ 47 \<or> 2 ^ 64 - 2 ^ 47 \<le> a \<and> a < 0xFFFFFF0000000000 \<or> 0xFFFFFF8000000000 \<le> a \<and> a < 2 ^ 64"
  shows "canonical a" "page_index 4 a \<noteq> 510"
proof -
  show "canonical a"
    using assms by (auto simp: canonical_def)
  define q where "q = a div 549755813888"
  have "q < 256 \<or> 33554176 \<le> q \<and> q < 33554430 \<or> q = 33554431"
    using assms by (auto simp: q_def div_less_iff_less_mult less_eq_div_iff_mult_less_eq
        div_nat_eqI [of 33554431 549755813888 a])
  moreover have rest: "q mod 512 = r" if "q = 33553920 + r" "r < 512" for r
    using that mod_mult_self4 [of 512 65535 r] by simp
  have "q mod 512 = q - 33553920" if "33553920 \<le> q" "q < 33554432"
    using that by (intro rest) auto
  ultimately have "q mod 512 \<noteq> 510"
    by auto
  then show "page_index 4 a \<noteq> 510"
    by (simp add: page_index_eq q_def)
qed

lemma free_range_page:
  assumes "free_range to n" "k < n"
  shows "canonical (to + k * 4096)" "page_index 4 (to + k * 4096) \<noteq> 510"
proof -
  have "to + k * 4096 + 4096 \<le> to + n * 4096"
    using assms(2) by simp
  then show "canonical (to + k * 4096)" "page_index 4 (to + k * 4096) \<noteq> 510"
    using assms(1) by (intro free_address; auto simp: free_range_def)+
qed

lemma page_key_cong:
  assumes "a div 4096 = b div 4096"
  shows "page_key a = page_key b"
proof -
  have "page_index l a = page_index l b" if "1 \<le> l" for l
  proof -
    have "(2 :: nat) ^ (9 * l + 3) = 4096 * 2 ^ (9 * l - 9)"
      using that by (simp add: power_add [symmetric] flip: power_numeral_even) (cases l; simp add: power_add)
    then show ?thesis
      by (simp add: page_index_eq div_mult2_eq assms)
  qed
  then show ?thesis
    by (simp add: page_key_def table_path_def)
qed

lemma page_in_range:
  assumes "a div 4096 \<in> pages_of to n"
  obtains k where "k < n" "page_key a = page_key (to + k * 4096)"
proof -
  define k where "k = a div 4096 - to div 4096"
  have "k < n" "a div 4096 = (to + k * 4096) div 4096"
    using assms by (auto simp: pages_of_def k_def)
  then show ?thesis
    using that page_key_cong by blast
qed

lemma free_range_address:
  assumes "free_range to n" "to \<le> a" "a < to + n * 4096"
  shows "canonical a" "page_index 4 a \<noteq> 510"
  using assms by (intro free_address; auto simp: free_range_def)+

section \<open>The state of the boot\<close>

text \<open>
  The invariant, room for \<open>m\<close> more frames below \<open>L\<close>, and \<open>S\<close> the set of mapped pages; there are tables only for
  pages of \<open>S\<close> and of \<open>G\<close>, the pages the boot unmaps again.
\<close>

context x86_64_crate
begin

definition boot_at where
  "boot_at L G self m S s \<longleftrightarrow> boot_inv self s \<and> linear_below L (internal_offset self) m (frames s) \<and>
     (\<forall>a. canonical a \<longrightarrow> (mapped X self (tables s) a \<noteq> None \<longleftrightarrow> a div 4096 \<in> S)) \<and>
     tables_within X self (tables s) (S \<union> G)"

lemma boot_at_free:
  assumes "boot_at L G self m S s" "free_range to n" "pages_of to n \<inter> S = {}" "k < n"
  shows "mapped X self (tables s) (to + k * 4096) = None"
  using assms free_range_page [OF assms(2,4)] pages_of_member [OF assms(4), of to] unfolding boot_at_def by blast

lemma boot_at_mapped:
  assumes "boot_at L G self m' S s" "boot_inv self s'" "linear_below L (internal_offset self) m (frames s')"
    and "range_mapped n from to flags (mapped X self (tables s)) (mapped X self (tables s'))"
    and "free_range to n" "tables_within X self (tables s') (S \<union> G \<union> pages_of to n)"
  shows "boot_at L G self m (S \<union> pages_of to n) s'"
  unfolding boot_at_def
proof (intro conjI allI impI assms(2,3))
  show "tables_within X self (tables s') (S \<union> pages_of to n \<union> G)"
    using assms(6) by (simp add: Un_ac)
next
  fix a assume a: "canonical a"
  show "mapped X self (tables s') a \<noteq> None \<longleftrightarrow> a div 4096 \<in> S \<union> pages_of to n"
  proof (cases "\<exists>k < n. page_key a = page_key (to + k * 4096)")
    case True
    then obtain k where k: "k < n" "page_key a = page_key (to + k * 4096)"
      by blast
    then have "a div 4096 = (to + k * 4096) div 4096"
      using a free_range_page(1) [OF assms(5) k(1)] by (intro page_key_inj)
    then show ?thesis
      using pages_of_member [OF k(1), of to] mapped_page_key [OF k(2), of X self "tables s'"] k(1) assms(4)
      by (simp add: range_mapped_def)
  next
    case False
    then have "mapped X self (tables s') a = mapped X self (tables s) a"
      using assms(4) unfolding range_mapped_def by metis
    moreover have "a div 4096 \<notin> pages_of to n"
      using False page_in_range [of a to n] by blast
    ultimately show ?thesis
      using assms(1) a by (simp add: boot_at_def)
  qed
qed

lemma boot_at_less: "boot_at L G self m S s \<Longrightarrow> m' \<le> m \<Longrightarrow> boot_at L G self m' S s"
  using paging_supply.room_le [OF linear_below_supply [OF x86_64_crate_axioms]] unfolding boot_at_def by blast

lemma map_range_boot:
  assumes at: "boot_at L G self (m + 3 * n) S s" and "from": "frame_address from" "from + n * 4096 \<le> 2 ^ 52"
    and flags: "flags_contains X flags (PRESENT X)"
    and to: "free_range to n" "pages_of to n \<inter> S = {}"
  obtains s' where "RecursivePageTable_map_contiguous X (LinearFrameAllocator_alloc X) self n from to flags s = (Ok (), s')"
    "boot_at L G self m (S \<union> pages_of to n) s'"
    "range_mapped n from to flags (mapped X self (tables s)) (mapped X self (tables s'))"
proof -
  have inv: "boot_inv self s" and room: "linear_below L (internal_offset self) (m + 3 * n) (frames s)"
    using at by (simp_all add: boot_at_def)
  have n: "n * 4096 < 2 ^ 64"
    using "from"(2) by simp
  have pages: "canonical (to + k * 4096) \<and> page_index 4 (to + k * 4096) \<noteq> 510 \<and>
      from + k * 4096 < 2 ^ 52 \<and> mapped X self (tables s) (to + k * 4096) = None" if "k < n" for k
    using free_range_page [OF to(1) that] boot_at_free [OF at to that] "from"(2) that by auto
  obtain s' where run: "RecursivePageTable_map_contiguous X (LinearFrameAllocator_alloc X) self n from to flags s = (Ok (), s')"
    and room': "linear_below L (internal_offset self) m (frames s')"
    using paging_supply.map_contiguous_total [OF linear_below_supply [OF x86_64_crate_axioms] inv "from"(1) flags n pages room]
    by blast
  note res = linear_paging.map_contiguous_OkD(1) [OF inv "from"(1) flags run]
  have "tables_within X self (tables s') (S \<union> G \<union> pages_of to n)"
    using at by (intro linear_paging.map_contiguous_within [OF inv "from"(1) flags run]) (simp add: boot_at_def)
  then show ?thesis
    using that [OF run] boot_at_mapped [OF at _ room' _ to(1)] res by blast
qed

lemma map_section_boot:
  assumes at: "boot_at L G self (m + 3 * ((b - a) div 4096)) S s" and flags: "flags_contains X flags (PRESENT X)"
    and ka: "kernel_address info = Some (vb, pb)" "vb \<le> a" "a \<le> b" "a < b \<Longrightarrow> frame_address (a - vb + pb)"
      "a - vb + pb + (b - a) \<le> 2 ^ 52"
    and to: "b mod 4096 = 0" "free_range a ((b - a) div 4096)" "pages_of a ((b - a) div 4096) \<inter> S = {}"
  obtains s' where "map_kernel_section X info a b flags self s = (Ok (), s')"
    "boot_at L G self m (S \<union> pages_of a ((b - a) div 4096)) s'"
proof (cases "a = b")
  case True
  then show ?thesis
    using that [of s] at ka(1) by (simp add: map_kernel_section_def pages_of_def)
next
  case False
  then have less: "a < b"
    using ka(3) by simp
  note ka4 = ka(4) [OF less]
  have "a mod 4096 = 0"
    using to(2) by (simp add: free_range_def)
  then have dvd: "(b - a) mod 4096 = 0"
    using to(1) by (simp add: mod_eq_0_iff_dvd dvd_diff_nat)
  define n where "n = (b - a) div 4096"
  have n: "div_ceil (b - a) 4096 = n" "n * 4096 = b - a"
    using dvd by (auto simp: div_ceil_def n_def)
  have inv: "boot_inv self s" and room: "linear_below L (internal_offset self) (m + 3 * n) (frames s)"
    using at by (simp_all add: boot_at_def n_def)
  have fl: "flags_contains X (flags_or X flags (GLOBAL X)) (PRESENT X)"
    using flags by (simp add: contains_or)
  have pages: "canonical (a + k * 4096) \<and> page_index 4 (a + k * 4096) \<noteq> 510 \<and>
      a - vb + pb + k * 4096 < 2 ^ 52 \<and> mapped X self (tables s) (a + k * 4096) = None" if "k < n" for k
  proof -
    have "k * 4096 < b - a"
      using that n(2) by linarith
    then show ?thesis
      using free_range_page [of a n k] boot_at_free [OF at to(2,3), of k] to(2) ka(5) that by (simp add: n_def)
  qed
  obtain s' where run: "for_each (map (\<lambda>k. k * 4096) [0..<n]) (\<lambda>page.
       try_prog (reads (\<lambda>_. of_lib (PhysAddr_add X (a - vb + pb) page))) (\<lambda>p.
       try_prog (reads (\<lambda>_. of_lib (VirtAddr_add X a page))) (\<lambda>v.
       RecursivePageTable_map X (LinearFrameAllocator_alloc X) self p v (flags_or X flags (GLOBAL X))))) s =
       (Ok (), s')" and room': "linear_below L (internal_offset self) m (frames s')"
    using paging_supply.map_pages_total [OF linear_below_supply [OF x86_64_crate_axioms] inv ka4 fl pages room] by blast
  have "for_each (map (\<lambda>k. a + k * 4096) [0..<n]) (section_body self vb pb flags) s = (Ok (), s')"
    by (rule for_each_Ok_mono [OF run], unfold section_round)
      (use ka(2) in \<open>auto simp: PhysAddr_add VirtAddr_add algebra_simps split: if_splits\<close>)
  then have sec: "map_kernel_section X info a b flags self s = (Ok (), s')"
    using ka(1) less by (simp add: map_kernel_section_def page_range_def n(1))
  note res = linear_paging.map_pages_OkD [OF inv ka4 fl run]
  have "tables_within X self (tables s') (S \<union> G \<union> pages_of a n)"
    using at by (intro linear_paging.map_pages_within [OF inv ka4 fl _ run]) (simp add: boot_at_def)
  then show ?thesis
    using that [OF sec] boot_at_mapped [OF at _ room' _ to(2)] res unfolding n_def by blast
qed

lemma map_section_pages:
  assumes at: "boot_at L G self (m + 3 * (b - a)) S s" and flags: "flags_contains X flags (PRESENT X)"
    and ka: "kernel_address info = Some (vb, pb)" "vb \<le> 4096 * a" "a \<le> b" "a < b \<Longrightarrow> frame_address (4096 * a - vb + pb)"
      "4096 * a - vb + pb + 4096 * (b - a) \<le> 2 ^ 52"
    and to: "free_range (4096 * a) (b - a)" "{a..<b} \<inter> S = {}"
  obtains s' where "map_kernel_section X info (4096 * a) (4096 * b) flags self s = (Ok (), s')"
    "boot_at L G self m (S \<union> {a..<b}) s'"
proof -
  have n: "(4096 * b - 4096 * a) div 4096 = b - a" "4096 * b - 4096 * a = 4096 * (b - a)"
    "pages_of (4096 * a) (b - a) = {a..<b}"
    using ka(3) by (simp_all add: diff_mult_distrib2 [symmetric] pages_of_def)
  show ?thesis
    by (rule map_section_boot [of L G self m "4096 * b" "4096 * a" S s flags info vb pb, unfolded n(1,3)])
      (use assms that n(2) in \<open>simp_all\<close>)
qed

end

text \<open>The kernel image: sections in order and page aligned, inside the region of the executable.\<close>

definition kernel_ok :: "boot_info \<Rightarrow> u64 \<Rightarrow> bool" where
  "kernel_ok info len \<longleftrightarrow> (case kernel_address info of
      None \<Rightarrow> False
    | Some (vb, pb) \<Rightarrow>
        vb \<le> limine_reqs_start info \<and> sorted [limine_reqs_start info, text_start info, rodata_start info,
          data_start info, elf_end info] \<and>
        list_all (\<lambda>a. a mod 4096 = 0) [limine_reqs_start info, text_start info, rodata_start info,
          data_start info, elf_end info] \<and>
        elf_end info - limine_reqs_start info \<le> len \<and>
        frame_address (limine_reqs_start info - vb + pb) \<and>
        limine_reqs_start info - vb + pb + size_in_pages len * 4096 < 2 ^ 52 \<and> canonical (elf_end info) \<and>
        free_range (limine_reqs_start info) (size_in_pages len))"

lemma free_range_sub:
  assumes "free_range (4096 * a) n" "a \<le> b" "b + k \<le> a + n"
  shows "free_range (4096 * b) k"
proof -
  have "4096 * a \<le> 4096 * b" "4096 * b + k * 4096 \<le> 4096 * a + n * 4096"
    using assms(2,3) by simp_all
  then show ?thesis
    using assms(1) unfolding free_range_def by (elim conjE disjE; simp)
qed

lemma free_range_le:
  assumes "free_range to n" "k \<le> n"
  shows "free_range to k"
proof -
  have "to + k * 4096 \<le> to + n * 4096"
    using assms(2) by simp
  then show ?thesis
    using assms(1) unfolding free_range_def by (elim conjE disjE; simp)
qed

lemma size_in_pages_split:
  assumes "k * 4096 \<le> n"
  shows "size_in_pages n = k + size_in_pages (n - k * 4096)"
proof -
  obtain d where "n = d + k * 4096"
    using assms le_iff_add add.commute by metis
  then show ?thesis
    by (simp add: size_in_pages_def Let_def)
qed

context x86_64_crate
begin

lemma map_kernel_boot:
  assumes at: "boot_at L G self (m + 3 * size_in_pages (length_of region)) S s"
    and ok: "kernel_ok info (length_of region)"
    and free: "pages_of (limine_reqs_start info) (size_in_pages (length_of region)) \<inter> S = {}"
  obtains s' where "map_kernel X info self region s = (Ok (), s')"
    "boot_at L G self m (S \<union> pages_of (limine_reqs_start info) (size_in_pages (length_of region))) s'"
proof -
  define N where "N = size_in_pages (length_of region)"
  obtain vb pb where ka: "kernel_address info = Some (vb, pb)"
    using ok by (auto simp: kernel_ok_def split: option.splits)
  obtain l t r d e where secs: "limine_reqs_start info = 4096 * l" "text_start info = 4096 * t"
    "rodata_start info = 4096 * r" "data_start info = 4096 * d" "elf_end info = 4096 * e"
    using ok ka by (auto simp: kernel_ok_def mod_eq_0_iff_dvd elim!: dvdE)
  have ord: "vb \<le> 4096 * l" "l \<le> t" "t \<le> r" "r \<le> d" "d \<le> e"
    and len: "(e - l) * 4096 \<le> length_of region"
    and fr: "frame_address (4096 * l - vb + pb)" "4096 * l - vb + pb + N * 4096 < 2 ^ 52" "free_range (4096 * l) N"
      "canonical (4096 * e)"
    using ok ka by (auto simp: kernel_ok_def secs N_def diff_mult_distrib2 [symmetric])
  define rest where "rest = size_in_pages (length_of region - (e - l) * 4096)"
  have N: "N = (e - l) + rest"
    unfolding N_def rest_def by (rule size_in_pages_split [OF len])
  have phys: "4096 * a - vb + pb = 4096 * l - vb + pb + 4096 * (a - l)" if "l \<le> a" for a
    using that ord(1) by (simp add: diff_mult_distrib2)
  have inside: "a < b \<Longrightarrow> frame_address (4096 * a - vb + pb)" "4096 * a - vb + pb + 4096 * (b - a) \<le> 2 ^ 52"
      "free_range (4096 * a) (b - a)" if "l \<le> a" "a \<le> b" "b \<le> l + N" for a b
  proof -
    have "4096 * (a - l) + 4096 * (b - a) \<le> N * 4096"
      using that by simp
    then show bound: "4096 * a - vb + pb + 4096 * (b - a) \<le> 2 ^ 52"
      unfolding phys [OF that(1)] using fr(2) by linarith
    have "(4096 * a - vb + pb) mod 4096 = 0"
      using fr(1) unfolding phys [OF that(1)] frame_address_def by simp
    then show "frame_address (4096 * a - vb + pb)" if "a < b"
      using bound that by (simp add: frame_address_def)
    show "free_range (4096 * a) (b - a)"
      using that by (intro free_range_sub [OF fr(3)]) auto
  qed
  have e: "e \<le> l + N" "l \<le> e"
    using N ord by auto
  have S: "{l..<l + N} \<inter> S = {}"
    using free by (simp add: secs pages_of_def N_def)
  have at1: "boot_at L G self ((m + 3 * rest + 3 * (e - d) + 3 * (d - r) + 3 * (r - t)) + 3 * (t - l)) S s"
    using at ord N by (simp add: N_def [symmetric] algebra_simps diff_mult_distrib2)
  have step: thesis'
    if "boot_at L G self (k + 3 * (b - a)) T u" "flags_contains X fl (PRESENT X)" "l \<le> a" "a \<le> b" "b \<le> e"
      "{a..<b} \<inter> T = {}" "\<And>u'. map_kernel_section X info (4096 * a) (4096 * b) fl self u = (Ok (), u') \<Longrightarrow>
        boot_at L G self k (T \<union> {a..<b}) u' \<Longrightarrow> thesis'" for a b k T u fl thesis'
  proof -
    have "b \<le> l + N" and vb: "vb \<le> 4096 * a"
      using that(3,5) e(1) ord(1) by simp_all
    note sec = inside [OF that(3,4) this(1)]
    show ?thesis
      by (rule map_section_pages [OF that(1,2) ka vb that(4) _ sec(2,3) that(6)]) (erule sec(1), rule that(7))
  qed
  have kernel_disjoint: "{a..<b} \<inter> (S \<union> {l..<a}) = {}" if "l \<le> a" "b \<le> e" for a b
  proof -
    have "{a..<b} \<subseteq> {l..<l + N}" "{a..<b} \<inter> {l..<a} = {}"
      using that e(1) by auto
    then show ?thesis
      using S by blast
  qed
  have join: "T \<union> {l..<a} \<union> {a..<b} = T \<union> {l..<b}" if "l \<le> a" "a \<le> b" for a b and T :: "nat set"
    using that by (simp add: Un_assoc ivl_disj_un_two(3))
  have le: "l \<le> r" "l \<le> d" "t \<le> e" "r \<le> e"
    using ord by simp_all
  obtain s1 where s1: "map_kernel_section X info (4096 * l) (4096 * t) (flags_r X) self s = (Ok (), s1)"
    "boot_at L G self ((m + 3 * rest + 3 * (e - d) + 3 * (d - r)) + 3 * (r - t)) (S \<union> {l..<t}) s1"
    by (rule step [OF at1 section_flags_present(1) order.refl ord(2) le(3)]) (use kernel_disjoint [of l t] le in auto)
  obtain s2 where s2: "map_kernel_section X info (4096 * t) (4096 * r) (flags_rx X) self s1 = (Ok (), s2)"
    "boot_at L G self ((m + 3 * rest + 3 * (e - d)) + 3 * (d - r)) (S \<union> {l..<r}) s2"
    by (rule step [OF s1(2) section_flags_present(2) ord(2,3) le(4) kernel_disjoint [OF ord(2) le(4)]])
      (simp add: join ord)
  obtain s3 where s3: "map_kernel_section X info (4096 * r) (4096 * d) (flags_r X) self s2 = (Ok (), s3)"
    "boot_at L G self ((m + 3 * rest) + 3 * (e - d)) (S \<union> {l..<d}) s3"
    by (rule step [OF s2(2) section_flags_present(1) le(1) ord(4,5) kernel_disjoint [OF le(1) ord(5)]])
      (simp add: join ord le)
  obtain s4 where s4: "map_kernel_section X info (4096 * d) (4096 * e) (flags_rw X) self s3 = (Ok (), s4)"
    "boot_at L G self (m + 3 * rest) (S \<union> {l..<e}) s4"
    by (rule step [OF s3(2) section_flags_present(3) le(2) ord(5) order.refl kernel_disjoint [OF le(2) order.refl]])
      (simp add: join ord le)
  have from_eq: "4096 * e - vb + pb = 4096 * l - vb + pb + 4096 * (e - l)"
    using e(2) by (rule phys)
  have "4096 * (e - l) + rest * 4096 = N * 4096"
    by (simp add: N)
  then have bound: "4096 * e - vb + pb + rest * 4096 < 2 ^ 52"
    unfolding from_eq using fr(2) by linarith
  have frame: "frame_address (4096 * e - vb + pb)"
    using fr(1) bound unfolding from_eq by (simp add: frame_address_def)
  have free_rest: "free_range (4096 * e) rest"
    by (rule free_range_sub [OF fr(3) e(2)]) (use N e(2) in simp)
  have "{e..<e + rest} \<subseteq> {l..<l + N}" "{e..<e + rest} \<inter> {l..<e} = {}"
    using N e by auto
  then have "{e..<e + rest} \<inter> (S \<union> {l..<e}) = {}"
    using S by blast
  then have disj_rest: "pages_of (4096 * e) rest \<inter> (S \<union> {l..<e}) = {}"
    by (simp add: pages_of_def)
  obtain s5 where s5: "RecursivePageTable_map_contiguous X (LinearFrameAllocator_alloc X) self rest
      (4096 * e - vb + pb) (4096 * e) (flags_or X (flags_r X) (GLOBAL X)) s4 = (Ok (), s5)"
    "boot_at L G self m (S \<union> {l..<e} \<union> pages_of (4096 * e) rest) s5"
    by (rule map_range_boot [OF s4(2) frame _ section_flags_present(5) free_rest disj_rest]) (use bound in simp)
  have "vb \<le> 4096 * e"
    using ord(1) e(2) by simp
  then have "map_kernel X info self region s = (Ok (), s5)"
    using s1(1) s2(1) s3(1) s4(1) s5(1) ka bound fr(4) len e(2) unfolding map_kernel_def
    by (simp add: secs try_prog_Ok sub64_def add64_def PhysAddr_new VirtAddr_new rest_def diff_mult_distrib2
        mult.commute [of _ 4096] map_err_prog_def)
  moreover have "S \<union> {l..<e} \<union> pages_of (4096 * e) rest = S \<union> pages_of (limine_reqs_start info) N"
    using e(2) by (auto simp: secs pages_of_def N)
  ultimately show ?thesis
    using that s5(2) by (simp add: N_def)
qed

end

section \<open>The regions of the bootloader\<close>

definition misc_region :: "MemoryRegionInfo \<Rightarrow> bool" where
  "misc_region r \<longleftrightarrow> region_type r \<in>
     {MemoryRegionType.Framebuffer, AcpiNvs, AcpiReclaimable, AcpiTables, BootloaderReclaimable}"

definition misc_ranges :: "u64 \<Rightarrow> MemoryRegionInfo list \<Rightarrow> (VirtAddr \<times> nat) list" where
  "misc_ranges off mmap = map (\<lambda>r. (base r + off, size_in_pages (length_of r))) (filter misc_region mmap)"

definition misc_ok :: "u64 \<Rightarrow> MemoryRegionInfo \<Rightarrow> bool" where
  "misc_ok off r \<longleftrightarrow> frame_address (base r) \<and> base r + size_in_pages (length_of r) * 4096 \<le> 2 ^ 52 \<and>
     canonical (base r + off) \<and> free_range (base r + off) (size_in_pages (length_of r))"

definition covered :: "(VirtAddr \<times> nat) list \<Rightarrow> nat set" where
  "covered ps = (\<Union>(to, n) \<in> set ps. pages_of to n)"

fun apart :: "VirtAddr \<times> nat \<Rightarrow> VirtAddr \<times> nat \<Rightarrow> bool" where
  "apart (a, n) (b, k) \<longleftrightarrow> a + n * 4096 \<le> b \<or> b + k * 4096 \<le> a"

lemma apart_pages:
  assumes "apart (a, n) (b, k)"
  shows "pages_of a n \<inter> pages_of b k = {}"
proof -
  have "(a + n * 4096) div 4096 \<le> b div 4096 \<or> (b + k * 4096) div 4096 \<le> a div 4096"
    using assms by (auto intro: div_le_mono)
  then show ?thesis
    by (auto simp: pages_of_def)
qed

lemma covered_simps [simp]:
  "covered [] = {}" "covered ((to, n) # ps) = pages_of to n \<union> covered ps" "covered (ps @ qs) = covered ps \<union> covered qs"
  by (auto simp: covered_def)

lemma apart_covered: "\<forall>q \<in> set ps. apart (a, n) q \<Longrightarrow> pages_of a n \<inter> covered ps = {}"
  using apart_pages [of a n] by (fastforce simp: covered_def)

lemma misc_flags_None: "misc_flags X (region_type r) = None \<longleftrightarrow> \<not> misc_region r"
  by (cases "region_type r") (simp_all add: misc_flags_def misc_region_def)

text \<open>The stack, with the page its top lies in, is inside a region of the bootloader.\<close>

definition stack_within :: "u64 \<Rightarrow> VirtAddr \<Rightarrow> MemoryRegionInfo \<Rightarrow> bool" where
  "stack_within off sp r \<longleftrightarrow> misc_region r \<and> base r + off + STACK_SIZE \<le> sp + 16 \<and>
     sp + 16 < base r + off + size_in_pages (length_of r) * 4096"

lemma stack_address:
  assumes "stack_within off sp r" "misc_ok off r" "base r + off \<le> a" "a \<le> sp + 16"
  shows "canonical a" "page_index 4 a \<noteq> 510" "a div 4096 \<in> pages_of (base r + off) (size_in_pages (length_of r))"
proof -
  define to n where "to = base r + off" and "n = size_in_pages (length_of r)"
  have free: "free_range to n" and a: "to \<le> a" "a < to + n * 4096"
    using assms by (auto simp: stack_within_def misc_ok_def to_def n_def)
  show "canonical a" "page_index 4 a \<noteq> 510"
    by (rule free_range_address [OF free a])+
  show "a div 4096 \<in> pages_of (base r + off) (size_in_pages (length_of r))"
    using a free unfolding to_def [symmetric] n_def [symmetric]
    by (auto simp: free_range_def pages_of_def div_le_mono div_less_iff_less_mult algebra_simps)
qed

context x86_64_crate
begin

lemma map_misc_region_boot:
  assumes at: "boot_at L G self (m + 3 * size_in_pages (length_of r)) S s" and r: "misc_region r"
    and ok: "misc_ok (internal_offset self) r"
    and free: "pages_of (base r + internal_offset self) (size_in_pages (length_of r)) \<inter> S = {}"
  obtains s' where "map_misc_region X self r s = (Ok (), s')"
    "boot_at L G self m (S \<union> pages_of (base r + internal_offset self) (size_in_pages (length_of r))) s'"
proof -
  obtain flags where flags: "misc_flags X (region_type r) = Some flags"
    using misc_flags_None [of X r] r by auto
  have okD: "frame_address (base r)" "base r + size_in_pages (length_of r) * 4096 \<le> 2 ^ 52"
    "canonical (base r + internal_offset self)" "free_range (base r + internal_offset self) (size_in_pages (length_of r))"
    using ok by (simp_all add: misc_ok_def)
  obtain s' where s': "RecursivePageTable_map_contiguous X (LinearFrameAllocator_alloc X) self
      (size_in_pages (length_of r)) (base r) (base r + internal_offset self) flags s = (Ok (), s')"
    "boot_at L G self m (S \<union> pages_of (base r + internal_offset self) (size_in_pages (length_of r))) s'"
    by (rule map_range_boot [OF at okD(1,2) misc_flags_present [OF flags] okD(4) free])
  have "base r < 2 ^ 52" "base r + internal_offset self < 2 ^ 64"
    using okD(1,3) by (auto simp: frame_address_def canonical_def)
  then have "map_misc_region X self r s = (Ok (), s')"
    using s'(1) flags okD(3)
    by (simp add: map_misc_region_def PhysAddr_new VirtAddr_new add64_def map_err_prog_def)
  then show ?thesis
    using that s'(2) by blast
qed

lemma map_misc_boot:
  assumes "boot_at L G self (m + 3 * (\<Sum>(to, n) \<leftarrow> misc_ranges (internal_offset self) mmap. n)) S s"
    and "\<forall>r \<in> set mmap. misc_region r \<longrightarrow> misc_ok (internal_offset self) r"
    and "sorted_wrt apart (misc_ranges (internal_offset self) mmap)"
    and "covered (misc_ranges (internal_offset self) mmap) \<inter> S = {}"
  shows "\<exists>s'. map_misc X mmap self s = (Ok (), s') \<and>
    boot_at L G self m (S \<union> covered (misc_ranges (internal_offset self) mmap)) s'"
  using assms
proof (induction mmap arbitrary: S s)
  case Nil
  then show ?case
    by (simp add: map_misc_def misc_ranges_def)
next
  case (Cons r rs)
  let ?off = "internal_offset self"
  show ?case
  proof (cases "misc_region r")
    case False
    then have "map_misc_region X self r s = (Ok (), s)"
      using misc_flags_None [of X r] by (simp add: map_misc_region_def)
    moreover have "misc_ranges ?off (r # rs) = misc_ranges ?off rs"
      using False by (simp add: misc_ranges_def)
    ultimately show ?thesis
      using Cons.IH [of S s] Cons.prems by (simp add: map_misc_def try_prog_Ok)
  next
    case True
    define n where "n = size_in_pages (length_of r)"
    have ranges: "misc_ranges ?off (r # rs) = (base r + ?off, n) # misc_ranges ?off rs"
      using True by (simp add: misc_ranges_def n_def)
    note prems = Cons.prems [unfolded ranges, simplified]
    have disj: "pages_of (base r + ?off) n \<inter> covered (misc_ranges ?off rs) = {}"
      using prems(3) by (intro apart_covered) simp
    obtain s1 where s1: "map_misc_region X self r s = (Ok (), s1)"
      "boot_at L G self (m + 3 * (\<Sum>(to, n) \<leftarrow> misc_ranges ?off rs. n)) (S \<union> pages_of (base r + ?off) n) s1"
      by (rule map_misc_region_boot [where r = r and self = self and S = S and s = s, folded n_def])
        (use prems True in \<open>auto simp: algebra_simps\<close>)
    show ?thesis
      using Cons.IH [OF s1(2)] prems s1(1) disj unfolding ranges
      by (auto simp: map_misc_def try_prog_Ok Int_Un_distrib Un_assoc Int_commute)
  qed
qed


section \<open>The stack\<close>

lemma boot_at_unmap:
  assumes at: "boot_at L G self m S s" and a: "canonical a" "page_index 4 a \<noteq> 510" "a div 4096 \<in> S" "a div 4096 \<in> G"
  shows "\<exists>s'. RecursivePageTable_unmap X self a s = (Ok (), s') \<and> boot_at L G self m (S - {a div 4096}) s'"
proof -
  have inv: "boot_inv self s" and "mapped X self (tables s) a \<noteq> None"
    using at a(1,3) by (auto simp: boot_at_def)
  then obtain s' where s': "RecursivePageTable_unmap X self a s = (Ok (), s')" "boot_inv self s'" "frames s' = frames s"
    "mapped X self (tables s') = (\<lambda>b. if page_key b = page_key a then None else mapped X self (tables s) b)"
    using linear_paging.unmap_eq(2) [OF _ a(2)] by blast
  have "page_key b = page_key a \<longleftrightarrow> b div 4096 = a div 4096" if "canonical b" for b
    using page_key_inj [OF that a(1)] page_key_cong by blast
  moreover have "tables_within X self (tables s') (S \<union> G)"
    using at linear_paging.unmap_tables [OF inv a(2) s'(1)] unfolding boot_at_def by (blast intro: tables_within_cong)
  moreover have "S - {a div 4096} \<union> G = S \<union> G"
    using a(4) by auto
  ultimately show ?thesis
    using s' at by (auto simp: boot_at_def)
qed

lemma boot_at_update_flags:
  assumes at: "boot_at L G self m S s" and a: "canonical a" "page_index 4 a \<noteq> 510" "a div 4096 \<in> S"
    and flags: "flags_contains X flags (PRESENT X)"
  shows "\<exists>s'. RecursivePageTable_update_flags X self a flags s = (Ok (), s') \<and> boot_at L G self m S s'"
proof -
  have inv: "boot_inv self s"
    using at by (simp add: boot_at_def)
  obtain p fl where "mapped X self (tables s) a = Some (p, fl)"
    using at a(1,3) unfolding boot_at_def by force
  then obtain s' where s': "RecursivePageTable_update_flags X self a flags s = (Ok (), s')" "boot_inv self s'"
    "frames s' = frames s"
    "mapped X self (tables s') = (\<lambda>b. if page_key b = page_key a then Some (p, flags) else mapped X self (tables s) b)"
    using linear_paging.update_flags_eq(2) [OF inv a(2) flags] by blast
  have "b div 4096 \<in> S" if "canonical b" "page_key b = page_key a" for b
    using page_key_inj [OF that(1) a(1) that(2)] a(3) by simp
  moreover have "tables_within X self (tables s') (S \<union> G)"
    using at linear_paging.update_flags_tables [OF inv a(2) s'(1)] unfolding boot_at_def
    by (blast intro: tables_within_cong)
  ultimately show ?thesis
    using s' at by (auto simp: boot_at_def)
qed

lemma stack_steps:
  assumes "stack_within off sp r" "2 ^ 47 \<le> off"
  shows "VirtAddr_step_by X (sp + 16 - STACK_SIZE) (sp + 16) 4096 =
    map (\<lambda>k. sp + 16 - STACK_SIZE + k * 4096) [0..<16]"
proof -
  have le: "base r + off + STACK_SIZE \<le> sp + 16"
    using assms(1) by (simp add: stack_within_def)
  then have "div_ceil (sp + 16 - (sp + 16 - STACK_SIZE)) 4096 = 16"
    by (simp add: STACK_SIZE_def KIBIBYTE_def div_ceil_def)
  moreover have "VirtAddr_step_by X (sp + 16 - STACK_SIZE) (sp + 16) 4096 =
      map (\<lambda>k. sp + 16 - STACK_SIZE + k * 4096) [0..<div_ceil (sp + 16 - (sp + 16 - STACK_SIZE)) 4096]"
    using le assms(2) by (intro VirtAddr_step_by) auto
  ultimately show ?thesis
    by (simp only:)
qed

lemma remap_stack_boot:
  assumes at: "boot_at L G self m S s" and r: "stack_within off sp r" "misc_ok off r"
    and sub: "pages_of (base r + off) (size_in_pages (length_of r)) \<subseteq> S" and off: "2 ^ 47 \<le> off"
    and G: "(sp + 16) div 4096 \<in> G"
  obtains s' where "remap_stack X sp self s = (Ok (), s')" "boot_at L G self m (S - {(sp + 16) div 4096}) s'"
proof -
  define to n bottom where "to = base r + off" and "n = size_in_pages (length_of r)" and "bottom = sp + 16 - STACK_SIZE"
  have stack: "to \<le> bottom" "bottom + STACK_SIZE = sp + 16" "sp + 16 < to + n * 4096" and free: "free_range to n"
    using r by (auto simp: stack_within_def misc_ok_def to_def n_def bottom_def)
  have size: "STACK_SIZE = 16 * 4096"
    by (simp add: STACK_SIZE_def KIBIBYTE_def)
  have page: "canonical a" "page_index 4 a \<noteq> 510" "a div 4096 \<in> S" if "to \<le> a" "a \<le> sp + 16" for a
    using stack_address [OF r] sub that by (auto simp: to_def)
  have steps: "VirtAddr_step_by X bottom (sp + 16) 4096 = map (\<lambda>k. bottom + k * 4096) [0..<16]"
    unfolding bottom_def by (rule stack_steps [OF r(1) off])
  obtain s1 where s1: "RecursivePageTable_unmap X self (sp + 16) s = (Ok (), s1)"
    "boot_at L G self m (S - {(sp + 16) div 4096}) s1"
    using boot_at_unmap [OF at page G] stack by auto
  have "\<exists>s'. for_each (VirtAddr_step_by X bottom (sp + 16) 4096) (\<lambda>page. map_err_prog MemoryError_from
      (RecursivePageTable_update_flags X self page (flags_rw X))) s1 = (Ok (), s') \<and>
      boot_at L G self m (S - {(sp + 16) div 4096}) s'"
  proof (rule for_each_total [where P = "boot_at L G self m (S - {(sp + 16) div 4096})", OF s1(2)])
    fix a t assume "a \<in> set (VirtAddr_step_by X bottom (sp + 16) 4096)"
      and t: "boot_at L G self m (S - {(sp + 16) div 4096}) t"
    then obtain k where k: "a = bottom + k * 4096" "k < 16"
      unfolding steps by auto
    then have "a + 4096 \<le> sp + 16"
      using stack(2) size by simp
    then have "(a + 4096) div 4096 \<le> (sp + 16) div 4096" and le: "to \<le> a" "a \<le> sp + 16"
      using k(1) stack(1) by (auto intro: div_le_mono)
    then have "a div 4096 \<in> S - {(sp + 16) div 4096}"
      using page(3) [OF le] by auto
    then obtain t' where "RecursivePageTable_update_flags X self a (flags_rw X) t = (Ok (), t')"
      "boot_at L G self m (S - {(sp + 16) div 4096}) t'"
      using boot_at_update_flags [OF t page(1,2) [OF le] _ section_flags_present(3)] by blast
    then show "\<exists>t'. map_err_prog MemoryError_from (RecursivePageTable_update_flags X self a (flags_rw X)) t = (Ok (), t') \<and>
        boot_at L G self m (S - {(sp + 16) div 4096}) t'"
      by (simp add: map_err_prog_def)
  qed
  then obtain s' where s': "for_each (VirtAddr_step_by X bottom (sp + 16) 4096) (\<lambda>page. map_err_prog MemoryError_from
      (RecursivePageTable_update_flags X self page (flags_rw X))) s1 = (Ok (), s')"
    "boot_at L G self m (S - {(sp + 16) div 4096}) s'"
    by blast
  have "remap_stack X sp self s = (Ok (), s')"
    using s1(1) s'(1) page(1) [of bottom] page(1) [of "sp + 16"] stack(1,2)
    by (simp add: remap_stack_def VirtAddr_add VirtAddr_sub bottom_def try_prog_Ok map_err_prog_def)
  then show ?thesis
    using that s'(2) by blast
qed

section \<open>Frames for the bitmaps\<close>

lemma boot_at_frames:
  assumes "boot_at L G self (m + k) S s"
  shows "boot_at L G self m S (s\<lparr>frames := frames s + k * 4096\<rparr>)"
    and "frame_address (frames s)" "frames s + k * 4096 < 2 ^ 52" "canonical (frames s + internal_offset self)"
proof -
  have inv: "boot_inv self s" and room: "linear_below L (internal_offset self) (m + k) (frames s)"
    using assms by (simp_all add: boot_at_def)
  show frame: "frame_address (frames s)"
    using inv by (simp add: paging_inv_def linear_good_def)
  show bound: "frames s + k * 4096 < 2 ^ 52" and "canonical (frames s + internal_offset self)"
    using room by (auto simp: linear_below_def linear_room_def canonical_def)
  have "frame_address (frames s + k * 4096)"
    using frame bound by (simp add: frame_address_def)
  then show "boot_at L G self m S (s\<lparr>frames := frames s + k * 4096\<rparr>)"
    using frames_step [OF inv, of "frames s + k * 4096"] assms room
    by (auto simp: boot_at_def linear_below_def linear_room_def algebra_simps)
qed

end

end
