(* ===== verification/Boot_Complete.thy ===== *)
theory Boot_Complete
  imports Boot_Success
begin

text \<open>
  \<open>init_memory\<close> from the first line to the last. \<open>boot_ok\<close> is an executable test on the bootloader's answers;
  when it holds, \<open>init_memory\<close> succeeds, and the set of mapped pages is known exactly.
\<close>

section \<open>The bootloader's answers\<close>

definition bitmap_bytes :: "MemoryRegionInfo \<Rightarrow> nat" where
  "bitmap_bytes highest = (base highest + length_of highest) div 4096 div 8"

text \<open>Pages the table maps before the heap, and frames the linear allocator hands out after it.\<close>

definition boot_ranges :: "u64 \<Rightarrow> boot_info \<Rightarrow> MemoryRegionInfo \<Rightarrow> MemoryRegionInfo list \<Rightarrow> (VirtAddr \<times> nat) list" where
  "boot_ranges off info k mmap = (limine_reqs_start info, size_in_pages (length_of k)) # misc_ranges off mmap"

definition boot_frames :: "u64 \<Rightarrow> MemoryRegionInfo \<Rightarrow> MemoryRegionInfo list \<Rightarrow> MemoryRegionInfo \<Rightarrow> nat" where
  "boot_frames off k mmap highest = 1 + 3 * size_in_pages (length_of k) + 3 * (\<Sum>(to, n) \<leftarrow> misc_ranges off mmap. n) +
     size_in_pages (bitmap_bytes highest) + size_in_pages (bitmap_bytes highest * 2) + 3 * 1024"

text \<open>The pages mapped at the end of the boot.\<close>

definition boot_pages ::
    "u64 \<Rightarrow> boot_info \<Rightarrow> MemoryRegionInfo \<Rightarrow> MemoryRegionInfo list \<Rightarrow> VirtAddr \<Rightarrow> MemoryRegionInfo \<Rightarrow> nat set" where
  "boot_pages off info k mmap sp region =
     (covered (boot_ranges off info k mmap) - {(sp + 16) div 4096}) \<union> pages_of (base region + off) 1024"

definition boot_layout ::
    "boot_info \<Rightarrow> MemoryRegionInfo list \<Rightarrow> VirtAddr \<Rightarrow> u64 \<Rightarrow> MemoryRegionInfo \<Rightarrow> MemoryRegionInfo \<Rightarrow>
       MemoryRegionInfo \<Rightarrow> bool" where
  "boot_layout info mmap sp off k region highest \<longleftrightarrow>
     off mod 4096 = 0 \<and> 2 ^ 64 - 2 ^ 47 \<le> off \<and>
     kernel_ok info (length_of k) \<and>
     list_all (\<lambda>r. misc_region r \<longrightarrow> misc_ok off r) mmap \<and>
     list_ex (stack_within off sp) mmap \<and>
     sorted_wrt apart (boot_ranges off info k mmap @ [(base region + off, size_in_pages (length_of region))]) \<and>
     base highest + length_of highest < 2 ^ 52 \<and>
     list_all (\<lambda>r. region_type r = Usable \<longrightarrow> base r mod 4096 = 0 \<and>
       (base r + length_of r) div 4096 \<le> 8 * bitmap_bytes highest) mmap \<and>
     free_range (base region + off) (size_in_pages (length_of region)) \<and>
     4096 * (1024 + boot_frames off k mmap highest) \<le> length_of region \<and>
     base region + length_of region < 2 ^ 52 \<and> base region + length_of region + off < 2 ^ 64"

definition boot_ok :: "boot_info \<Rightarrow> MemoryRegionInfo list \<Rightarrow> VirtAddr \<Rightarrow> bool" where
  "boot_ok info mmap sp = (case (hhdm_offset info, largest_usable mmap,
       find (\<lambda>r. region_type r = ExecutableAndModules) mmap,
       (highest_valid_region mmap :: (MemoryError, MemoryRegionInfo) outcome)) of
      (Some off, Some region, Some k, Ok highest) \<Rightarrow> boot_layout info mmap sp off k region highest
    | _ \<Rightarrow> False)"

lemma boot_okE:
  assumes "boot_ok info mmap sp"
  obtains off region k highest where "hhdm_offset info = Some off" "largest_usable mmap = Some region"
    "find (\<lambda>r. region_type r = ExecutableAndModules) mmap = Some k"
    "(highest_valid_region mmap :: (MemoryError, MemoryRegionInfo) outcome) = Ok highest"
    "boot_layout info mmap sp off k region highest"
  using assms by (auto simp: boot_ok_def split: option.splits outcome.splits)

lemma boot_layoutD:
  assumes "boot_layout info mmap sp off k region highest"
  shows "off mod 4096 = 0" "2 ^ 64 - 2 ^ 47 \<le> off" "kernel_ok info (length_of k)"
    "\<forall>r \<in> set mmap. misc_region r \<longrightarrow> misc_ok off r" "\<exists>r \<in> set mmap. stack_within off sp r"
    "sorted_wrt apart (boot_ranges off info k mmap @ [(base region + off, size_in_pages (length_of region))])"
    "base highest + length_of highest < 2 ^ 52"
    "\<forall>r \<in> set mmap. region_type r = Usable \<longrightarrow> base r mod 4096 = 0 \<and>
       (base r + length_of r) div 4096 \<le> 8 * bitmap_bytes highest"
    "free_range (base region + off) (size_in_pages (length_of region))" "4096 * (1024 + boot_frames off k mmap highest) \<le> length_of region"
    "base region + length_of region < 2 ^ 52" "base region + length_of region + off < 2 ^ 64"
  using assms by (auto simp: boot_layout_def list_all_iff list_ex_iff)

lemma boot_region_apart:
  assumes "boot_layout info mmap sp off k region highest"
  shows "covered (boot_ranges off info k mmap) \<inter> pages_of (base region + off) (size_in_pages (length_of region)) = {}"
    and "1024 \<le> size_in_pages (length_of region)"
proof -
  show "covered (boot_ranges off info k mmap) \<inter> pages_of (base region + off) (size_in_pages (length_of region)) = {}"
    using boot_layoutD(6) [OF assms] by (fastforce simp: sorted_wrt_append covered_def dest!: apart_pages)
  have "4096 * 1024 \<le> length_of region"
    using boot_layoutD(10) [OF assms] by (simp add: distrib_left)
  then show "1024 \<le> size_in_pages (length_of region)"
    by (auto simp: size_in_pages_def Let_def less_eq_div_iff_mult_less_eq)
qed

lemma boot_stack_canonical:
  assumes "boot_layout info mmap sp off k region highest"
  shows "canonical sp"
proof -
  obtain r where "r \<in> set mmap" "stack_within off sp r"
    using boot_layoutD(5) [OF assms] by blast
  moreover have "misc_ok off r" if "r \<in> set mmap" "stack_within off sp r" for r
    using boot_layoutD(4) [OF assms] that by (simp add: stack_within_def)
  ultimately show ?thesis
    by (intro free_range_address(1) [of "base r + off" "size_in_pages (length_of r)"])
      (auto simp: stack_within_def misc_ok_def STACK_SIZE_def KIBIBYTE_def)
qed

section \<open>\<open>init_paging\<close>\<close>

context x86_64_crate
begin

lemma new_boot:
  assumes "frame_address p" "off mod 4096 = 0" "linear_below L off (m + 1) p" "2 ^ 64 - 2 ^ 47 \<le> off"
  obtains s' where "(RecursivePageTable_new X (LinearFrameAllocator_alloc X) (Some off) (s\<lparr>frames := p\<rparr>)
      :: (MemoryError, RecursivePageTable) outcome \<times> _) = (Ok \<lparr>lvl4 = p + off, internal_offset = off\<rparr>, s')"
    "boot_at L G \<lparr>lvl4 = p + off, internal_offset = off\<rparr> m {} s'"
proof -
  have room: "p + 4096 < 2 ^ 52" "canonical p" "canonical (p + off)" "linear_below L off m (p + 4096)"
    using assms(3,4) by (auto simp: linear_below_def linear_room_def canonical_def)
  then have "LinearFrameAllocator_alloc X (frames (s\<lparr>frames := p\<rparr>)) = (Ok p, p + 4096)"
    by (simp add: LinearFrameAllocator_alloc_eq)
  from linear_paging.new_page_table [OF _ this assms(2) room(2,3)] obtain s' where
    "(RecursivePageTable_new X (LinearFrameAllocator_alloc X) (Some off) (s\<lparr>frames := p\<rparr>)
      :: (MemoryError, RecursivePageTable) outcome \<times> _) = (Ok \<lparr>lvl4 = p + off, internal_offset = off\<rparr>, s')"
    "boot_inv \<lparr>lvl4 = p + off, internal_offset = off\<rparr> s'" "frames s' = p + 4096"
    "mapped X \<lparr>lvl4 = p + off, internal_offset = off\<rparr> (tables s') = (\<lambda>_. None)"
    and none: "\<forall>js. node_path js \<and> js \<noteq> [] \<longrightarrow> table_at X off (tables s') (p + off) js = None"
    using assms(1) by (auto simp: linear_good_def)
  moreover have "tables_within X \<lparr>lvl4 = p + off, internal_offset = off\<rparr> (tables s') ({} \<union> G)"
    using none by (auto simp: tables_within_def)
  ultimately show ?thesis
    using that room(4) by (simp add: boot_at_def)
qed

lemma address_space_boot:
  assumes lay: "boot_layout info mmap sp off k region highest" and off: "internal_offset pt = off"
    and G: "(sp + 16) div 4096 \<in> G"
    and at: "boot_at L G pt (m + 3 * (\<Sum>(to, n) \<leftarrow> misc_ranges off mmap. n) + 3 * size_in_pages (length_of k)) {} s"
  obtains s1 s2 s3 where "map_kernel X info pt k s = (Ok (), s1)" "map_misc X mmap pt s1 = (Ok (), s2)"
    "remap_stack X sp pt s2 = (Ok (), s3)"
    "boot_at L G pt m (covered (boot_ranges off info k mmap) - {(sp + 16) div 4096}) s3"
proof -
  note layD = boot_layoutD [OF lay]
  define K where "K = pages_of (limine_reqs_start info) (size_in_pages (length_of k))"
  have disj: "sorted_wrt apart (misc_ranges off mmap)" "K \<inter> covered (misc_ranges off mmap) = {}"
    using layD(6) unfolding K_def by (auto simp: boot_ranges_def sorted_wrt_append intro!: apart_covered)
  obtain s1 where s1: "map_kernel X info pt k s = (Ok (), s1)"
    "boot_at L G pt (m + 3 * (\<Sum>(to, n) \<leftarrow> misc_ranges off mmap. n)) K s1"
    by (rule map_kernel_boot [OF at layD(3)]) (auto simp: K_def)
  obtain s2 where s2: "map_misc X mmap pt s1 = (Ok (), s2)" "boot_at L G pt m (K \<union> covered (misc_ranges off mmap)) s2"
    using map_misc_boot [of L G pt m mmap K s1, unfolded off, OF s1(2) layD(4) disj(1)] disj(2) by auto
  obtain r where r: "r \<in> set mmap" "stack_within off sp r" "misc_region r"
    using layD(5) by (auto simp: stack_within_def)
  have sub: "pages_of (base r + off) (size_in_pages (length_of r)) \<subseteq> K \<union> covered (misc_ranges off mmap)"
    using r(1,3) by (auto simp: covered_def misc_ranges_def)
  have "misc_ok off r" "2 ^ 47 \<le> off"
    using layD(2,4) r by auto
  then obtain s3 where "remap_stack X sp pt s2 = (Ok (), s3)"
    "boot_at L G pt m (K \<union> covered (misc_ranges off mmap) - {(sp + 16) div 4096}) s3"
    using remap_stack_boot [OF s2(2) r(2) _ sub _ G] by blast
  then show ?thesis
    using that s1(1) s2(1) by (simp add: boot_ranges_def K_def)
qed

lemma bitmaps_boot:
  assumes at: "boot_at L G pt (m + size_in_pages (n * 2) + size_in_pages n) S s" and n: "n * 2 < 2 ^ 50"
    and regions: "\<forall>r \<in> set mmap. region_type r = Usable \<longrightarrow>
      base r + length_of r < 2 ^ 64 \<and> (base r + length_of r) div 4096 \<le> 8 * n"
  obtains fa va p p' where
    "BitmapFrameAllocator_new X (internal_offset pt) n mmap (frames s) = (Ok fa, p)"
    "VirtualMemoryAllocator_new X (internal_offset pt) (n * 2) p = (Ok va, p')"
    "boot_at L G pt m S (s\<lparr>frames := p'\<rparr>)" "bitmap_ok fa" "bits_size fa = 8 * n" "bitmap_full va"
    "allocated fa = {..<8 * n} - (\<Union> (region_cleared ` {r \<in> set mmap. region_type r = Usable}))"
proof -
  define s1 where "s1 = s\<lparr>frames := frames s + size_in_pages n * 4096\<rparr>"
  note at1 = boot_at_frames [OF at]
  note at2 = boot_at_frames [OF at1(1)]
  have "n < 2 ^ 50"
    using n by simp
  from frame_allocator_new [OF x86_64_crate_axioms at1(2,3,4) this regions] obtain fa where
    fa: "BitmapFrameAllocator_new X (internal_offset pt) n mmap (frames s) = (Ok fa, frames s1)"
    "bitmap_ok fa" "bits_size fa = 8 * n"
    "allocated fa = {..<8 * n} - (\<Union> (region_cleared ` {r \<in> set mmap. region_type r = Usable}))"
    by (auto simp: s1_def)
  from new_effect [OF at2(2-4) n, of True] obtain va where
    "BitmapAllocator_new X (internal_offset pt) (n * 2) True (frames s1) =
       (Ok va, frames s1 + size_in_pages (n * 2) * 4096)" "bitmap_ok va" "bits_size va = 8 * (n * 2)"
    "allocated va = {..<8 * (n * 2)}"
    by (auto simp: s1_def)
  then have "VirtualMemoryAllocator_new X (internal_offset pt) (n * 2) (frames s1) =
       (Ok va, frames s1 + size_in_pages (n * 2) * 4096)" "bitmap_full va"
    by (simp_all add: VirtualMemoryAllocator_new_def bitmap_full_def try_prog_Ok)
  then show ?thesis
    using that fa at2(1) by (simp add: s1_def)
qed

lemma init_paging_boot:
  assumes lay: "boot_layout info mmap sp off k region highest"
    and info: "hhdm_offset info = Some off" "find (\<lambda>r. region_type r = ExecutableAndModules) mmap = Some k"
      "(highest_valid_region mmap :: (MemoryError, MemoryRegionInfo) outcome) = Ok highest"
    and p: "frame_address p" "linear_below L off (boot_frames off k mmap highest) p"
    and G: "(sp + 16) div 4096 \<in> G"
  obtains ctrl s' where "init_paging X info sp mmap (s\<lparr>frames := p\<rparr>) = (Ok ctrl, s')"
    "rec_page_table ctrl = \<lparr>lvl4 = p + off, internal_offset = off\<rparr>"
    "boot_at L G (rec_page_table ctrl) (3 * 1024) (covered (boot_ranges off info k mmap) - {(sp + 16) div 4096}) s'"
    "bitmap_ok (frame_allocator ctrl)" "bits_size (frame_allocator ctrl) = 8 * bitmap_bytes highest"
    "bitmap_full (virt_mem_allocator ctrl)"
    "allocated (frame_allocator ctrl) =
      {..<8 * bitmap_bytes highest} - (\<Union> (region_cleared ` {r \<in> set mmap. region_type r = Usable}))"
proof -
  note layD = boot_layoutD [OF lay]
  define n where "n = bitmap_bytes highest"
  define pt where "pt = \<lparr>lvl4 = p + off, internal_offset = off\<rparr>"
  have off: "internal_offset pt = off"
    by (simp add: pt_def)
  have "linear_below L off (3 * 1024 + size_in_pages (n * 2) + size_in_pages n +
      3 * (\<Sum>(to, n) \<leftarrow> misc_ranges off mmap. n) + 3 * size_in_pages (length_of k) + 1) p"
    using p(2) by (simp add: boot_frames_def n_def algebra_simps)
  then obtain s1 where s1: "(RecursivePageTable_new X (LinearFrameAllocator_alloc X) (Some off) (s\<lparr>frames := p\<rparr>)
      :: (MemoryError, RecursivePageTable) outcome \<times> _) = (Ok pt, s1)"
    "boot_at L G pt (3 * 1024 + size_in_pages (n * 2) + size_in_pages n +
      3 * (\<Sum>(to, n) \<leftarrow> misc_ranges off mmap. n) + 3 * size_in_pages (length_of k)) {} s1"
    unfolding pt_def by (rule new_boot [OF p(1) layD(1) _ layD(2)])
  obtain s2 s3 s4 where s4: "map_kernel X info pt k s1 = (Ok (), s2)" "map_misc X mmap pt s2 = (Ok (), s3)"
    "remap_stack X sp pt s3 = (Ok (), s4)"
    "boot_at L G pt (3 * 1024 + size_in_pages (n * 2) + size_in_pages n)
       (covered (boot_ranges off info k mmap) - {(sp + 16) div 4096}) s4"
    by (rule address_space_boot [OF lay off G s1(2)])
  have "base highest + length_of highest < 2 ^ 40 * 4096"
    using layD(7) by simp
  then have small: "(base highest + length_of highest) div 4096 < 2 ^ 40"
    by (simp add: div_less_iff_less_mult)
  then have n40: "n * 8 < 2 ^ 40"
    unfolding n_def bitmap_bytes_def by (rule le_less_trans [OF div_times_less_eq_dividend])
  have regions: "\<forall>r \<in> set mmap. region_type r = Usable \<longrightarrow>
      base r + length_of r < 2 ^ 64 \<and> (base r + length_of r) div 4096 \<le> 8 * n"
  proof (intro ballI impI conjI)
    fix r assume r: "r \<in> set mmap" "region_type r = Usable"
    then show le: "(base r + length_of r) div 4096 \<le> 8 * n"
      using layD(8) by (simp add: n_def)
    then have "(base r + length_of r) div 4096 < 2 ^ 40"
      using n40 by linarith
    then show "base r + length_of r < 2 ^ 64"
      by (simp add: div_less_iff_less_mult)
  qed
  have "n * 2 < 2 ^ 50" "n * 2 < 2 ^ 64"
    using n40 by auto
  obtain fa va p5 p6 where bm:
    "BitmapFrameAllocator_new X (internal_offset pt) n mmap (frames s4) = (Ok fa, p5)"
    "VirtualMemoryAllocator_new X (internal_offset pt) (n * 2) p5 = (Ok va, p6)"
    "boot_at L G pt (3 * 1024) (covered (boot_ranges off info k mmap) - {(sp + 16) div 4096}) (s4\<lparr>frames := p6\<rparr>)"
    "bitmap_ok fa" "bits_size fa = 8 * n" "bitmap_full va"
    "allocated fa = {..<8 * n} - (\<Union> (region_cleared ` {r \<in> set mmap. region_type r = Usable}))"
    by (rule bitmaps_boot [OF s4(4) \<open>n * 2 < 2 ^ 50\<close> regions])
  define ctrl where "ctrl = \<lparr>rec_page_table = pt, frame_allocator = fa, virt_mem_allocator = va\<rparr>"
  have bytes: "(base highest + length_of highest) div 4096 div 8 = n"
    by (simp add: n_def bitmap_bytes_def)
  have "base highest + length_of highest < 2 ^ 64"
    using layD(7) by simp
  then have "init_paging X info sp mmap (s\<lparr>frames := p\<rparr>) = (Ok ctrl, s4\<lparr>frames := p6\<rparr>)"
    using s1(1) s4(1-3) bm(1,2) info \<open>n * 2 < 2 ^ 64\<close>
    by (simp add: init_paging_def Let_def try_prog_Ok add64_def mul64_def zoom_def bytes ctrl_def)
  then show ?thesis
    using that bm(3-7) by (simp add: ctrl_def n_def pt_def)
qed

section \<open>\<open>init_memory\<close>\<close>

lemma root_taken: "boot_inv self s \<Longrightarrow> lvl4 self < frames s + internal_offset self"
  using tree_okD(3) [of X "internal_offset self" "lvl4 self" "linear_taken (frames s)" "tables s" "[]" "lvl4 self"]
  by (auto simp: paging_inv_def linear_taken_def node_path_def valid_path_def)

lemma init_memory_boot:
  assumes lay: "boot_layout info mmap sp off k region highest"
    and info: "hhdm_offset info = Some off" "largest_usable mmap = Some region"
      "find (\<lambda>r. region_type r = ExecutableAndModules) mmap = Some k"
      "(highest_valid_region mmap :: (MemoryError, MemoryRegionInfo) outcome) = Ok highest"
  obtains res s' pt where "init_memory X info (Some mmap) sp s = (Ok res, s')"
    "pt = \<lparr>lvl4 = cr3 res + off, internal_offset = off\<rparr>" "cr3 res = base region + 1024 * 4096"
    "rec_page_table (paging_controller res) = pt\<lparr>lvl4 := LEVEL4\<rparr>"
    "boot_at (base region + length_of region) {(sp + 16) div 4096} pt 0 (boot_pages off info k mmap sp region) s'"
    "\<forall>k < 1024. mapped X pt (tables s') (base region + off + k * 4096) = Some (base region + k * 4096, flags_rw X)"
    "heap_start res = base region + off"
    "allocated (frame_allocator (paging_controller res)) = {..<8 * bitmap_bytes highest} -
      (\<Union> (region_cleared ` {r \<in> set mmap. region_type r = Usable})) \<union> {base region div 4096..<frames s' div 4096}"
    "bitmap_full (virt_mem_allocator (paging_controller res))"
    "bits_size (frame_allocator (paging_controller res)) = 8 * bitmap_bytes highest"
proof -
  note layD = boot_layoutD [OF lay]
  define L p where "L = base region + length_of region" and "p = base region + 1024 * 4096"
  have base: "base region mod 4096 = 0"
    using layD(8) largest_usable_SomeD(1,2) [OF info(2)] by blast
  have below: "base region + 4096 * (1024 + boot_frames off k mmap highest) \<le> L"
    using layD(10) by (simp add: L_def)
  then have p: "frame_address p" "linear_below L off (boot_frames off k mmap highest) p"
    using layD(2,11,12) base
    by (auto simp: frame_address_def p_def linear_below_def linear_room_def L_def)
  obtain ctrl s1 where ctrl: "init_paging X info sp mmap (s\<lparr>frames := p\<rparr>) = (Ok ctrl, s1)"
    "rec_page_table ctrl = \<lparr>lvl4 = p + off, internal_offset = off\<rparr>"
    "boot_at L {(sp + 16) div 4096} (rec_page_table ctrl) (3 * 1024) (covered (boot_ranges off info k mmap) - {(sp + 16) div 4096}) s1"
    "bitmap_ok (frame_allocator ctrl)" "bits_size (frame_allocator ctrl) = 8 * bitmap_bytes highest"
    "bitmap_full (virt_mem_allocator ctrl)"
    "allocated (frame_allocator ctrl) =
      {..<8 * bitmap_bytes highest} - (\<Union> (region_cleared ` {r \<in> set mmap. region_type r = Usable}))"
    by (rule init_paging_boot [OF lay info(1,3,4) p, of "{(sp + 16) div 4096}"]) simp
  define pt where "pt = rec_page_table ctrl"
  have heap: "frame_address (base region)" "base region + 1024 * 4096 \<le> 2 ^ 52"
    using base below layD(11) by (auto simp: frame_address_def L_def)
  have "pages_of (base region + off) 1024 \<subseteq> pages_of (base region + off) (size_in_pages (length_of region))"
    using boot_region_apart(2) [OF lay] by (auto simp: pages_of_def)
  then have disj: "pages_of (base region + off) 1024 \<inter>
      (covered (boot_ranges off info k mmap) - {(sp + 16) div 4096}) = {}"
    using boot_region_apart(1) [OF lay] by blast
  obtain s' where s': "RecursivePageTable_map_contiguous X (LinearFrameAllocator_alloc X) pt 1024 (base region)
      (base region + off) (flags_rw X) s1 = (Ok (), s')"
    "boot_at L {(sp + 16) div 4096} pt 0 (boot_pages off info k mmap sp region) s'"
    "range_mapped 1024 (base region) (base region + off) (flags_rw X) (mapped X pt (tables s1)) (mapped X pt (tables s'))"
    unfolding boot_pages_def
    by (rule map_range_boot [OF _ heap section_flags_present(3) free_range_le [OF layD(9) boot_region_apart(2) [OF lay]] disj, of L "{(sp + 16) div 4096}" pt 0 s1])
      (use ctrl(3) in \<open>simp_all add: pt_def\<close>)
  have "p + off < frames s' + off" and used: "frames s' \<le> L"
    using root_taken [of pt s'] s'(2) by (auto simp: boot_at_def pt_def ctrl(2) linear_below_def)
  then have "base region div 4096 \<le> frames s' div 4096" "frames s' div 4096 \<le> L div 4096"
    by (auto simp: p_def intro!: div_le_mono)
  moreover have "L div 4096 \<le> bits_size (frame_allocator ctrl)"
    using layD(8) largest_usable_SomeD(1,2) [OF info(2)] by (simp add: L_def ctrl(5))
  ultimately obtain fa where fa: "BitmapAllocator_flag_range (base region div 4096, frames s' div 4096) True
      (frame_allocator ctrl) = (Ok (), fa)"
    "allocated fa = allocated (frame_allocator ctrl) \<union> {base region div 4096..<frames s' div 4096}"
    "bits_size fa = 8 * bitmap_bytes highest"
    using ctrl(5) flag_range_effect [OF ctrl(4), of "base region div 4096" "frames s' div 4096" True]
    by (auto simp: same_shape_def)
  have load: "(RecursivePageTable_load X pt :: (MemoryError, _) outcome) = Ok (p, pt\<lparr>lvl4 := LEVEL4\<rparr>)"
    by (rule load_eq [OF p(1)]) (simp add: pt_def ctrl(2))
  define res where "res = \<lparr>paging_controller = ctrl\<lparr>frame_allocator := fa, rec_page_table := pt\<lparr>lvl4 := LEVEL4\<rparr>\<rparr>,
      cr3 = p, heap_start = base region + off\<rparr>"
  have addr: "base region < 2 ^ 52" "canonical (base region)" "canonical (base region + off)" "canonical off"
    "p < 2 ^ 52" "canonical sp"
    using layD(2,11,12) p(1) boot_stack_canonical [OF lay] below
    by (auto simp: canonical_def frame_address_def L_def)
  have pages: "KERNEL_HEAP_SIZE div PAGE_SIZE = 1024"
    by (simp add: KERNEL_HEAP_SIZE_def MEBIBYTE_def KIBIBYTE_def)
  have heap_alloc: "zoom frames (\<lambda>a s. s\<lparr>frames := a\<rparr>) (LinearFrameAllocator_alloc_contiguous X 1024)
      (s\<lparr>frames := base region\<rparr>) = (Ok (base region), s\<lparr>frames := p\<rparr>)"
    using addr(5) by (simp add: zoom_def LinearFrameAllocator_alloc_contiguous_eq p_def)
  have heap_map: "map_err_prog MemoryError_from (RecursivePageTable_map_contiguous X (LinearFrameAllocator_alloc X)
      (rec_page_table ctrl) 1024 (base region) (base region + off) (flags_rw X)) s1 = (Ok (), s')"
    using s'(1) by (simp add: map_err_prog_def pt_def)
  have mark: "run_local (BitmapAllocator_flag_range (base region div 4096, frames s' div 4096) True)
      (frame_allocator ctrl) s' = (Ok fa, s')"
    using fa(1) by simp
  have ptD: "internal_offset (rec_page_table ctrl) = off"
    "(RecursivePageTable_load X (rec_page_table ctrl) :: (MemoryError, _) outcome) = Ok (p, pt\<lparr>lvl4 := LEVEL4\<rparr>)"
    using load by (simp_all add: ctrl(2) pt_def)
  have "init_memory_in X info mmap off region sp s = (Ok res, s')"
    unfolding init_memory_in_def Let_def pages
    using addr ctrl(1) heap_alloc heap_map mark ptD
    by (simp add: try_prog_Ok PhysAddr_new VirtAddr_new VirtAddr_add VirtAddr_diff res_def)
  then have "init_memory X info (Some mmap) sp s = (Ok res, s')"
    using info(1,2) addr(4) by (simp add: init_memory_def VirtAddr_new)
  then show ?thesis
    by (rule that [of res s' pt])
      (use s'(2,3) fa(2,3) ctrl(6,7) in \<open>auto simp: res_def pt_def ctrl(2) p_def L_def range_mapped_def\<close>)
qed

end

context x86_64_crate
begin

lemma init_memory_total:
  assumes "boot_ok info mmap sp"
  shows "\<exists>res s'. init_memory X info (Some mmap) sp s = (Ok res, s')"
proof (rule boot_okE [OF assms])
  fix off region k highest
  assume info: "hhdm_offset info = Some off" "largest_usable mmap = Some region"
      "find (\<lambda>r. region_type r = ExecutableAndModules) mmap = Some k"
      "(highest_valid_region mmap :: (MemoryError, MemoryRegionInfo) outcome) = Ok highest"
    and lay: "boot_layout info mmap sp off k region highest"
  show ?thesis
    by (rule init_memory_boot [OF lay info]) blast
qed

end

section \<open>Properties\<close>

text \<open>C3. \<open>init_memory\<close> succeeds whenever the bootloader's answers pass \<open>boot_ok\<close>, from any state. The table that
  CR3 points at satisfies the invariant; the mapped pages are exactly the kernel image, the regions of the
  bootloader but the page at the top of the stack, and the heap; the heap is mapped writable and not
  executable to the start of the largest usable region; the linear allocator has not left that region; and
  the frame allocator has as free frames the whole groups of eight frames of the usable regions, less the
  frames already used.\<close>

theorem init_memory_succeeds:
  assumes "x86_64_crate X" "boot_ok info mmap sp"
  shows "\<exists>res s' off region k pt. init_memory X info (Some mmap) sp s = (Ok res, s') \<and>
    hhdm_offset info = Some off \<and> largest_usable mmap = Some region \<and>
    find (\<lambda>r. region_type r = ExecutableAndModules) mmap = Some k \<and>
    pt = \<lparr>lvl4 = cr3 res + off, internal_offset = off\<rparr> \<and> paging_inv X linear_good linear_taken pt s' \<and>
    rec_page_table (paging_controller res) = pt\<lparr>lvl4 := LEVEL4\<rparr> \<and>
    (\<forall>a. canonical a \<longrightarrow> (mapped X pt (tables s') a \<noteq> None \<longleftrightarrow> a div 4096 \<in> boot_pages off info k mmap sp region)) \<and>
    (\<forall>i < 1024. mapped X pt (tables s') (heap_start res + i * 4096) = Some (base region + i * 4096, flags_rw X)) \<and>
    frames s' \<le> base region + length_of region \<and>
    (\<forall>f < bits_size (frame_allocator (paging_controller res)).
       f \<notin> allocated (frame_allocator (paging_controller res)) \<longleftrightarrow>
       (\<exists>r \<in> set mmap. region_type r = Usable \<and> f \<in> region_cleared r) \<and>
       f \<notin> {base region div 4096..<frames s' div 4096})"
proof (rule boot_okE [OF assms(2)])
  fix off region k highest
  assume info: "hhdm_offset info = Some off" "largest_usable mmap = Some region"
      "find (\<lambda>r. region_type r = ExecutableAndModules) mmap = Some k"
      "(highest_valid_region mmap :: (MemoryError, MemoryRegionInfo) outcome) = Ok highest"
    and lay: "boot_layout info mmap sp off k region highest"
  obtain res s' pt where run: "init_memory X info (Some mmap) sp s = (Ok res, s')"
    "pt = \<lparr>lvl4 = cr3 res + off, internal_offset = off\<rparr>" "rec_page_table (paging_controller res) = pt\<lparr>lvl4 := LEVEL4\<rparr>"
    and at: "x86_64_crate.boot_at X (base region + length_of region) {(sp + 16) div 4096} pt 0 (boot_pages off info k mmap sp region) s'"
    and heap: "\<forall>k < 1024. mapped X pt (tables s') (heap_start res + k * 4096) = Some (base region + k * 4096, flags_rw X)"
    and fa: "bits_size (frame_allocator (paging_controller res)) = 8 * bitmap_bytes highest"
      "allocated (frame_allocator (paging_controller res)) = {..<8 * bitmap_bytes highest} -
      (\<Union> (region_cleared ` {r \<in> set mmap. region_type r = Usable})) \<union> {base region div 4096..<frames s' div 4096}"
    by (rule x86_64_crate.init_memory_boot [OF assms(1) lay info, of s]) simp
  have space: "paging_inv X linear_good linear_taken pt s'" "frames s' \<le> base region + length_of region"
    "\<forall>a. canonical a \<longrightarrow> (mapped X pt (tables s') a \<noteq> None \<longleftrightarrow> a div 4096 \<in> boot_pages off info k mmap sp region)"
    using at unfolding x86_64_crate.boot_at_def [OF assms(1)] linear_below_def by simp_all
  have free: "\<forall>f < bits_size (frame_allocator (paging_controller res)).
      f \<notin> allocated (frame_allocator (paging_controller res)) \<longleftrightarrow>
      (\<exists>r \<in> set mmap. region_type r = Usable \<and> f \<in> region_cleared r) \<and>
      f \<notin> {base region div 4096..<frames s' div 4096}"
    by (auto simp: fa)
  show ?thesis
    by (intro exI conjI) (rule run info space heap free)+
qed

text \<open>An answer that passes: 32 mebibytes of usable memory, a kernel of one page, and 128 kibibytes of the
  bootloader with the stack.\<close>

definition small_mmap :: "MemoryRegionInfo list" where
  "small_mmap = [\<lparr>base = 0x100000, length_of = 0x2000000, region_type = Usable\<rparr>,
     \<lparr>base = 0x4000000, length_of = 0x1000, region_type = ExecutableAndModules\<rparr>,
     \<lparr>base = 0x4010000, length_of = 0x20000, region_type = BootloaderReclaimable\<rparr>,
     \<lparr>base = 0x5000000, length_of = 0x1000, region_type = MemoryRegionType.Framebuffer\<rparr>]"

definition small_info :: boot_info where
  "small_info = \<lparr>limine_reqs_start = 0xFFFFFFFF80000000, text_start = 0xFFFFFFFF80000000,
     rodata_start = 0xFFFFFFFF80001000, data_start = 0xFFFFFFFF80001000, elf_end = 0xFFFFFFFF80001000,
     kernel_address = Some (0xFFFFFFFF80000000, 0x4000000), hhdm_offset = Some 0xFFFF800000000000\<rparr>"

lemma small_boot_ok: "boot_ok small_info small_mmap 0xFFFF800004027FF0"
  by (simp add: boot_ok_def small_mmap_def small_info_def largest_usable_def highest_valid_region_def
      boot_layout_def kernel_ok_def misc_ok_def misc_region_def stack_within_def boot_ranges_def misc_ranges_def
      boot_frames_def bitmap_bytes_def size_in_pages_def frame_address_def free_range_def canonical_def add64_def
      STACK_SIZE_def KIBIBYTE_def Let_def)

theorem init_memory_succeeds_witness:
  "\<exists>res s' pt. init_memory x86_64_entries small_info (Some small_mmap) 0xFFFF800004027FF0
      \<lparr>tables = Map.empty, frames = 0\<rparr> = (Ok res, s') \<and>
    mapped x86_64_entries pt (tables s') (heap_start res) = Some (0x100000, flags_rw x86_64_entries) \<and>
    mapped x86_64_entries pt (tables s') 0xFFFFFFFF80000000 \<noteq> None \<and>
    mapped x86_64_entries pt (tables s') 0xFFFF800004028000 = None"
proof -
  obtain res s' off region k pt where run: "init_memory x86_64_entries small_info (Some small_mmap) 0xFFFF800004027FF0
      \<lparr>tables = Map.empty, frames = 0\<rparr> = (Ok res, s')"
    and info: "hhdm_offset small_info = Some off" "largest_usable small_mmap = Some region"
      "find (\<lambda>r. region_type r = ExecutableAndModules) small_mmap = Some k"
    and space: "\<forall>a. canonical a \<longrightarrow> (mapped x86_64_entries pt (tables s') a \<noteq> None \<longleftrightarrow>
      a div 4096 \<in> boot_pages off small_info k small_mmap 0xFFFF800004027FF0 region)"
    and heap: "\<forall>i < 1024. mapped x86_64_entries pt (tables s') (heap_start res + i * 4096) =
      Some (base region + i * 4096, flags_rw x86_64_entries)"
    using init_memory_succeeds [OF entries.x86_64_crate_axioms small_boot_ok] by blast
  have eqs: "off = 0xFFFF800000000000" "region = \<lparr>base = 0x100000, length_of = 0x2000000, region_type = Usable\<rparr>"
    "k = \<lparr>base = 0x4000000, length_of = 0x1000, region_type = ExecutableAndModules\<rparr>"
    using info by (auto simp: small_info_def small_mmap_def largest_usable_def)
  have "0xFFFFFFFF80000000 div 4096 \<in> boot_pages off small_info k small_mmap 0xFFFF800004027FF0 region"
    "0xFFFF800004028000 div 4096 \<notin> boot_pages off small_info k small_mmap 0xFFFF800004027FF0 region"
    by (simp_all add: eqs boot_pages_def boot_ranges_def misc_ranges_def misc_region_def small_mmap_def small_info_def
        pages_of_def size_in_pages_def Let_def)
  moreover have "canonical 0xFFFFFFFF80000000" "canonical 0xFFFF800004028000"
    by (simp_all add: canonical_def)
  ultimately have "mapped x86_64_entries pt (tables s') 0xFFFFFFFF80000000 \<noteq> None"
    "mapped x86_64_entries pt (tables s') 0xFFFF800004028000 = None"
    using space by blast+
  moreover have "mapped x86_64_entries pt (tables s') (heap_start res) = Some (0x100000, flags_rw x86_64_entries)"
    using spec [OF heap, of 0] by (simp add: eqs(2))
  ultimately show ?thesis
    using run by blast
qed

text \<open>C11. The kernel cannot reach its own page tables and bitmaps after the boot. The frames the linear allocator
  handed out after the heap, from the one in CR3 on, hold the page tables and the bitmaps, which the kernel
  accesses at the frame's address plus the offset of the direct map; in the table that \<open>init_memory\<close> loads,
  \<open>translate\<close> finds no mapping at any of these addresses.\<close>

theorem boot_tables_unreachable:
  assumes "x86_64_crate X" "boot_ok info mmap sp" "hhdm_offset info = Some off"
    and "init_memory X info (Some mmap) sp s = (Ok res, s')"
  shows "cr3 res < frames s' \<and>
    (\<forall>f. cr3 res \<le> f \<and> f < frames s' \<longrightarrow>
       (RecursivePageTable_translate X ((rec_page_table (paging_controller res))\<lparr>lvl4 := cr3 res + off\<rparr>)
         (tables s') (f + off) :: ('e, PhysAddr option) outcome) = Ok None)"
proof (rule boot_okE [OF assms(2)])
  fix off' region k highest
  assume info: "hhdm_offset info = Some off'" "largest_usable mmap = Some region"
      "find (\<lambda>r. region_type r = ExecutableAndModules) mmap = Some k"
      "(highest_valid_region mmap :: (MemoryError, MemoryRegionInfo) outcome) = Ok highest"
    and "boot_layout info mmap sp off' k region highest"
  then have lay: "boot_layout info mmap sp off k region highest" and off: "off' = off"
    using assms(3) by auto
  obtain pt where pt: "pt = \<lparr>lvl4 = cr3 res + off, internal_offset = off\<rparr>"
    "rec_page_table (paging_controller res) = pt\<lparr>lvl4 := LEVEL4\<rparr>" "cr3 res = base region + 1024 * 4096"
    and at: "x86_64_crate.boot_at X (base region + length_of region) {(sp + 16) div 4096} pt 0 (boot_pages off info k mmap sp region) s'"
    by (rule x86_64_crate.init_memory_boot [OF assms(1) lay info [unfolded off], of s])
      (use assms(4) in simp)
  have space: "paging_inv X linear_good linear_taken pt s'" "frames s' \<le> base region + length_of region"
    "\<forall>a. canonical a \<longrightarrow> (mapped X pt (tables s') a \<noteq> None \<longleftrightarrow> a div 4096 \<in> boot_pages off info k mmap sp region)"
    using at unfolding x86_64_crate.boot_at_def [OF assms(1)] linear_below_def by simp_all
  have "(RecursivePageTable_translate X pt (tables s') (f + off) :: ('e, PhysAddr option) outcome) = Ok None"
    if f: "cr3 res \<le> f" "f < frames s'" for f
  proof -
    define to n where "to = base region + off" and "n = size_in_pages (length_of region)"
    have "length_of region \<le> n * 4096"
      using div_mult_mod_eq [of "length_of region" 4096] by (auto simp: n_def size_in_pages_def Let_def)
    then have a: "to + 1024 * 4096 \<le> f + off" "f + off < to + n * 4096"
      using f space(2) by (simp_all add: to_def pt(3))
    then have "to \<le> f + off"
      by simp
    note free = free_range_address [OF boot_layoutD(9) [OF lay, folded to_def n_def] this a(2)]
    have "(to + 1024 * 4096) div 4096 \<le> (f + off) div 4096" "(f + off) div 4096 \<le> (to + n * 4096) div 4096"
      using a by (auto intro: div_le_mono)
    moreover have "to mod 4096 = 0"
      using boot_layoutD(9) [OF lay] by (simp add: free_range_def to_def)
    ultimately have "(f + off) div 4096 \<in> pages_of to n" "(f + off) div 4096 \<notin> pages_of to 1024"
      using a(2) by (auto simp: pages_of_def div_less_iff_less_mult algebra_simps)
    then have "(f + off) div 4096 \<notin> boot_pages off info k mmap sp region"
      using boot_region_apart(1) [OF lay] by (auto simp: boot_pages_def to_def n_def)
    then have "mapped X pt (tables s') (f + off) = None"
      using space(3) free(1) by blast
    then show ?thesis
      by (simp add: paging.translate_eq [OF linear_supply(2) [OF assms(1)] space(1) free(2)])
  qed
  then show ?thesis
    using x86_64_crate.root_taken [OF assms(1) space(1)] by (simp add: pt)
qed

theorem boot_tables_unreachable_witness:
  "\<exists>res s'. init_memory x86_64_entries small_info (Some small_mmap) 0xFFFF800004027FF0
      \<lparr>tables = Map.empty, frames = 0\<rparr> = (Ok res, s') \<and>
    (RecursivePageTable_translate x86_64_entries
      ((rec_page_table (paging_controller res))\<lparr>lvl4 := cr3 res + 0xFFFF800000000000\<rparr>)
      (tables s') (cr3 res + 0xFFFF800000000000) :: (MemoryError, PhysAddr option) outcome) = Ok None"
proof -
  obtain res s' where run: "init_memory x86_64_entries small_info (Some small_mmap) 0xFFFF800004027FF0
      \<lparr>tables = Map.empty, frames = 0\<rparr> = (Ok res, s')"
    using entries.init_memory_total [OF small_boot_ok] by blast
  have "hhdm_offset small_info = Some 0xFFFF800000000000"
    by (simp add: small_info_def)
  then show ?thesis
    using run boot_tables_unreachable [OF entries.x86_64_crate_axioms small_boot_ok _ run, where 'e = MemoryError] by blast
qed

end
