(* ===== verification/Processor_View.thy ===== *)
theory Processor_View
  imports Page_Table_Properties
begin

text \<open>
  What the processor sees once CR3 holds the frame of the level-4 table. The kernel filled its tables through the
  direct map of the bootloader, so the table in the frame \<open>f\<close> is \<open>mem (f + off)\<close>. \<open>cpu_page\<close> is the walk of the
  memory management unit from a frame: four indices, every entry present. It knows nothing of the recursive
  entry, which is an entry like any other; a large page, which the kernel never makes, ends the walk. \<open>cpu_tables\<close>
  is the memory of tables as code that runs on these tables sees it, and \<open>cpu_allows\<close> says which accesses the
  processor allows.

  The lemmas relate the walk to \<open>mapped\<close>, outside the recursive range, and to the tree of tables inside it.
\<close>

section \<open>The walk of the memory management unit\<close>

definition cpu_entry ::
    "('pte, 'fl, 'z) x86_64_scheme \<Rightarrow> u64 \<Rightarrow> (u64 \<rightharpoonup> 'pte table) \<Rightarrow> PhysAddr \<Rightarrow> nat \<Rightarrow> 'pte option" where
  "cpu_entry X off mem f i = (case mem (f + off) of
      None \<Rightarrow> None
    | Some t \<Rightarrow> if flags_contains X (entry_flags X (t i)) (PRESENT X) then Some (t i) else None)"

fun cpu_walk ::
    "('pte, 'fl, 'z) x86_64_scheme \<Rightarrow> u64 \<Rightarrow> (u64 \<rightharpoonup> 'pte table) \<Rightarrow> PhysAddr \<Rightarrow> nat list \<Rightarrow> PhysAddr option" where
  "cpu_walk X off mem f [] = Some f"
| "cpu_walk X off mem f (i # is) = (case cpu_entry X off mem f i of
      None \<Rightarrow> None
    | Some e \<Rightarrow> if is \<noteq> [] \<and> flags_contains X (entry_flags X e) (HUGE_PAGE X) then None
               else cpu_walk X off mem (entry_addr X e) is)"

definition cpu_page ::
    "('pte, 'fl, 'z) x86_64_scheme \<Rightarrow> u64 \<Rightarrow> (u64 \<rightharpoonup> 'pte table) \<Rightarrow> PhysAddr \<Rightarrow> VirtAddr \<Rightarrow> PhysAddr option" where
  "cpu_page X off mem f a = cpu_walk X off mem f [page_index 4 a, page_index 3 a, page_index 2 a, page_index 1 a]"

definition cpu_tables ::
    "('pte, 'fl, 'z) x86_64_scheme \<Rightarrow> u64 \<Rightarrow> (u64 \<rightharpoonup> 'pte table) \<Rightarrow> PhysAddr \<Rightarrow> (u64 \<rightharpoonup> 'pte table)" where
  "cpu_tables X off mem f p = (if canonical p \<and> p mod 4096 = 0
     then Option.bind (cpu_page X off mem f p) (\<lambda>g. mem (g + off)) else None)"

text \<open>
  The entries of the walk, and what the processor allows at an address: reading when the walk reaches a page,
  writing when every entry of the walk is writable, fetching instructions when no entry forbids it. This is the
  processor as the bootloader leaves it (Limine boot protocol, x86-64), in ring 0 with CR0.WP and EFER.NXE set.
\<close>

datatype access = Read | Write | Execute

fun cpu_entries ::
    "('pte, 'fl, 'z) x86_64_scheme \<Rightarrow> u64 \<Rightarrow> (u64 \<rightharpoonup> 'pte table) \<Rightarrow> PhysAddr \<Rightarrow> nat list \<Rightarrow> 'pte list option" where
  "cpu_entries X off mem f [] = Some []"
| "cpu_entries X off mem f (i # is) = (case cpu_entry X off mem f i of
      None \<Rightarrow> None
    | Some e \<Rightarrow> if is \<noteq> [] \<and> flags_contains X (entry_flags X e) (HUGE_PAGE X) then None
               else map_option ((#) e) (cpu_entries X off mem (entry_addr X e) is))"

fun entry_allows :: "('pte, 'fl, 'z) x86_64_scheme \<Rightarrow> access \<Rightarrow> 'pte \<Rightarrow> bool" where
  "entry_allows X Read e = True"
| "entry_allows X Write e = flags_contains X (entry_flags X e) (WRITABLE X)"
| "entry_allows X Execute e = (\<not> flags_contains X (entry_flags X e) (NO_EXECUTE X))"

definition cpu_allows ::
    "('pte, 'fl, 'z) x86_64_scheme \<Rightarrow> u64 \<Rightarrow> (u64 \<rightharpoonup> 'pte table) \<Rightarrow> PhysAddr \<Rightarrow> access \<Rightarrow> VirtAddr \<Rightarrow> bool" where
  "cpu_allows X off mem f k a = (canonical a \<and>
     (case cpu_entries X off mem f [page_index 4 a, page_index 3 a, page_index 2 a, page_index 1 a] of
        None \<Rightarrow> False | Some es \<Rightarrow> list_all (entry_allows X k) es))"

context x86_64_crate
begin

lemma link_flags:
  "flags_contains X (flags_rwx X) (PRESENT X)" "\<not> flags_contains X (flags_rwx X) (HUGE_PAGE X)"
  "flags_contains X (flags_rw X) (PRESENT X)" "\<not> flags_contains X (flags_rw X) (HUGE_PAGE X)"
  by (simp_all add: flags_rwx_def flags_rw_def flag_simps)

text \<open>Down the tree, the processor follows the same links as \<open>get_page_table\<close>.\<close>

lemma cpu_walk_links:
  assumes ok: "tree_ok X off root T mem" "links_ok X off root mem"
  shows "table_at X off mem root pre = Some (f + off) \<Longrightarrow> node_path (pre @ js) \<Longrightarrow>
    cpu_walk X off mem f (js @ ks) =
      Option.bind (table_at X off mem (f + off) js) (\<lambda>q. cpu_walk X off mem (q - off) ks)"
proof (induction js arbitrary: pre f)
  case (Cons j js)
  have path: "node_path (pre @ [j])" "node_path pre"
    using Cons.prems(2) by (auto simp: node_path_def intro: valid_path_appendD)
  obtain t where t: "mem (f + off) = Some t"
    using tree_okD(1) [OF ok(1) path(2) Cons.prems(1)] by auto
  show ?case
  proof (cases "entry_is_unused X (t j)")
    case True
    then show ?thesis
      using t unused_not_present by (simp add: cpu_entry_def child_def)
  next
    case False
    then have flags: "entry_flags X (t j) = flags_rwx X"
      by (rule links_okD [OF ok(2) path(1) Cons.prems(1) t])
    have child: "child X off mem (f + off) j = Some (entry_addr X (t j) + off)"
      using t False by (simp add: child_def)
    then have "table_at X off mem root (pre @ [j]) = Some (entry_addr X (t j) + off)"
      using Cons.prems(1) by (simp add: table_at_snoc)
    from Cons.IH [OF this] show ?thesis
      using Cons.prems(2) t child flags link_flags by (simp add: cpu_entry_def)
  qed
qed simp

text \<open>Through the recursive entry the walk starts again at the root.\<close>

lemma cpu_walk_recursive:
  assumes "links_ok X off (f + off) mem"
  shows "cpu_walk X off mem f (510 # is) = cpu_walk X off mem f is"
  by (rule links_okE [OF assms]) (use link_flags in \<open>simp add: cpu_entry_def\<close>)

lemma cpu_page_mapped:
  assumes inv: "paging_inv X good taken self s" and root: "lvl4 self = f + internal_offset self"
    and a: "page_index 4 a \<noteq> 510"
  shows "cpu_page X (internal_offset self) (tables s) f a = (case mapped X self (tables s) a of
      None \<Rightarrow> None | Some (p, fl) \<Rightarrow> if flags_contains X fl (PRESENT X) then Some p else None)"
proof -
  have ok: "tree_ok X (internal_offset self) (lvl4 self) (taken (frames s)) (tables s)"
    "links_ok X (internal_offset self) (lvl4 self) (tables s)"
    using inv by (simp_all add: paging_inv_def)
  have walk: "cpu_page X (internal_offset self) (tables s) f a =
      Option.bind (table_at X (internal_offset self) (tables s) (lvl4 self) (table_path a))
        (\<lambda>q. cpu_walk X (internal_offset self) (tables s) (q - internal_offset self) [page_index 1 a])"
    using cpu_walk_links [OF ok, of "[]" f "table_path a" "[page_index 1 a]"] node_table_path [OF a]
    by (simp add: cpu_page_def table_path_def root)
  show ?thesis
  proof (cases "table_at X (internal_offset self) (tables s) (lvl4 self) (table_path a)")
    case None
    then show ?thesis
      using a walk by (simp add: mapped_def leaf_entry_def)
  next
    case (Some q)
    obtain t where t: "tables s q = Some t"
      using tree_okD(1) [OF ok(1) node_table_path [OF a] Some] by auto
    have "internal_offset self \<le> q"
      using tree_okD(3) [OF ok(1) node_table_path [OF a] Some] by auto
    then show ?thesis
      using a walk Some t unused_not_present
      by (auto simp: mapped_def leaf_entry_def cpu_entry_def)
  qed
qed

text \<open>The links forbid nothing, so the flags of the page decide what is allowed.\<close>

lemma cpu_entries_links:
  assumes ok: "tree_ok X off root T mem" "links_ok X off root mem"
  shows "table_at X off mem root pre = Some (f + off) \<Longrightarrow> node_path (pre @ js) \<Longrightarrow>
    table_at X off mem (f + off) js = Some (g + off) \<Longrightarrow> ks \<noteq> [] \<Longrightarrow>
    \<exists>es. (\<forall>e \<in> set es. entry_flags X e = flags_rwx X) \<and>
      cpu_entries X off mem f (js @ ks) = map_option ((@) es) (cpu_entries X off mem g ks)"
proof (induction js arbitrary: pre f)
  case Nil
  then show ?case
    by (auto simp: option.map_id [unfolded id_def] intro!: exI [of _ "[]"])
next
  case (Cons j js)
  have path: "node_path (pre @ [j])" "node_path pre"
    using Cons.prems(2) by (auto simp: node_path_def intro: valid_path_appendD)
  obtain t where t: "mem (f + off) = Some t"
    using tree_okD(1) [OF ok(1) path(2) Cons.prems(1)] by auto
  have used: "\<not> entry_is_unused X (t j)"
    using Cons.prems(3) t by (auto simp: child_def split: if_splits)
  have flags: "entry_flags X (t j) = flags_rwx X"
    by (rule links_okD [OF ok(2) path(1) Cons.prems(1) t used])
  have child: "child X off mem (f + off) j = Some (entry_addr X (t j) + off)"
    using t used by (simp add: child_def)
  then have "table_at X off mem root (pre @ [j]) = Some (entry_addr X (t j) + off)"
    using Cons.prems(1) by (simp add: table_at_snoc)
  then obtain es where "\<forall>e \<in> set es. entry_flags X e = flags_rwx X"
    "cpu_entries X off mem (entry_addr X (t j)) (js @ ks) = map_option ((@) es) (cpu_entries X off mem g ks)"
    using Cons.IH [of "pre @ [j]" "entry_addr X (t j)"] Cons.prems child by auto
  then show ?case
    using t flags link_flags
    by (intro exI [of _ "t j # es"]) (simp add: cpu_entry_def option.map_comp comp_def)
qed

lemma cpu_allows_mapped:
  assumes inv: "paging_inv X good taken self s" and root: "lvl4 self = f + internal_offset self"
    and a: "canonical a" "mapped X self (tables s) a = Some (p, fl)" and present: "flags_contains X fl (PRESENT X)"
  shows "cpu_allows X (internal_offset self) (tables s) f k a \<longleftrightarrow> (case k of
      Read \<Rightarrow> True | Write \<Rightarrow> flags_contains X fl (WRITABLE X) | Execute \<Rightarrow> \<not> flags_contains X fl (NO_EXECUTE X))"
proof -
  have ok: "tree_ok X (internal_offset self) (lvl4 self) (taken (frames s)) (tables s)"
    "links_ok X (internal_offset self) (lvl4 self) (tables s)"
    using inv by (simp_all add: paging_inv_def)
  have idx: "page_index 4 a \<noteq> 510"
    using a(2) by (auto simp: mapped_def split: if_splits)
  obtain q t where q: "table_at X (internal_offset self) (tables s) (lvl4 self) (table_path a) = Some q"
    and t: "tables s q = Some t" "entry_flags X (t (page_index 1 a)) = fl"
    using a(2) idx by (auto simp: mapped_def leaf_entry_def page_key_def bind_eq_Some_conv split: if_splits)
  have "internal_offset self \<le> q"
    using tree_okD(3) [OF ok(1) node_table_path [OF idx] q] by auto
  then have q': "table_at X (internal_offset self) (tables s) (f + internal_offset self) (table_path a) =
      Some (q - internal_offset self + internal_offset self)"
    using q root by simp
  obtain es where es: "\<forall>e \<in> set es. entry_flags X e = flags_rwx X"
    "cpu_entries X (internal_offset self) (tables s) f (table_path a @ [page_index 1 a]) =
      map_option ((@) es) (cpu_entries X (internal_offset self) (tables s) (q - internal_offset self) [page_index 1 a])"
    using cpu_entries_links [OF ok, of "[]" f "table_path a" "q - internal_offset self" "[page_index 1 a]"]
      node_table_path [OF idx] q' by (auto simp: root)
  have entry: "cpu_entry X (internal_offset self) (tables s) (q - internal_offset self) (page_index 1 a) =
      Some (t (page_index 1 a))"
    using t present \<open>internal_offset self \<le> q\<close> by (simp add: cpu_entry_def)
  have links: "list_all (entry_allows X k) es"
    using es(1) by (cases k) (auto simp: list_all_iff flags_rwx_def flag_simps)
  have "cpu_entries X (internal_offset self) (tables s) f
      [page_index 4 a, page_index 3 a, page_index 2 a, page_index 1 a] = Some (es @ [t (page_index 1 a)])"
    using es(2) entry by (simp add: table_path_def)
  then show ?thesis
    using a(1) links t(2) by (cases k) (simp_all add: cpu_allows_def)
qed

lemma cpu_page_recursive:
  assumes inv: "paging_inv X good taken self s" and root: "lvl4 self = f + internal_offset self"
    and v: "page_index 4 v = 510" and path: "node_path [page_index 3 v, page_index 2 v, page_index 1 v]"
  shows "cpu_page X (internal_offset self) (tables s) f v = map_option (\<lambda>q. q - internal_offset self)
    (table_at X (internal_offset self) (tables s) (lvl4 self) [page_index 3 v, page_index 2 v, page_index 1 v])"
proof -
  have ok: "tree_ok X (internal_offset self) (f + internal_offset self) (taken (frames s)) (tables s)"
    "links_ok X (internal_offset self) (f + internal_offset self) (tables s)"
    using inv by (simp_all add: paging_inv_def root)
  have "cpu_page X (internal_offset self) (tables s) f v =
      cpu_walk X (internal_offset self) (tables s) f ([page_index 3 v, page_index 2 v, page_index 1 v] @ [])"
    unfolding cpu_page_def v cpu_walk_recursive [OF ok(2)] by simp
  also have "\<dots> = Option.bind (table_at X (internal_offset self) (tables s) (lvl4 self)
      [page_index 3 v, page_index 2 v, page_index 1 v])
      (\<lambda>q. cpu_walk X (internal_offset self) (tables s) (q - internal_offset self) [])"
    unfolding root by (rule cpu_walk_links [OF ok, of "[]"]) (use path in simp_all)
  finally show ?thesis
    by (simp add: map_conv_bind_option comp_def)
qed

lemma cpu_tables_eq:
  assumes "canonical p" "p mod 4096 = 0"
  shows "cpu_tables X off mem f p = Option.bind (cpu_page X off mem f p) (\<lambda>g. mem (g + off))"
  using assms by (simp add: cpu_tables_def)

text \<open>In the recursive range the processor finds the tables of the tree.\<close>

lemma cpu_tables_recursive:
  assumes inv: "paging_inv X good taken self s" and root: "lvl4 self = f + internal_offset self"
    and v: "canonical v" "v mod 4096 = 0" "page_index 4 v = 510"
    and path: "node_path [page_index 3 v, page_index 2 v, page_index 1 v]"
  shows "cpu_tables X (internal_offset self) (tables s) f v = Option.bind
    (table_at X (internal_offset self) (tables s) (lvl4 self) [page_index 3 v, page_index 2 v, page_index 1 v]) (tables s)"
proof -
  have "tree_ok X (internal_offset self) (lvl4 self) (taken (frames s)) (tables s)"
    using inv by (simp add: paging_inv_def)
  note at = tree_okD(3) [OF this path]
  show ?thesis
    unfolding cpu_tables_eq [OF v(1,2)] cpu_page_recursive [OF inv root v(3) path]
    using at by (auto simp del: table_at.simps split: Option.bind_splits)
qed

lemma cpu_tables_root:
  assumes inv: "paging_inv X good taken self s" and root: "lvl4 self = f + internal_offset self"
  shows "cpu_tables X (internal_offset self) (tables s) f 0xFFFFFF7FBFDFE000 = tables s (lvl4 self)"
proof -
  have links: "links_ok X (internal_offset self) (f + internal_offset self) (tables s)"
    using inv by (simp add: paging_inv_def root)
  have idx: "page_index 4 0xFFFFFF7FBFDFE000 = 510" "page_index 3 0xFFFFFF7FBFDFE000 = 510"
    "page_index 2 0xFFFFFF7FBFDFE000 = 510" "page_index 1 0xFFFFFF7FBFDFE000 = 510"
    by (simp_all add: page_index_eq)
  have "cpu_page X (internal_offset self) (tables s) f 0xFFFFFF7FBFDFE000 = Some f"
    unfolding cpu_page_def idx cpu_walk_recursive [OF links] by simp
  then show ?thesis
    by (simp add: cpu_tables_def canonical_def root)
qed

end

section \<open>Properties\<close>

text \<open>C6. \<open>translate\<close> agrees with the processor: with the frame of the level-4 table in CR3, for an address outside the
  recursive range that is not mapped, or mapped to a frame with a flag set that has \<open>PRESENT\<close>, \<open>translate\<close> returns
  the physical address the memory management unit would use, and \<open>None\<close> exactly when it would fault.\<close>

theorem translate_agrees_with_processor:
  assumes "x86_64_crate X" "paging_inv X linear_good linear_taken self s" "lvl4 self = f + internal_offset self"
    and "page_index 4 a \<noteq> 510"
    and "\<And>p fl. mapped X self (tables s) a = Some (p, fl) \<Longrightarrow> frame_address p \<and> flags_contains X fl (PRESENT X)"
  shows "(RecursivePageTable_translate X self (tables s) a :: ('e, PhysAddr option) outcome) =
    Ok (map_option (\<lambda>p. p + a mod 4096) (cpu_page X (internal_offset self) (tables s) f a))"
proof -
  note cpu = x86_64_crate.cpu_page_mapped [OF assms(1-4)]
  note lin = linear_supply(2) [OF assms(1)]
  show ?thesis
  proof (cases "mapped X self (tables s) a")
    case None
    then show ?thesis
      using paging.translate_eq [OF lin assms(2,4)] cpu by simp
  next
    case (Some m)
    then obtain p fl where m: "mapped X self (tables s) a = Some (p, fl)"
      by (cases m) simp
    note fl = assms(5) [OF m]
    show ?thesis
      using paging.translate_mapped [OF lin assms(2,4) m] fl cpu m by simp
  qed
qed

theorem translate_agrees_with_processor_witness:
  "(RecursivePageTable_translate x86_64_entries first_table (tables page_state) 0x400123 :: (unit, _) outcome) =
     Ok (map_option (\<lambda>p. p + 0x400123 mod 4096) (cpu_page x86_64_entries hhdm (tables page_state) 0x1000 0x400123))"
proof -
  have "page_key 0x400123 = page_key 0x400000"
    by (simp add: page_key_def table_path_def page_index_eq)
  then have "frame_address p \<and> flags_contains x86_64_entries fl (PRESENT x86_64_entries)"
    if "mapped x86_64_entries first_table (tables page_state) 0x400123 = Some (p, fl)" for p fl
    using that by (auto simp: page_state_mapped frame_address_def flags_rw_entries)
  moreover have "lvl4 first_table = 0x1000 + internal_offset first_table" "page_index 4 0x400123 \<noteq> 510"
    by (simp_all add: first_table_def page_index_eq)
  ultimately show ?thesis
    using translate_agrees_with_processor [OF entries.x86_64_crate_axioms page_state_inv, of "0x1000" "0x400123", where 'e = unit]
    by (simp add: first_table_def)
qed



text \<open>C19. \<open>load\<close> leaves a wrong pointer. It writes the frame of the level-4 table to CR3 and sets \<open>lvl4\<close> to \<open>LEVEL4\<close>.
  Through the recursive entry the processor then finds the level-4 table at \<open>0xFFFFFF7FBFDFE000\<close>, and the level-1
  table of every page below the address with the indices of its path after 510; so at \<open>LEVEL4\<close> it finds the level-1 table
  of the last two mebibytes, if there is one, and never the level-4 table.\<close>

theorem load_leaves_wrong_pointer:
  assumes "x86_64_crate X" "paging_inv X linear_good linear_taken self s"
    and "frame_address p" "lvl4 self = p + internal_offset self"
  defines "view \<equiv> cpu_tables X (internal_offset self) (tables s) p"
  shows "(RecursivePageTable_load X self :: ('e, _) outcome) = Ok (p, self\<lparr>lvl4 := LEVEL4\<rparr>) \<and>
    view 0xFFFFFF7FBFDFE000 = tables s (lvl4 self) \<and>
    (\<forall>a v. page_index 4 a \<noteq> 510 \<and> canonical v \<and> v mod 4096 = 0 \<and> page_index 4 v = 510 \<and>
        [page_index 3 v, page_index 2 v, page_index 1 v] = table_path a \<longrightarrow>
      view v = Option.bind (table_at X (internal_offset self) (tables s) (lvl4 self) (table_path a)) (tables s)) \<and>
    view LEVEL4 = Option.bind (table_at X (internal_offset self) (tables s) (lvl4 self) [511, 511, 511]) (tables s) \<and>
    cpu_page X (internal_offset self) (tables s) p LEVEL4 \<noteq> Some p"
proof (intro conjI allI impI)
  note X = x86_64_crate.cpu_tables_recursive [OF assms(1,2,4)] x86_64_crate.cpu_page_recursive [OF assms(1,2,4)]
  have idx: "page_index 4 LEVEL4 = 510" "[page_index 3 LEVEL4, page_index 2 LEVEL4, page_index 1 LEVEL4] = [511, 511, 511]"
    "canonical LEVEL4" "LEVEL4 mod 4096 = 0"
    by (simp_all add: page_index_eq LEVEL4_def canonical_def)
  have path: "node_path [511, 511, 511]"
    by (simp add: node_path_def valid_path_def)
  show "(RecursivePageTable_load X self :: ('e, _) outcome) = Ok (p, self\<lparr>lvl4 := LEVEL4\<rparr>)"
    by (rule x86_64_crate.load_eq [OF assms(1,3,4)])
  show "view 0xFFFFFF7FBFDFE000 = tables s (lvl4 self)"
    unfolding view_def by (rule x86_64_crate.cpu_tables_root [OF assms(1,2,4)])
  show "view v = Option.bind (table_at X (internal_offset self) (tables s) (lvl4 self) (table_path a)) (tables s)"
    if "page_index 4 a \<noteq> 510 \<and> canonical v \<and> v mod 4096 = 0 \<and> page_index 4 v = 510 \<and>
      [page_index 3 v, page_index 2 v, page_index 1 v] = table_path a" for a v
    using X(1) [of v] that node_table_path [of a] unfolding view_def by (elim conjE) (simp only: simp_thms)
  show "view LEVEL4 = Option.bind (table_at X (internal_offset self) (tables s) (lvl4 self) [511, 511, 511]) (tables s)"
    using X(1) [OF idx(3,4,1), unfolded idx(2), OF path] by (simp only: view_def)
  have tree: "tree_ok X (internal_offset self) (lvl4 self) (linear_taken (frames s)) (tables s)"
    using assms(2) by (simp add: paging_inv_def)
  show "cpu_page X (internal_offset self) (tables s) p LEVEL4 \<noteq> Some p"
  proof
    assume "cpu_page X (internal_offset self) (tables s) p LEVEL4 = Some p"
    then obtain q where q: "table_at X (internal_offset self) (tables s) (lvl4 self) [511, 511, 511] = Some q"
      "q - internal_offset self = p"
      unfolding X(2) [OF idx(1), unfolded idx(2), OF path] by (auto simp del: table_at.simps)
    moreover have "internal_offset self \<le> q"
      using tree_okD(3) [OF tree path q(1)] by auto
    ultimately have "table_at X (internal_offset self) (tables s) (lvl4 self) [511, 511, 511] = Some (lvl4 self)"
      using assms(4) by simp
    then show False
      using tree_ok_inj [OF tree path, of "[]"] by (simp add: node_path_def del: table_at.simps(2))
  qed
qed

theorem load_leaves_wrong_pointer_witness:
  "(RecursivePageTable_load x86_64_entries first_table :: (PagingError, _) outcome) =
     Ok (0x1000, first_table\<lparr>lvl4 := LEVEL4\<rparr>) \<and>
   cpu_tables x86_64_entries hhdm (tables page_state) 0x1000 0xFFFFFF7FBFDFE000 =
     tables page_state (lvl4 first_table) \<and>
   cpu_page x86_64_entries hhdm (tables page_state) 0x1000 LEVEL4 \<noteq> Some 0x1000"
proof -
  have "frame_address 0x1000" "lvl4 first_table = 0x1000 + internal_offset first_table" "internal_offset first_table = hhdm"
    by (simp_all add: frame_address_def first_table_def)
  with load_leaves_wrong_pointer [OF entries.x86_64_crate_axioms page_state_inv, where 'e = PagingError] show ?thesis
    by metis
qed

end
