(* ===== verification/Paging_Controller.thy ===== *)
theory Paging_Controller
  imports Paging_Init
begin

text \<open>
  \<open>memory/paging/paging_controller.rs\<close>: the operations of \<open>KernelPagingController\<close> (the record is in
  \<open>Paging_Init\<close>, where it is built). The state is the memory of page tables and the controller; the
  frame allocator that \<open>map_contiguous\<close> borrows is the controller's own bitmap allocator.
\<close>

record 'pte controller_state =
  page_memory :: "u64 \<rightharpoonup> 'pte table"
  controller :: KernelPagingController

definition with_tables ::
    "(('pte, BitmapFrameAllocator) paging_state, 'e, 'a) prog \<Rightarrow> ('pte controller_state, 'e, 'a) prog" where
  "with_tables m = zoom
     (\<lambda>s. \<lparr>tables = page_memory s, frames = frame_allocator (controller s)\<rparr>)
     (\<lambda>t s. s\<lparr>page_memory := tables t, controller := (controller s)\<lparr>frame_allocator := frames t\<rparr>\<rparr>) m"

definition with_frames ::
    "(BitmapFrameAllocator, 'e, 'a) prog \<Rightarrow> ('pte controller_state, 'e, 'a) prog" where
  "with_frames m = zoom (\<lambda>s. frame_allocator (controller s))
     (\<lambda>a s. s\<lparr>controller := (controller s)\<lparr>frame_allocator := a\<rparr>\<rparr>) m"

definition with_virtual ::
    "(VirtualMemoryAllocator, 'e, 'a) prog \<Rightarrow> ('pte controller_state, 'e, 'a) prog" where
  "with_virtual m = zoom (\<lambda>s. virt_mem_allocator (controller s))
     (\<lambda>a s. s\<lparr>controller := (controller s)\<lparr>virt_mem_allocator := a\<rparr>\<rparr>) m"

definition KernelPagingController_map ::
    "('pte, 'fl, 'z) x86_64_scheme \<Rightarrow> PhysAddr \<Rightarrow> VirtAddr \<Rightarrow> usize \<Rightarrow> 'fl \<Rightarrow>
       ('pte controller_state, MemoryError, unit) prog" where
  "KernelPagingController_map X from to page_count flags =
     try_prog (reads (\<lambda>s. Ok (rec_page_table (controller s)))) (\<lambda>page_table.
     map_err_prog MemoryError_from (with_tables (RecursivePageTable_map_contiguous X
       (BitmapFrameAllocator_alloc X) page_table page_count from to flags)))"

definition KernelPagingController_unmap ::
    "('pte, 'fl, 'z) x86_64_scheme \<Rightarrow> VirtAddr \<Rightarrow> usize \<Rightarrow>
       ('pte controller_state, MemoryError, unit) prog" where
  "KernelPagingController_unmap X addr page_count =
     try_prog (reads (\<lambda>s. Ok (rec_page_table (controller s)))) (\<lambda>page_table.
     map_err_prog MemoryError_from (with_tables (RecursivePageTable_unmap_contiguous X
       page_table page_count addr)))"

definition KernelPagingController_alloc_and_map ::
    "('pte, 'fl, 'z) x86_64_scheme \<Rightarrow> usize \<Rightarrow> 'fl \<Rightarrow>
       ('pte controller_state, MemoryError, VirtAddr) prog" where
  "KernelPagingController_alloc_and_map X pages flags =
     try_prog (with_frames (BitmapFrameAllocator_alloc_contiguous X pages)) (\<lambda>phys.
     try_prog (with_virtual (VirtualMemoryAllocator_alloc_contiguous X pages)) (\<lambda>virt.
     try_prog (KernelPagingController_map X phys virt pages flags) (\<lambda>_.
     ret virt)))"

definition KernelPagingController_free_and_unmap ::
    "('pte, 'fl, 'z) x86_64_scheme \<Rightarrow> VirtAddr \<Rightarrow> usize \<Rightarrow>
       ('pte controller_state, MemoryError, unit) prog" where
  "KernelPagingController_free_and_unmap X addr page_count =
     try_prog (with_virtual (VirtualMemoryAllocator_free addr page_count)) (\<lambda>_.
     try_prog (reads (\<lambda>s. RecursivePageTable_translate X (rec_page_table (controller s)) (page_memory s) addr))
       (\<lambda>found.
     case found of
       None \<Rightarrow> throw PageNotPresent
     | Some phys \<Rightarrow>
         try_prog (with_frames (BitmapFrameAllocator_free_contiguous phys page_count)) (\<lambda>_.
         try_prog (KernelPagingController_unmap X addr page_count) (\<lambda>_.
         ret ()))))"

section \<open>Behaviour\<close>

lemma with_virtual_OkD:
  assumes "with_virtual m s = (Ok a, s')"
  obtains al where "m (virt_mem_allocator (controller s)) = (Ok a, al)"
  using assms by (auto simp: with_virtual_def elim: zoom_OkE)

lemma with_frames_virtual:
  assumes "with_frames m s = (Ok a, s')"
  shows "virt_mem_allocator (controller s') = virt_mem_allocator (controller s)"
  using assms by (auto simp: with_frames_def elim!: zoom_OkE)

lemma virtual_free_not_Ok: "with_virtual (VirtualMemoryAllocator_free addr n) s \<noteq> (Ok (), s')"
proof
  assume "with_virtual (VirtualMemoryAllocator_free addr n) s = (Ok (), s')"
  then show False
    using VirtualMemoryAllocator_free_not_Ok [of addr n] by (elim with_virtual_OkD) (metis fst_conv)
qed

context x86_64_crate
begin

lemma virtual_full_not_Ok:
  assumes "bitmap_full (virt_mem_allocator (controller s))" "0 < n"
  shows "with_virtual (VirtualMemoryAllocator_alloc_contiguous X n) s \<noteq> (Ok v, s')"
proof
  assume "with_virtual (VirtualMemoryAllocator_alloc_contiguous X n) s = (Ok v, s')"
  then obtain al where "VirtualMemoryAllocator_alloc_contiguous X n (virt_mem_allocator (controller s)) = (Ok v, al)"
    by (rule with_virtual_OkD)
  then obtain page where "BitmapAllocator_alloc X n (virt_mem_allocator (controller s)) = (Ok page, al)"
    by (rule VirtualMemoryAllocator_alloc_Ok)
  then show False
    using alloc_full [OF assms] by (metis fst_conv)
qed

lemma alloc_and_map_not_Ok:
  assumes "bitmap_full (virt_mem_allocator (controller s))" "0 < n"
  shows "fst (KernelPagingController_alloc_and_map X n flags s) \<noteq> Ok v"
proof
  assume "fst (KernelPagingController_alloc_and_map X n flags s) = Ok v"
  then obtain s' where "KernelPagingController_alloc_and_map X n flags s = (Ok v, s')"
    by (metis prod.collapse)
  then obtain phys s1 virt s2 where "with_frames (BitmapFrameAllocator_alloc_contiguous X n) s = (Ok phys, s1)"
    and "with_virtual (VirtualMemoryAllocator_alloc_contiguous X n) s1 = (Ok virt, s2)"
    unfolding KernelPagingController_alloc_and_map_def by (elim try_prog_OkE) blast
  then show False
    using virtual_full_not_Ok [of s1 n virt s2] with_frames_virtual assms by metis
qed

end

end
