(* ===== verification/Allocated_Memory.thy ===== *)
theory Allocated_Memory
  imports Paging_Controller
begin

text \<open>
  \<open>memory/allocated_memory.rs\<close>. \<open>AllocatedMemory\<close> owns a range of virtual pages and checks every access
  to it. The kernel state adds to the page tables the static \<open>KERNEL_PAGING_CONTROLLER\<close> (\<open>None\<close> until
  \<open>call_once\<close>) and the bytes of memory by virtual address. How a value of the type \<open>T\<close> of an access is
  laid out is the record \<open>layout\<close>: its size, its alignment and the conversions between values and bytes.
  \<open>ptr::read\<close> and \<open>ptr::write\<close> require a pointer that is not null and aligned for the type, which the debug build
  of the core library checks; other pointers are \<open>Panic BadPointer\<close>.
  \<open>read_volatile\<close>, \<open>write_volatile\<close> and \<open>write_back_volatile\<close> have the bodies of \<open>read\<close>, \<open>write\<close> and
  \<open>write_back\<close> and are the same functions here.

  The controller is reached through \<open>return_if_none!\<close>, which returns \<open>LockedAllocator\<close> when it is not set. The
  source takes the mutex around it in the expression that borrows the controller; the model works on the controller
  itself, as the code goes on to do. The one processor runs these functions to their end, so nobody else holds the
  mutex, whose state is left out.
\<close>

record 'fl AllocatedMemory =
  address :: AddressPair
  mem_size :: usize
  mem_flags :: 'fl
  free_after_use :: bool

record 'pte kernel_state =
  kernel_tables :: "u64 \<rightharpoonup> 'pte table"
  kernel_controller :: "KernelPagingController option"
  bytes :: "u64 \<Rightarrow> u8"

record 't layout =
  size_of :: usize
  align_of :: usize
  to_bytes :: "'t \<Rightarrow> u8 list"
  from_bytes :: "u8 list \<Rightarrow> 't"

definition layout_ok :: "'t layout \<Rightarrow> bool" where
  "layout_ok L \<longleftrightarrow> (\<forall>v. length (to_bytes L v) = size_of L \<and> from_bytes L (to_bytes L v) = v)"

section \<open>Access to the controller\<close>

definition with_controller ::
    "('pte controller_state, MemoryError, 'a) prog \<Rightarrow> ('pte kernel_state, MemoryError, 'a) prog" where
  "with_controller m = (\<lambda>s. case kernel_controller s of
      None \<Rightarrow> (Err LockedAllocator, s)
    | Some c \<Rightarrow> (case m \<lparr>page_memory = kernel_tables s, controller = c\<rparr> of
        (r, t) \<Rightarrow> (r, s\<lparr>kernel_tables := page_memory t, kernel_controller := Some (controller t)\<rparr>)))"

definition AllocatedMemory_new ::
    "('pte, 'fl, 'z) x86_64_scheme \<Rightarrow> usize \<Rightarrow> 'fl \<Rightarrow>
       ('pte kernel_state, MemoryError, 'fl AllocatedMemory) prog" where
  "AllocatedMemory_new X sz flags =
     (if sz = 0 then throw EmptyAllocation else
      let pages = div_ceil sz PAGE_SIZE in
      with_controller (
        try_prog (with_frames (BitmapFrameAllocator_alloc_contiguous X pages)) (\<lambda>phys_addr.
        try_prog (with_virtual (VirtualMemoryAllocator_alloc_contiguous X pages)) (\<lambda>virt_addr.
        try_prog (reads (\<lambda>s. Ok (rec_page_table (controller s)))) (\<lambda>page_table.
        try_prog (map_err_prog MemoryError_from (with_tables (RecursivePageTable_map_contiguous X
          (BitmapFrameAllocator_alloc X) page_table pages phys_addr virt_addr flags))) (\<lambda>_.
        ret \<lparr>address = AddressPair virt_addr phys_addr, mem_size = sz, mem_flags = flags,
             free_after_use = True\<rparr>))))))"

definition AllocatedMemory_reserve_physical ::
    "('pte, 'fl, 'z) x86_64_scheme \<Rightarrow> PhysAddr \<Rightarrow> usize \<Rightarrow> 'fl \<Rightarrow>
       ('pte kernel_state, MemoryError, 'fl AllocatedMemory) prog" where
  "AllocatedMemory_reserve_physical X phys_addr sz flags =
     (if sz = 0 then throw EmptyAllocation else
      let pages = div_ceil sz PAGE_SIZE in
      with_controller (
        try_prog (with_virtual (VirtualMemoryAllocator_alloc_contiguous X pages)) (\<lambda>virt_addr.
        try_prog (reads (\<lambda>s. Ok (rec_page_table (controller s)))) (\<lambda>page_table.
        try_prog (map_err_prog MemoryError_from (with_tables (RecursivePageTable_map_contiguous X
          (BitmapFrameAllocator_alloc X) page_table pages phys_addr virt_addr flags))) (\<lambda>_.
        ret \<lparr>address = AddressPair virt_addr phys_addr, mem_size = sz, mem_flags = flags,
             free_after_use = False\<rparr>)))))"

section \<open>Access to the memory\<close>

definition AllocatedMemory_handle_errors ::
    "('pte, 'fl, 'z) x86_64_scheme \<Rightarrow> 't layout \<Rightarrow> 'fl AllocatedMemory \<Rightarrow> bool \<Rightarrow> usize \<Rightarrow>
       (MemoryError, unit) outcome" where
  "AllocatedMemory_handle_errors X L self is_write offset =
     (if \<not> flags_contains X (mem_flags self) (PRESENT X) then Err PageNotPresent
      else if is_write \<and> \<not> flags_contains X (mem_flags self) (WRITABLE X) then Err WriteToReadOnly
      else try_outcome (add64 offset (size_of L)) (\<lambda>e.
        if e \<ge> mem_size self then Err OutOfBounds else Ok ()))"

definition load_value :: "'t layout \<Rightarrow> u64 \<Rightarrow> (u64 \<Rightarrow> u8) \<Rightarrow> 't" where
  "load_value L a mem = from_bytes L (map mem [a..<a + size_of L])"

definition store_value :: "'t layout \<Rightarrow> u64 \<Rightarrow> 't \<Rightarrow> (u64 \<Rightarrow> u8) \<Rightarrow> u64 \<Rightarrow> u8" where
  "store_value L a v mem = (\<lambda>i. if a \<le> i \<and> i < a + length (to_bytes L v) then to_bytes L v ! (i - a) else mem i)"

definition check_pointer :: "'t layout \<Rightarrow> u64 \<Rightarrow> ('e, unit) outcome" where
  "check_pointer L a = (if a = 0 \<or> a mod align_of L \<noteq> 0 then Panic BadPointer else Ok ())"

definition AllocatedMemory_read ::
    "('pte, 'fl, 'z) x86_64_scheme \<Rightarrow> 't layout \<Rightarrow> 'fl AllocatedMemory \<Rightarrow> usize \<Rightarrow>
       ('pte kernel_state, MemoryError, 't) prog" where
  "AllocatedMemory_read X L self offset =
     try_prog (reads (\<lambda>_. AllocatedMemory_handle_errors X L self False offset)) (\<lambda>_.
     try_prog (reads (\<lambda>_. of_lib (VirtAddr_add X (virt_of (address self)) offset))) (\<lambda>a.
     try_prog (reads (\<lambda>_. check_pointer L a)) (\<lambda>_.
     reads (\<lambda>s. Ok (load_value L a (bytes s))))))"

definition AllocatedMemory_write ::
    "('pte, 'fl, 'z) x86_64_scheme \<Rightarrow> 't layout \<Rightarrow> 'fl AllocatedMemory \<Rightarrow> usize \<Rightarrow> 't \<Rightarrow>
       ('pte kernel_state, MemoryError, unit) prog" where
  "AllocatedMemory_write X L self offset v =
     try_prog (reads (\<lambda>_. AllocatedMemory_handle_errors X L self True offset)) (\<lambda>_.
     try_prog (reads (\<lambda>_. of_lib (VirtAddr_add X (virt_of (address self)) offset))) (\<lambda>a.
     try_prog (reads (\<lambda>_. check_pointer L a)) (\<lambda>_.
     modifies (\<lambda>s. s\<lparr>bytes := store_value L a v (bytes s)\<rparr>))))"

definition AllocatedMemory_write_back ::
    "('pte, 'fl, 'z) x86_64_scheme \<Rightarrow> 't layout \<Rightarrow> 'fl AllocatedMemory \<Rightarrow> usize \<Rightarrow> ('t \<Rightarrow> 't) \<Rightarrow>
       ('pte kernel_state, MemoryError, unit) prog" where
  "AllocatedMemory_write_back X L self offset f =
     try_prog (reads (\<lambda>_. AllocatedMemory_handle_errors X L self True offset)) (\<lambda>_.
     try_prog (reads (\<lambda>_. of_lib (VirtAddr_add X (virt_of (address self)) offset))) (\<lambda>a.
     try_prog (reads (\<lambda>_. check_pointer L a)) (\<lambda>_.
     try_prog (reads (\<lambda>s. Ok (load_value L a (bytes s)))) (\<lambda>original_value.
     modifies (\<lambda>s. s\<lparr>bytes := store_value L a (f original_value) (bytes s)\<rparr>)))))"

definition AllocatedMemory_pages :: "'fl AllocatedMemory \<Rightarrow> usize" where
  "AllocatedMemory_pages self = div_ceil (mem_size self) PAGE_SIZE"

text \<open>\<open>if let Err(e) = ... { panic!(...) }\<close>\<close>

definition panic_on_err :: "('s, 'e, unit) prog \<Rightarrow> ('s, 'f, unit) prog" where
  "panic_on_err m = (\<lambda>s. case m s of
      (Ok _, s') \<Rightarrow> (Ok (), s') | (Err _, s') \<Rightarrow> (Panic ExplicitPanic, s') | (Panic p, s') \<Rightarrow> (Panic p, s'))"

definition AllocatedMemory_drop ::
    "('pte, 'fl, 'z) x86_64_scheme \<Rightarrow> 'fl AllocatedMemory \<Rightarrow> ('pte kernel_state, 'e, unit) prog" where
  "AllocatedMemory_drop X self =
     try_prog (reads (\<lambda>s. unwrap_option (kernel_controller s))) (\<lambda>ctrl.
     try_prog (panic_on_err (with_controller (map_err_prog MemoryError_from (with_tables
       (RecursivePageTable_unmap_contiguous X (rec_page_table ctrl) (AllocatedMemory_pages self)
         (virt_of (address self))))))) (\<lambda>_.
     try_prog (panic_on_err (with_controller (with_virtual
       (VirtualMemoryAllocator_free (virt_of (address self)) (AllocatedMemory_pages self))))) (\<lambda>_.
     if \<not> free_after_use self then ret () else
     panic_on_err (with_controller (with_frames
       (BitmapFrameAllocator_free_contiguous (phys_of (address self)) (AllocatedMemory_pages self)))))))"

section \<open>Properties of the checked accesses\<close>

lemma load_store_same: "layout_ok L \<Longrightarrow> load_value L a (store_value L a v mem) = v"
proof -
  assume L: "layout_ok L"
  then have "map (store_value L a v mem) [a..<a + size_of L] = to_bytes L v"
    by (intro nth_equalityI) (auto simp: store_value_def layout_ok_def)
  then show ?thesis
    using L by (simp add: load_value_def layout_ok_def)
qed

lemma load_store_disjoint:
  assumes "layout_ok L" "b + size_of M \<le> a \<or> a + size_of L \<le> b"
  shows "load_value M b (store_value L a v mem) = load_value M b mem"
proof -
  have "map (store_value L a v mem) [b..<b + size_of M] = map mem [b..<b + size_of M]"
    using assms by (intro map_cong) (auto simp: store_value_def layout_ok_def)
  then show ?thesis
    by (simp only: load_value_def)
qed

text \<open>When an access is allowed: the guards of \<open>handle_errors\<close>, and an aligned pointer.\<close>

definition access_ok :: "('pte, 'fl, 'z) x86_64_scheme \<Rightarrow> 't layout \<Rightarrow> 'fl AllocatedMemory \<Rightarrow> bool \<Rightarrow> usize \<Rightarrow> bool" where
  "access_ok X L self is_write offset \<longleftrightarrow> flags_contains X (mem_flags self) (PRESENT X) \<and>
     (is_write \<longrightarrow> flags_contains X (mem_flags self) (WRITABLE X)) \<and>
     offset + size_of L < mem_size self \<and> mem_size self < 2 ^ 64"

definition aligned_at :: "'t layout \<Rightarrow> 'fl AllocatedMemory \<Rightarrow> usize \<Rightarrow> bool" where
  "aligned_at L self offset \<longleftrightarrow> 0 < virt_of (address self) + offset \<and> (virt_of (address self) + offset) mod align_of L = 0"

lemma check_pointer_aligned:
  "aligned_at L self offset \<Longrightarrow> check_pointer L (virt_of (address self) + offset) = Ok ()"
  by (simp add: aligned_at_def check_pointer_def)

lemma handle_errors_Ok:
  "access_ok X L self is_write offset \<Longrightarrow> AllocatedMemory_handle_errors X L self is_write offset = Ok ()"
  by (auto simp: access_ok_def AllocatedMemory_handle_errors_def add64_def)

lemma handle_errors_OkD:
  "AllocatedMemory_handle_errors X L self is_write offset = Ok () \<Longrightarrow>
     flags_contains X (mem_flags self) (PRESENT X) \<and> (is_write \<longrightarrow> flags_contains X (mem_flags self) (WRITABLE X)) \<and>
     offset + size_of L < mem_size self"
  by (auto simp: AllocatedMemory_handle_errors_def add64_def split: if_splits)

lemma with_controller_not_Ok:
  assumes "\<And>c t. m c \<noteq> (Ok a, t)"
  shows "with_controller m s \<noteq> (Ok a, s')"
  using assms by (auto simp: with_controller_def split: option.splits prod.splits)

lemma panic_on_err_cases:
  assumes "\<And>t. m s \<noteq> (Ok (), t)"
  shows "\<exists>p t. panic_on_err m s = (Panic p, t)"
  using assms by (cases "m s") (auto simp: panic_on_err_def split: outcome.splits)

lemma panic_on_err_not_Err: "panic_on_err m s \<noteq> (Err e, t)"
  by (auto simp: panic_on_err_def split: prod.splits outcome.splits)

lemma virtual_free_panics:
  "panic_on_err (with_controller (with_virtual (VirtualMemoryAllocator_free a n))) t \<noteq> (Ok u, t')"
proof -
  have "with_controller (with_virtual (VirtualMemoryAllocator_free a n)) t \<noteq> (Ok (), t')" for t'
    by (rule with_controller_not_Ok) (rule virtual_free_not_Ok)
  then show ?thesis
    using panic_on_err_cases by (metis Pair_inject outcome.distinct(3))
qed

text \<open>C29. Take an allocation that is present and writable, and accesses that end before its last byte, at canonical
  addresses. A value written through \<open>AllocatedMemory\<close> at an offset that is aligned for its type is read back there, and a
  value of any type at an aligned offset that does not overlap it is unchanged. A write at an offset that is not aligned
  for the type panics and changes nothing.\<close>

theorem write_then_read:
  assumes "x86_64_crate X" "layout_ok L" "access_ok X L self True offset" "access_ok X M self False offset'"
    and can: "canonical (virt_of (address self) + offset)" "canonical (virt_of (address self) + offset')"
  shows "(aligned_at L self offset \<longrightarrow> (\<exists>s'. AllocatedMemory_write X L self offset v s = (Ok (), s') \<and>
      AllocatedMemory_read X L self offset s' = (Ok v, s') \<and>
      (aligned_at M self offset' \<and> (offset' + size_of M \<le> offset \<or> offset + size_of L \<le> offset') \<longrightarrow>
         (\<exists>x. AllocatedMemory_read X M self offset' s = (Ok x, s) \<and>
            AllocatedMemory_read X M self offset' s' = (Ok x, s'))))) \<and>
    (\<not> aligned_at L self offset \<longrightarrow> AllocatedMemory_write X L self offset v s = (Panic BadPointer, s))"
proof -
  have rd: "access_ok X L self False offset"
    using assms(3) by (simp add: access_ok_def)
  note runs = AllocatedMemory_write_def AllocatedMemory_read_def handle_errors_Ok x86_64_crate.VirtAddr_add [OF assms(1)]
  have "\<exists>s'. AllocatedMemory_write X L self offset v s = (Ok (), s') \<and> AllocatedMemory_read X L self offset s' = (Ok v, s') \<and>
      (aligned_at M self offset' \<and> (offset' + size_of M \<le> offset \<or> offset + size_of L \<le> offset') \<longrightarrow>
         (\<exists>x. AllocatedMemory_read X M self offset' s = (Ok x, s) \<and> AllocatedMemory_read X M self offset' s' = (Ok x, s')))"
    if "aligned_at L self offset"
    using assms rd check_pointer_aligned [OF that, where 'c = MemoryError] check_pointer_aligned [of M self offset', where 'c = MemoryError]
    by (auto simp: runs load_store_same load_store_disjoint)
  moreover have "AllocatedMemory_write X L self offset v s = (Panic BadPointer, s)" if "\<not> aligned_at L self offset"
    using that assms by (auto simp: runs aligned_at_def check_pointer_def)
  ultimately show ?thesis
    by blast
qed

text \<open>Sixteen-bit values, low byte first, at even addresses.\<close>

definition u16_layout :: "16 word layout" where
  "u16_layout = \<lparr>size_of = 2, align_of = 2, to_bytes = (\<lambda>v. [ucast v, ucast (drop_bit 8 v)]),
     from_bytes = (\<lambda>bs. ucast (bs ! 0) OR push_bit 8 (ucast (bs ! 1)))\<rparr>"

lemma u16_layout_ok: "layout_ok u16_layout"
proof -
  have "ucast (ucast v :: 8 word) OR push_bit 8 (ucast (ucast (drop_bit 8 v) :: 8 word)) = v" for v :: "16 word"
    by (rule bit_word_eqI) (auto simp: bit_simps)
  then show ?thesis
    by (simp add: layout_ok_def u16_layout_def)
qed

definition sample_memory :: "pt_flags AllocatedMemory" where
  "sample_memory = \<lparr>address = AddressPair 0xFFFFE00000000000 0x1000, mem_size = 4096,
     mem_flags = flags_rw x86_64_entries, free_after_use = True\<rparr>"

definition blank_kernel :: "64 word kernel_state" where
  "blank_kernel = \<lparr>kernel_tables = Map.empty, kernel_controller = None, bytes = (\<lambda>_. 0)\<rparr>"

theorem write_then_read_witness:
  "(\<exists>s'. AllocatedMemory_write x86_64_entries u16_layout sample_memory 8 700 blank_kernel = (Ok (), s') \<and>
      AllocatedMemory_read x86_64_entries u16_layout sample_memory 8 s' = (Ok 700, s')) \<and>
   AllocatedMemory_write x86_64_entries u16_layout sample_memory 9 700 blank_kernel = (Panic BadPointer, blank_kernel)"
proof -
  have pre: "access_ok x86_64_entries u16_layout sample_memory True 8" "access_ok x86_64_entries u16_layout sample_memory True 9"
    "access_ok x86_64_entries u16_layout sample_memory False 10"
    "canonical (virt_of (address sample_memory) + 8)" "canonical (virt_of (address sample_memory) + 9)"
    "canonical (virt_of (address sample_memory) + 10)"
    "aligned_at u16_layout sample_memory 8" "\<not> aligned_at u16_layout sample_memory 9"
    by (simp_all add: u16_layout_def access_ok_def sample_memory_def canonical_def flags_rw_def entries.flag_simps
        aligned_at_def)
  note w = write_then_read [OF entries.x86_64_crate_axioms u16_layout_ok, where s = blank_kernel and v = 700]
  show ?thesis
    using w [OF pre(1,3,4,6)] w [OF pre(2,3,5,6)] pre(7,8) by blast
qed

text \<open>C30. Accesses are checked: a read that is answered is of memory flagged present, a write or \<open>write_back\<close> that is
  answered of memory flagged present and writable, and all three stay strictly inside the allocation, at a pointer
  that is aligned for the type; a write changes no byte outside the bytes of the value, a failed write changes
  nothing, and a read never changes anything. The check is strict, so the last byte of the allocation can never
  be accessed, not even by a value that ends exactly at its end.\<close>

theorem access_is_checked:
  assumes "x86_64_crate X" "layout_ok L"
  shows "(fst (AllocatedMemory_read X L self offset s) = Ok v \<longrightarrow>
       flags_contains X (mem_flags self) (PRESENT X) \<and> offset + size_of L < mem_size self \<and> aligned_at L self offset) \<and>
    (fst (AllocatedMemory_write X L self offset v s) = Ok () \<or> fst (AllocatedMemory_write_back X L self offset f s) = Ok () \<longrightarrow>
       flags_contains X (mem_flags self) (PRESENT X) \<and> flags_contains X (mem_flags self) (WRITABLE X) \<and>
       offset + size_of L < mem_size self \<and> aligned_at L self offset) \<and>
    snd (AllocatedMemory_read X L self offset s) = s \<and>
    (fst (AllocatedMemory_write X L self offset v s) \<noteq> Ok () \<longrightarrow> snd (AllocatedMemory_write X L self offset v s) = s) \<and>
    (\<forall>i. bytes (snd (AllocatedMemory_write X L self offset v s)) i \<noteq> bytes s i \<longrightarrow>
       virt_of (address self) + offset \<le> i \<and> i < virt_of (address self) + offset + size_of L)"
proof -
  have len: "length (to_bytes L v) = size_of L"
    using assms(2) by (simp add: layout_ok_def)
  note runs = AllocatedMemory_write_def AllocatedMemory_read_def AllocatedMemory_write_back_def
    x86_64_crate.VirtAddr_add [OF assms(1)] check_pointer_def aligned_at_def
  note inside = handle_errors_OkD [of X L self True offset] handle_errors_OkD [of X L self False offset]
  show ?thesis
    by (intro conjI; use len inside in \<open>auto simp: runs store_value_def split: outcome.splits if_splits\<close>)
qed

theorem access_is_checked_witness:
  "fst (AllocatedMemory_write x86_64_entries u16_layout sample_memory 4094 7 blank_kernel) \<noteq> Ok () \<and>
   fst (AllocatedMemory_read x86_64_entries u16_layout sample_memory 4094 blank_kernel) \<noteq> Ok 7"
proof -
  have "\<not> 4094 + size_of u16_layout < mem_size sample_memory"
    by (simp add: u16_layout_def sample_memory_def)
  then show ?thesis
    using access_is_checked [OF entries.x86_64_crate_axioms u16_layout_ok, where self = sample_memory
        and offset = 4094 and v = 7 and s = blank_kernel] by blast
qed

text \<open>C31. Dropping an \<open>AllocatedMemory\<close> always panics, because releasing the virtual pages never
  succeeds.\<close>

theorem drop_always_panics: "\<exists>p. fst (AllocatedMemory_drop X self s) = Panic p"
proof (cases "kernel_controller s")
  case None
  then show ?thesis
    by (simp add: AllocatedMemory_drop_def)
next
  case (Some ctrl)
  then show ?thesis
    by (auto simp: AllocatedMemory_drop_def try_prog_def panic_on_err_not_Err virtual_free_panics
        split: prod.splits outcome.splits)
qed

end
