(* ===== verification/Boot_Properties.thy ===== *)
theory Boot_Properties
  imports Allocator_Properties Page_Table_Properties Memory_Init Allocated_Memory
begin

text \<open>
  The properties of the boot sequence of \<open>memory/paging/mod.rs\<close> and of the paging controller, over the
  definitions of \<open>Paging_Init\<close> and \<open>Paging_Controller\<close>.
\<close>

text \<open>The kernel image is mapped with the permissions of its sections, and no page of it is both
  writable and executable: after \<open>map_kernel\<close>, text pages are executable and read only, read-only data
  is neither writable nor executable, data is writable and not executable, each page is mapped to its
  place relative to the physical base, and mappings made before are kept.\<close>

theorem kernel_image_permissions:
  assumes "x86_64_crate X" "paging_inv X linear_good linear_taken self s"
    and "kernel_address info = Some (vb, pb)"
    and "map_kernel X info self region s = (Ok (), s')"
  shows "paging_inv X linear_good linear_taken self s' \<and>
    (\<forall>page \<in> set (page_range (text_start info) (rodata_start info)).
       \<exists>fl. mapped X self (tables s') page = Some (page - vb + pb, fl) \<and> flags_contains X fl (PRESENT X) \<and>
         \<not> flags_contains X fl (WRITABLE X) \<and> \<not> flags_contains X fl (NO_EXECUTE X)) \<and>
    (\<forall>page \<in> set (page_range (rodata_start info) (data_start info)).
       \<exists>fl. mapped X self (tables s') page = Some (page - vb + pb, fl) \<and> flags_contains X fl (PRESENT X) \<and>
         \<not> flags_contains X fl (WRITABLE X) \<and> flags_contains X fl (NO_EXECUTE X)) \<and>
    (\<forall>page \<in> set (page_range (data_start info) (elf_end info)).
       \<exists>fl. mapped X self (tables s') page = Some (page - vb + pb, fl) \<and> flags_contains X fl (PRESENT X) \<and>
         flags_contains X fl (WRITABLE X) \<and> flags_contains X fl (NO_EXECUTE X)) \<and>
    (\<forall>a m. mapped X self (tables s) a = Some m \<longrightarrow> mapped X self (tables s') a = Some m)"
proof -
  note eff = x86_64_crate.map_kernel_effect [OF assms]
  note bits = x86_64_crate.flag_simps [OF assms(1)] x86_64_crate.named_flags_members [OF assms(1)]
    x86_64_crate.named_flags_neq [OF assms(1)]
  have rx: "flags_contains X (flags_or X (flags_rx X) (GLOBAL X)) (PRESENT X)"
    "\<not> flags_contains X (flags_or X (flags_rx X) (GLOBAL X)) (WRITABLE X)"
    "\<not> flags_contains X (flags_or X (flags_rx X) (GLOBAL X)) (NO_EXECUTE X)"
    by (simp_all add: flags_rx_def bits)
  have r: "flags_contains X (flags_or X (flags_r X) (GLOBAL X)) (PRESENT X)"
    "\<not> flags_contains X (flags_or X (flags_r X) (GLOBAL X)) (WRITABLE X)"
    "flags_contains X (flags_or X (flags_r X) (GLOBAL X)) (NO_EXECUTE X)"
    by (simp_all add: flags_r_def bits)
  have rw: "flags_contains X (flags_or X (flags_rw X) (GLOBAL X)) (PRESENT X)"
    "flags_contains X (flags_or X (flags_rw X) (GLOBAL X)) (WRITABLE X)"
    "flags_contains X (flags_or X (flags_rw X) (GLOBAL X)) (NO_EXECUTE X)"
    by (simp_all add: flags_rw_def bits)
  show ?thesis
    using eff(1,3,4,5) rx r rw by (simp add: x86_64_crate.keeps_mappings_def [OF assms(1)])
qed

definition tiny_image :: boot_info where
  "tiny_image = \<lparr>limine_reqs_start = 0xFFFFFFFF80000000, text_start = 0xFFFFFFFF80000000,
     rodata_start = 0xFFFFFFFF80001000, data_start = 0xFFFFFFFF80001000, elf_end = 0xFFFFFFFF80001000,
     kernel_address = Some (0xFFFFFFFF80000000, 0x200000), hhdm_offset = Some hhdm\<rparr>"

lemma tiny_kernel_runs:
  "\<exists>s'. map_kernel x86_64_entries tiny_image first_table
     \<lparr>base = 0x200000, length_of = 0x1000, region_type = ExecutableAndModules\<rparr> first_state = (Ok (), s')"
proof -
  have ka: "kernel_address tiny_image = Some (0xFFFFFFFF80000000, 0x200000)"
    by (simp add: tiny_image_def)
  have n: "div_ceil (0xFFFFFFFF80001000 - 0xFFFFFFFF80000000) 4096 = 1"
    by (simp add: div_ceil_def)
  obtain s' where "map_kernel_section x86_64_entries tiny_image 0xFFFFFFFF80000000 0xFFFFFFFF80001000
      (flags_rx x86_64_entries) first_table first_state = (Ok (), s')"
    using entries.map_kernel_section_total [OF first_state_inv entries.section_flags_present(2) ka,
        where a = "0xFFFFFFFF80000000" and b = "0xFFFFFFFF80001000" and m = 0, unfolded n] first_room [of 3]
    by (auto simp: frame_address_def canonical_def page_index_eq first_state_empty)
  then show ?thesis
    by (simp add: map_kernel_def tiny_image_def map_kernel_section_def try_prog_Ok sub64_def add64_def
        size_in_pages_def entries.PhysAddr_new entries.VirtAddr_new canonical_def page_offsets_def mul64_def
        RecursivePageTable_map_contiguous_def div_ceil_def map_err_prog_def)
qed

theorem kernel_image_permissions_witness:
  "\<exists>s' fl. map_kernel x86_64_entries tiny_image first_table
     \<lparr>base = 0x200000, length_of = 0x1000, region_type = ExecutableAndModules\<rparr> first_state = (Ok (), s') \<and>
   mapped x86_64_entries first_table (tables s') 0xFFFFFFFF80000000 = Some (0x200000, fl) \<and>
   \<not> flags_contains x86_64_entries fl (WRITABLE x86_64_entries)"
proof -
  obtain s' where run: "map_kernel x86_64_entries tiny_image first_table
     \<lparr>base = 0x200000, length_of = 0x1000, region_type = ExecutableAndModules\<rparr> first_state = (Ok (), s')"
    using tiny_kernel_runs by blast
  have ka: "kernel_address tiny_image = Some (0xFFFFFFFF80000000, 0x200000)"
    and page: "0xFFFFFFFF80000000 \<in> set (page_range (text_start tiny_image) (rodata_start tiny_image))"
    by (simp_all add: tiny_image_def page_range_def div_ceil_def)
  show ?thesis
    using run kernel_image_permissions [OF entries.x86_64_crate_axioms first_state_inv ka run] page by fastforce
qed

text \<open>C14. With the kernel's own frame allocator \<open>map\<close> cannot build a page table, unless the number of the frame happens to
  be a multiple of 4096, because the allocator answers with the number of a frame and not its address. For a page outside the
  recursive range with a table missing on the way to it,
  without a free frame \<open>map\<close> fails with \<open>TableAllocationFailed\<close>; a frame whose number is not a multiple of 4096 makes it
  panic in \<open>set_addr\<close>; and a panic of the allocator goes through. The page tables are in each case as they were before
  the call.\<close>

theorem map_with_frame_allocator:
  assumes "x86_64_crate X" "paging_inv X (\<lambda>_. True) (\<lambda>_. T) self s" "page_index 4 to \<noteq> 510"
    and "get_page_table X self (tables s) 1 to = (Ok None :: (PagingError, u64 option) outcome)"
    and "BitmapAllocator_alloc X 1 (frames s) = (r, al)"
  shows "case r of
      Ok n \<Rightarrow> n mod 4096 \<noteq> 0 \<longrightarrow>
        RecursivePageTable_map X (BitmapFrameAllocator_alloc X) self from to flags s = (Panic LibraryPanic, s\<lparr>frames := al\<rparr>)
    | Err e \<Rightarrow>
        RecursivePageTable_map X (BitmapFrameAllocator_alloc X) self from to flags s = (Err TableAllocationFailed, s\<lparr>frames := al\<rparr>)
    | Panic p \<Rightarrow>
        RecursivePageTable_map X (BitmapFrameAllocator_alloc X) self from to flags s = (Panic p, s\<lparr>frames := al\<rparr>)"
proof -
  have "frame_source (throw NoFreeFrame) (\<lambda>_. True) (\<lambda>_. T)"
    by unfold_locales auto
  with assms(1) have pg: "paging X (throw NoFreeFrame) (\<lambda>_ :: BitmapFrameAllocator. True) (\<lambda>_. T)"
    by (rule paging.intro)
  have "tree_ok X (internal_offset self) (lvl4 self) T (tables s)"
    using assms(2) by (simp add: paging_inv_def)
  then have "get_page_table X self (tables s) 1 to =
      (Ok (table_at X (internal_offset self) (tables s) (lvl4 self) (table_path to)) :: (PagingError, u64 option) outcome)"
    using assms(3) by (rule x86_64_crate.get_level_1(1) [OF assms(1)])
  then have none: "table_at X (internal_offset self) (tables s) (lvl4 self) (table_path to) = None"
    using assms(4) by simp
  note missing = paging.map_missing_table [OF pg assms(2,3) none, where alc = "BitmapFrameAllocator_alloc X"]
  show ?thesis
  proof (cases r)
    case (Ok n)
    then have "BitmapFrameAllocator_alloc X (frames s) =
        (if n < 2 ^ 52 then Ok n else Panic LibraryPanic, al)"
      using assms(5) by (simp add: BitmapFrameAllocator_alloc_def try_prog_Ok x86_64_crate.PhysAddr_new [OF assms(1)])
    then show ?thesis
      using missing(2,3) Ok by (simp split: if_splits)
  next
    case (Err e)
    then have "BitmapFrameAllocator_alloc X (frames s) = (Err e, al)"
      using assms(5) by (simp add: BitmapFrameAllocator_alloc_def try_prog_Err)
    then show ?thesis
      using missing(1) Err by simp
  next
    case (Panic p)
    then have "BitmapFrameAllocator_alloc X (frames s) = (Panic p, al)"
      using assms(5) by (simp add: BitmapFrameAllocator_alloc_def try_prog_Panic)
    then show ?thesis
      using missing(2) Panic by simp
  qed
qed

text \<open>A new page table with a frame allocator in which frames 8 to 15 are free.\<close>

definition bitmap_paging :: "(64 word, BitmapFrameAllocator) paging_state" where
  "bitmap_paging = \<lparr>tables = tables first_state, frames = sample_bitmap\<rparr>"

theorem map_with_frame_allocator_witness:
  "\<exists>s'. RecursivePageTable_map x86_64_entries (BitmapFrameAllocator_alloc x86_64_entries) first_table 0x5000 0x400000
     (flags_rw x86_64_entries) bitmap_paging = (Panic LibraryPanic, s') \<and> tables s' = tables first_state"
proof -
  have inv: "paging_inv x86_64_entries (\<lambda>_. True) (\<lambda>_. linear_taken (frames first_state)) first_table bitmap_paging"
    using first_state_inv by (simp add: paging_inv_def bitmap_paging_def)
  have to: "page_index 4 0x400000 \<noteq> 510"
    by (simp add: page_index_eq)
  have tree: "tree_ok x86_64_entries (internal_offset first_table) (lvl4 first_table) (linear_taken (frames first_state)) (tables bitmap_paging)"
    using inv by (simp add: paging_inv_def)
  have "table_at x86_64_entries (internal_offset first_table) (tables bitmap_paging) (lvl4 first_table)
      (table_path 0x400000) = None"
    by (simp add: table_path_def page_index_eq child_def bitmap_paging_def first_table_sel first_state_eq)
  then have none: "get_page_table x86_64_entries first_table (tables bitmap_paging) 1 0x400000 =
      (Ok None :: (PagingError, u64 option) outcome)"
    by (simp add: entries.get_level_1(2) [OF tree to])
  obtain n al where run: "BitmapAllocator_alloc x86_64_entries 1 (frames bitmap_paging) = (Ok n, al)" and n: "n \<le> 8"
    using entries.alloc_small_complete [OF sample_ok, of 1 8] sample_hole
    by (auto simp: sample_fields round_up_8_def bitmap_paging_def)
  have "n \<noteq> 0"
    using entries.alloc_small_sound [OF sample_ok _ _ run [unfolded bitmap_paging_def, simplified]]
    by (auto simp: sample_allocated)
  then have "n mod 4096 \<noteq> 0"
    using n by simp
  then show ?thesis
    using map_with_frame_allocator [OF entries.x86_64_crate_axioms inv to none run, of "0x5000" "flags_rw x86_64_entries"]
    by (simp add: bitmap_paging_def)
qed

text \<open>A bitmap of one byte for every eight whole frames has no bit for the frames after the last multiple of eight.\<close>

lemma frame_bitmap_not_built:
  assumes "x86_64_crate X" "(highest_valid_region mmap :: (MemoryError, _) outcome) = Ok h" "region_type h = Usable"
    and "base h + length_of h < 2 ^ 52" "(base h + length_of h) div 4096 mod 8 \<noteq> 0"
    and "base h div 4096 < (base h + length_of h) div 4096"
    and run: "BitmapFrameAllocator_new X off ((base h + length_of h) div 4096 div 8) mmap p = (Ok al, p')"
  shows False
proof -
  define n where "n = (base h + length_of h) div 4096 div 8"
  obtain al0 where new: "BitmapAllocator_new X off n True p = (Ok al0, p')"
    and loop: "for_each (filter (\<lambda>r. region_type r = Usable) mmap) clear_region al0 = (Ok (), al)"
    using run by (auto simp: BitmapFrameAllocator_new_def try_prog_Ok_iff n_def)
  have "n < 2 ^ 50"
    using assms(4) by (auto simp: n_def div_mult2_eq [symmetric] div_less_iff_less_mult)
  then have al0: "bitmap_ok al0" "bits_size al0 = 8 * n"
    using new by (auto simp: BitmapAllocator_new_def Let_def bitmap_ok_def try_prog_Ok_iff mul64_def
        add64_def of_lib_def split: if_splits option.splits)
  have "h \<in> set (filter (\<lambda>r. region_type r = Usable) mmap)"
    using highest_valid_region_member [OF assms(2)] assms(3) by simp
  from clear_regions_OkD [OF al0(1) loop this] have "(base h + length_of h) div 4096 \<le> 8 * n"
    using assms(6) al0(2) by (simp add: region_frames_def)
  moreover have "(base h + length_of h) div 4096 = 8 * n + (base h + length_of h) div 4096 mod 8"
    by (simp add: n_def)
  ultimately show False
    using assms(5) by linarith
qed

text \<open>C32. The kernel cannot set up its memory when the memory does not end on a multiple of eight frames: \<open>init_paging\<close>
  gives the bitmap of the frame allocator (end of the highest region) / 4096 / 8 bytes, rounded down, so that the last
  frames have no bit. If the highest region that is neither reserved nor a framebuffer is usable, holds at least one
  frame and ends below the end of the physical addresses at a frame whose number is not a multiple of eight, neither
  \<open>init_paging\<close> nor \<open>init_memory\<close> succeeds, whatever the direct-map offset, the rest of the memory map, the stack pointer and the state are.\<close>

theorem frame_bitmap_too_small:
  assumes "x86_64_crate X" "(highest_valid_region mmap :: (MemoryError, _) outcome) = Ok h" "region_type h = Usable"
    and "base h + length_of h < 2 ^ 52" "(base h + length_of h) div 4096 mod 8 \<noteq> 0"
    and "base h div 4096 < (base h + length_of h) div 4096"
  shows "(\<nexists>ctrl s'. init_paging X info sp mmap s = (Ok ctrl, s')) \<and>
    (\<nexists>res s'. init_memory X info (Some mmap) sp s = (Ok res, s'))"
proof -
  have offset: "\<exists>off. hhdm_offset info = Some off" if "init_paging X info sp mmap t = (Ok ctrl, s')" for t ctrl s'
    using that by (cases "hhdm_offset info") (auto simp: init_paging_def RecursivePageTable_new_def try_prog_Ok_iff)
  have offset_memory: "\<exists>off. hhdm_offset info = Some off" if "init_memory X info (Some mmap) sp s = (Ok res, s')" for res s'
    using that by (cases "hhdm_offset info") (auto simp: init_memory_def try_prog_Ok_iff)
  have paging: False if run: "init_paging X info sp mmap t = (Ok ctrl, s')" for t ctrl s'
  proof (rule exE [OF offset [OF run]], rule x86_64_crate.init_paging_steps [OF assms(1) _ run])
    fix off pt s4 h' p5
    show "hhdm_offset info = Some off" if "hhdm_offset info = Some off"
      by (rule that)
    assume "(highest_valid_region mmap :: (MemoryError, _) outcome) = Ok h'"
      and "BitmapFrameAllocator_new X (internal_offset pt) ((base h' + length_of h') div 4096 div 8) mmap (frames s4) =
        (Ok (frame_allocator ctrl), p5)"
    then show False
      using frame_bitmap_not_built [OF assms(1-6)] assms(2) by simp
  qed
  moreover have False if "init_memory X info (Some mmap) sp s = (Ok res, s')" for res s'
    using offset_memory [OF that] by (elim exE x86_64_crate.init_memory_steps [OF assms(1) _ that]) (erule paging)
  ultimately show ?thesis
    by blast
qed

text \<open>A machine whose usable memory ends one frame after a multiple of eight.\<close>

definition odd_mmap :: "MemoryRegionInfo list" where
  "odd_mmap = [\<lparr>base = 0x200000, length_of = 0x1000, region_type = ExecutableAndModules\<rparr>,
     \<lparr>base = 0x400000, length_of = 0x4001000, region_type = Usable\<rparr>]"

theorem frame_bitmap_too_small_witness:
  "(\<nexists>ctrl s'. init_paging x86_64_entries tiny_image 0xFFFF900000100000 odd_mmap first_state = (Ok ctrl, s')) \<and>
   (\<nexists>res s'. init_memory x86_64_entries tiny_image (Some odd_mmap) 0xFFFF900000100000 first_state = (Ok res, s'))"
  using frame_bitmap_too_small [OF entries.x86_64_crate_axioms, of odd_mmap
      "\<lparr>base = 0x400000, length_of = 0x4001000, region_type = Usable\<rparr>"]
  by (simp add: highest_valid_region_def odd_mmap_def tiny_image_def add64_def)

text \<open>C33. The paging controller built at boot can neither hand out nor take back memory: while its
  allocator of virtual pages is full, as \<open>VirtualMemoryAllocator::new\<close> leaves it, \<open>alloc_and_map\<close> and
  \<open>AllocatedMemory::new\<close> never succeed for a request of at least one page or byte, and \<open>free_and_unmap\<close> never does
  for one.\<close>

theorem controller_never_allocates:
  assumes "x86_64_crate X" "bitmap_full (virt_mem_allocator c)" "0 < n"
  shows "(\<nexists>v. fst (KernelPagingController_alloc_and_map X n flags \<lparr>page_memory = mem, controller = c\<rparr>) = Ok v) \<and>
    (\<nexists>m. fst (AllocatedMemory_new X n flags
       \<lparr>kernel_tables = mem, kernel_controller = Some c, bytes = bs\<rparr>) = Ok m) \<and>
    fst (KernelPagingController_free_and_unmap X a n \<lparr>page_memory = mem, controller = c\<rparr>) \<noteq> Ok ()"
proof (intro conjI notI; (elim exE)?)
  fix v assume "fst (KernelPagingController_alloc_and_map X n flags \<lparr>page_memory = mem, controller = c\<rparr>) = Ok v"
  then show False
    using x86_64_crate.alloc_and_map_not_Ok [OF assms(1) _ assms(3),
        of "\<lparr>page_memory = mem, controller = c\<rparr>" flags v] assms(2) by simp
next
  fix m assume m: "fst (AllocatedMemory_new X n flags
      \<lparr>kernel_tables = mem, kernel_controller = Some c, bytes = bs\<rparr>) = Ok m"
  define s where "s = \<lparr>page_memory = mem, controller = c\<rparr>"
  define k where "k = div_ceil n PAGE_SIZE"
  have k: "0 < k"
    using assms(3) div_ceil_bounds(1) [of PAGE_SIZE n] by (cases k) (auto simp: k_def)
  obtain phys s1 v s2 where "with_frames (BitmapFrameAllocator_alloc_contiguous X k) s = (Ok phys, s1)"
    and "with_virtual (VirtualMemoryAllocator_alloc_contiguous X k) s1 = (Ok v, s2)"
    using m assms(3) unfolding AllocatedMemory_new_def with_controller_def Let_def k_def [symmetric] s_def
    by (auto simp: try_prog_def split: prod.splits outcome.splits)
  then show False
    using x86_64_crate.virtual_full_not_Ok [OF assms(1) _ k, of s1 v s2] with_frames_virtual assms(2)
    by (metis s_def controller_state.select_convs(2))
next
  assume "fst (KernelPagingController_free_and_unmap X a n \<lparr>page_memory = mem, controller = c\<rparr>) = Ok ()"
  then show False
    using virtual_free_not_Ok
    by (auto simp: KernelPagingController_free_and_unmap_def try_prog_def split: prod.splits outcome.splits)
qed

definition full_controller :: KernelPagingController where
  "full_controller = \<lparr>rec_page_table = first_table, frame_allocator = sample_bitmap,
     virt_mem_allocator = \<lparr>bitmap = [0xFF], bits_size = 8, last_allocated = 0\<rparr>\<rparr>"

theorem controller_never_allocates_witness:
  "\<nexists>v. fst (KernelPagingController_alloc_and_map x86_64_entries 2 (flags_rw x86_64_entries)
     \<lparr>page_memory = Map.empty, controller = full_controller\<rparr>) = Ok v"
proof -
  have "bitmap_full (virt_mem_allocator full_controller)" "(0::nat) < 2"
    by (auto simp: bitmap_full_def bitmap_ok_def full_controller_def allocated_def)
  from controller_never_allocates [OF entries.x86_64_crate_axioms this] show ?thesis
    by blast
qed

end
