(* ===== verification/After_Boot.thy ===== *)
theory After_Boot
  imports Boot_Complete Processor_View Boot_Properties
begin

text \<open>
  The machine after \<open>init_memory\<close>: what the processor finds mapped once the kernel runs on its own tables, and what
  it no longer finds.
\<close>

section \<open>What the boot maps\<close>

lemma stack_top_covered:
  assumes "boot_layout info mmap sp off k region highest"
  shows "(sp + 16) div 4096 \<in> covered (boot_ranges off info k mmap)"
proof -
  obtain r where r: "r \<in> set mmap" "stack_within off sp r"
    using boot_layoutD(5) [OF assms] by blast
  then have "misc_ok off r" "misc_region r" "base r + off \<le> sp + 16"
    using boot_layoutD(4) [OF assms] by (auto simp: stack_within_def)
  then show ?thesis
    using r(1) stack_address(3) [OF r(2), of "sp + 16"] by (auto simp: covered_def boot_ranges_def misc_ranges_def)
qed

lemma boot_stack_ok:
  assumes "boot_layout info mmap sp off k region highest"
  shows "stack_ok sp"
proof -
  obtain r where r: "r \<in> set mmap" "stack_within off sp r"
    using boot_layoutD(5) [OF assms] by blast
  then have ok: "misc_ok off r"
    using boot_layoutD(4) [OF assms] by (auto simp: stack_within_def)
  show ?thesis
    unfolding stack_ok_def
  proof (intro conjI allI impI)
    show "2 ^ 47 + STACK_SIZE \<le> sp + 16"
      using r(2) boot_layoutD(2) [OF assms] by (auto simp: stack_within_def)
    fix a assume "sp + 16 \<le> a + STACK_SIZE \<and> a \<le> sp + 16"
    then show "page_index 4 a \<noteq> 510"
      using r(2) by (intro stack_address(2) [OF r(2) ok]) (auto simp: stack_within_def)
  qed
qed

context x86_64_crate
begin

lemma map_misc_maps:
  assumes "boot_inv self s" "map_misc X mmap self s = (Ok (), s')"
    and "r \<in> set mmap" "misc_flags X (region_type r) = Some flags" "k < size_in_pages (length_of r)"
  shows "mapped X self (tables s') (base r + internal_offset self + k * 4096) = Some (base r + k * 4096, flags)"
  using assms
proof (induction mmap arbitrary: s)
  case (Cons r' rs)
  obtain s1 where s1: "map_misc_region X self r' s = (Ok (), s1)" and rest: "map_misc X rs self s1 = (Ok (), s')"
    using Cons.prems(2) by (auto simp: map_misc_def elim: try_unit_OkE)
  have "map_misc X [r'] self s = (Ok (), s1)"
    using s1 by (simp add: map_misc_def try_prog_Ok)
  from map_misc_keeps [OF Cons.prems(1) this] have inv: "boot_inv self s1"
    by (simp add: keeps_mappings_def)
  show ?case
  proof (cases "r \<in> set rs")
    case True
    then show ?thesis
      using Cons.IH [OF inv rest] Cons.prems(4,5) by blast
  next
    case False
    then have r': "r' = r"
      using Cons.prems(3) by simp
    have "base r < 2 ^ 52" "RecursivePageTable_map_contiguous X (LinearFrameAllocator_alloc X) self
        (size_in_pages (length_of r)) (base r) (base r + internal_offset self) flags s = (Ok (), s1)"
      using s1 Cons.prems(4) r'
      by (auto simp: map_misc_region_def Let_def PhysAddr_new add64_def VirtAddr_new split: if_splits)
    from map_contiguous_boot [OF Cons.prems(1) this(1) misc_flags_present [OF Cons.prems(4)] this(2)]
    have "mapped X self (tables s1) (base r + internal_offset self + k * 4096) = Some (base r + k * 4096, flags)"
      using Cons.prems(5) by (simp add: range_mapped_def)
    then show ?thesis
      using map_misc_keeps [OF inv rest] by (simp add: keeps_mappings_def)
  qed
qed simp

text \<open>The loop of \<open>remap_stack\<close> changes the flags of the mapped pages it meets.\<close>

lemma update_flags_loop:
  assumes "boot_inv self s" "\<forall>a \<in> set as. page_index 4 a \<noteq> 510" "flags_contains X flags (PRESENT X)"
    and "for_each as (\<lambda>page. map_err_prog MemoryError_from (RecursivePageTable_update_flags X self page flags)) s =
      (Ok (), s')"
  shows "mapped X self (tables s') b = (if \<exists>a \<in> set as. page_key b = page_key a
    then map_option (\<lambda>m. (fst m, flags)) (mapped X self (tables s) b) else mapped X self (tables s) b)"
  using assms
proof (induction as arbitrary: s)
  case (Cons a as)
  obtain s1 where s1: "RecursivePageTable_update_flags X self a flags s = (Ok (), s1)"
    and rest: "for_each as (\<lambda>page. map_err_prog MemoryError_from (RecursivePageTable_update_flags X self page flags)) s1 =
      (Ok (), s')"
    using Cons.prems(4) by (auto elim!: try_unit_OkE)
  have a: "page_index 4 a \<noteq> 510"
    using Cons.prems(2) by simp
  have inv: "boot_inv self s1"
    by (rule update_flags_inv [OF Cons.prems(1) a Cons.prems(3) s1])
  have step: "mapped X self (tables s1) b = (if page_key b = page_key a
      then map_option (\<lambda>m. (fst m, flags)) (mapped X self (tables s) b) else mapped X self (tables s) b)" for b
  proof (cases "mapped X self (tables s) a")
    case None
    then have "s1 = s"
      using linear_paging.update_flags_eq(1) [OF Cons.prems(1) a Cons.prems(3)] s1 by (auto split: if_splits)
    then show ?thesis
      using None mapped_page_key [of b a X self "tables s"] by simp
  next
    case (Some m)
    then show ?thesis
      using linear_paging.update_flags_eq(2) [OF Cons.prems(1) a Cons.prems(3)] s1
        mapped_page_key [of b a X self "tables s"] by (cases m) auto
  qed
  show ?case
    using Cons.IH [OF inv _ Cons.prems(3) rest] Cons.prems(2) step [of b]
    by (auto simp: option.map_comp comp_def)
qed simp

lemma remap_stack_effect:
  assumes inv: "boot_inv self s" and r: "stack_within off sp r" "misc_ok off r" and off: "2 ^ 47 \<le> off"
    and run: "remap_stack X sp self s = (Ok (), s')"
  shows "mapped X self (tables s') b = (if page_key b = page_key (sp + 16) then None
    else if \<exists>k < 16. page_key b = page_key (sp + 16 - STACK_SIZE + k * 4096)
      then map_option (\<lambda>m. (fst m, flags_rw X)) (mapped X self (tables s) b)
    else mapped X self (tables s) b)"
proof -
  have size: "STACK_SIZE = 16 * 4096" and le: "base r + off \<le> sp + 16 - STACK_SIZE" "STACK_SIZE \<le> sp + 16"
    using r(1) by (auto simp: stack_within_def STACK_SIZE_def KIBIBYTE_def)
  have "page_index 4 (sp + 16 - STACK_SIZE + k * 4096) \<noteq> 510" if "k \<le> 16" for k
    by (rule stack_address(2) [OF r]) (use le size that in auto)
  then have stack: "page_index 4 (sp + 16) \<noteq> 510"
    "\<forall>a \<in> set (VirtAddr_step_by X (sp + 16 - STACK_SIZE) (sp + 16) 4096). page_index 4 a \<noteq> 510"
    unfolding stack_steps [OF r(1) off] using stack_address(2) [OF r, of "sp + 16"] le by auto
  obtain s1 where s1: "RecursivePageTable_unmap X self (sp + 16) s = (Ok (), s1)"
    and loop: "for_each (VirtAddr_step_by X (sp + 16 - STACK_SIZE) (sp + 16) 4096) (\<lambda>page.
       map_err_prog MemoryError_from (RecursivePageTable_update_flags X self page (flags_rw X))) s1 = (Ok (), s')"
    using run by (auto simp: remap_stack_def VirtAddr_add VirtAddr_sub elim!: try_unit_OkE split: if_splits)
  have gone: "mapped X self (tables s1) b = (if page_key b = page_key (sp + 16) then None else mapped X self (tables s) b)" for b
    using linear_paging.unmap_eq [OF inv stack(1)] s1 by (cases "mapped X self (tables s) (sp + 16) = None") auto
  show ?thesis
    using update_flags_loop [OF unmap_inv [OF inv stack(1) s1] stack(2) section_flags_present(3) loop, of b] gone [of b]
    unfolding stack_steps [OF r(1) off] by (auto simp del: upt_rec_numeral)
qed

text \<open>The steps of a successful \<open>init_memory\<close>, with the invariant at each of them.\<close>

lemma init_memory_parts:
  assumes lay: "boot_layout info mmap sp off k region highest"
    and info: "hhdm_offset info = Some off" "kernel_address info = Some (vb, pb)"
    and run: "init_memory X info (Some mmap) sp s = (Ok res, s')"
  obtains pt k' s1 s2 s3 s4 where "pt = \<lparr>lvl4 = cr3 res + off, internal_offset = off\<rparr>"
    "boot_inv pt s1" "map_kernel X info pt k' s1 = (Ok (), s2)" "boot_inv pt s2" "map_misc X mmap pt s2 = (Ok (), s3)"
    "boot_inv pt s3" "remap_stack X sp pt s3 = (Ok (), s4)"
    "\<And>a m. mapped X pt (tables s4) a = Some m \<Longrightarrow> mapped X pt (tables s') a = Some m"
proof (rule init_memory_steps [OF info(1) run])
  fix region' p ctrl t pt
  assume region: "largest_usable mmap = Some region'" and base: "base region' < 2 ^ 52"
    and p: "p = base region' + 1024 * 4096" "p < 2 ^ 52"
    and init: "init_paging X info sp mmap (s\<lparr>frames := p\<rparr>) = (Ok ctrl, t)"
    and hmap: "RecursivePageTable_map_contiguous X (LinearFrameAllocator_alloc X) (rec_page_table ctrl) 1024
       (base region') (heap_start res) (flags_rw X) t = (Ok (), s')"
    and load: "(RecursivePageTable_load X (rec_page_table ctrl) :: (MemoryError, _) outcome) = Ok (cr3 res, pt)"
  have "base region' mod 4096 = 0"
    using largest_usable_SomeD(1,2) [OF region] boot_layoutD(8) [OF lay] by blast
  then have "p mod 4096 = 0"
    unfolding p(1) mod_mult_self1 .
  then have good: "frame_address (frames (s\<lparr>frames := p\<rparr>))"
    using p(2) by (simp add: frame_address_def)
  note stack = boot_stack_ok [OF lay]
  have inv: "boot_inv (rec_page_table ctrl) t" "internal_offset (rec_page_table ctrl) = off"
    using init_paging_effect [OF good info(1) boot_layoutD(1) [OF lay] info(2) stack init] by auto
  have "lvl4 (rec_page_table ctrl) = cr3 res + off"
    using load inv(2) by (auto simp: RecursivePageTable_load_def try_outcome_Ok_iff PhysAddr_new from_start_address
        split: if_splits)
  then have pt: "rec_page_table ctrl = \<lparr>lvl4 = cr3 res + off, internal_offset = off\<rparr>"
    using inv(2) by (cases "rec_page_table ctrl") simp
  show thesis
  proof (rule init_paging_steps [OF info(1) init])
    fix self t1 k' t2 t3 t4 p6
    assume new: "(RecursivePageTable_new X (LinearFrameAllocator_alloc X) (Some off) (s\<lparr>frames := p\<rparr>)
        :: (MemoryError, RecursivePageTable) outcome \<times> _) = (Ok self, t1)"
      and r2: "map_kernel X info self k' t1 = (Ok (), t2)" and r3: "map_misc X mmap self t2 = (Ok (), t3)"
      and r4: "remap_stack X sp self t3 = (Ok (), t4)" and self: "rec_page_table ctrl = self" "t = t4\<lparr>frames := p6\<rparr>"
    have i1: "boot_inv self t1"
      using new_OkD [OF _ boot_layoutD(1) [OF lay] new] good by (simp add: linear_good_def)
    have i2: "boot_inv self t2"
      using map_kernel_effect(1) [OF i1 info(2) r2] by (simp add: keeps_mappings_def)
    have i3: "boot_inv self t3"
      using map_misc_keeps [OF i2 r3] by (simp add: keeps_mappings_def)
    have "mapped X self (tables s') a = Some m" if "mapped X self (tables t4) a = Some m" for a m
      using map_contiguous_keeps [OF inv(1) base section_flags_present(3) hmap] that
      by (cases m) (simp add: keeps_mappings_def self)
    then show thesis
      by (rule that [OF pt [unfolded self(1)] i1 r2 i2 r3 i3 r4])
  qed
qed

text \<open>Pages that are not part of the stack keep their mapping through \<open>remap_stack\<close>.\<close>

lemma remap_stack_keeps:
  assumes inv: "boot_inv self s" and r: "stack_within off sp r" "misc_ok off r" and off: "2 ^ 47 \<le> off"
    and run: "remap_stack X sp self s = (Ok (), s')"
    and a: "canonical a" "a div 4096 \<notin> pages_of (base r + off) (size_in_pages (length_of r))"
  shows "mapped X self (tables s') a = mapped X self (tables s) a"
proof -
  have le: "base r + off \<le> sp + 16 - STACK_SIZE" "STACK_SIZE \<le> sp + 16" "STACK_SIZE = 16 * 4096"
    using r(1) by (auto simp: stack_within_def STACK_SIZE_def KIBIBYTE_def)
  have "page_key a \<noteq> page_key b" if "base r + off \<le> b" "b \<le> sp + 16" for b
    using page_key_inj [OF a(1) stack_address(1) [OF r that]] stack_address(3) [OF r that] a(2) by auto
  then have "page_key a \<noteq> page_key (sp + 16)" and "\<forall>k < 16. page_key a \<noteq> page_key (sp + 16 - STACK_SIZE + k * 4096)"
    using le by auto
  then show ?thesis
    using remap_stack_effect [OF inv r off run, of a] by auto
qed

end

lemma kernel_page:
  assumes "kernel_ok info len" "page \<in> set (page_range a b)" "limine_reqs_start info \<le> a" "b \<le> elf_end info"
    and "a mod 4096 = 0" "b mod 4096 = 0"
  shows "canonical page" "page div 4096 \<in> pages_of (limine_reqs_start info) (size_in_pages len)"
proof -
  define l n where "l = limine_reqs_start info" and "n = size_in_pages len"
  have ok: "free_range l n" "elf_end info - l \<le> len"
    using assms(1) by (auto simp: kernel_ok_def l_def n_def split: option.splits)
  have "len \<le> n * 4096"
    using div_mult_mod_eq [of len 4096] by (auto simp: n_def size_in_pages_def Let_def)
  obtain i where i: "page = a + i * 4096" "i < div_ceil (b - a) 4096"
    using assms(2) by (auto simp: page_range_def)
  have "(b - a) mod 4096 = 0"
    using assms(5,6) by (simp add: mod_eq_0_iff_dvd dvd_diff_nat)
  then have "div_ceil (b - a) 4096 * 4096 = b - a"
    by (auto simp: div_ceil_def)
  moreover have "i * 4096 < div_ceil (b - a) 4096 * 4096"
    using i(2) by simp
  ultimately have "i * 4096 < b - a"
    by simp
  then have page: "l \<le> page" "page < l + n * 4096"
    using assms(3,4) ok(2) \<open>len \<le> n * 4096\<close> by (auto simp: l_def i(1))
  show "canonical page"
    by (rule free_range_address(1) [OF ok(1) page])
  show "page div 4096 \<in> pages_of (limine_reqs_start info) (size_in_pages len)"
    using page ok(1) unfolding l_def [symmetric] n_def [symmetric]
    by (auto simp: free_range_def pages_of_def div_le_mono div_less_iff_less_mult algebra_simps)
qed

lemma regions_apart:
  assumes "boot_layout info mmap sp off k region highest" "r \<in> set mmap" "r' \<in> set mmap" "misc_region r" "misc_region r'" "r \<noteq> r'"
  shows "pages_of (base r + off) (size_in_pages (length_of r)) \<inter> pages_of (base r' + off) (size_in_pages (length_of r')) = {}"
proof -
  have "sorted_wrt apart (misc_ranges off mmap)"
    using boot_layoutD(6) [OF assms(1)] by (simp add: boot_ranges_def sorted_wrt_append)
  then have sorted: "sorted_wrt (\<lambda>r r'. apart (base r + off, size_in_pages (length_of r)) (base r' + off, size_in_pages (length_of r')))
      (filter misc_region mmap)"
    by (simp add: misc_ranges_def sorted_wrt_map)
  have "r \<in> set (filter misc_region mmap)" "r' \<in> set (filter misc_region mmap)"
    using assms by simp_all
  from sorted_wrt_pair [OF sorted this assms(6)] have "apart (base r + off, size_in_pages (length_of r)) (base r' + off, size_in_pages (length_of r')) \<or>
      apart (base r' + off, size_in_pages (length_of r')) (base r + off, size_in_pages (length_of r))"
    by simp
  then show ?thesis
    using apart_pages by blast
qed

lemma kernel_apart:
  assumes "boot_layout info mmap sp off k region highest" "r \<in> set mmap" "misc_region r"
  shows "pages_of (limine_reqs_start info) (size_in_pages (length_of k)) \<inter>
    pages_of (base r + off) (size_in_pages (length_of r)) = {}"
  using boot_layoutD(6) [OF assms(1)] assms(2,3)
  by (intro apart_pages) (auto simp: boot_ranges_def sorted_wrt_append misc_ranges_def)

context x86_64_crate
begin

lemma boot_keeps_kernel:
  assumes lay: "boot_layout info mmap sp off k region highest"
    and info: "hhdm_offset info = Some off" "kernel_address info = Some (vb, pb)"
    and run: "init_memory X info (Some mmap) sp s = (Ok res, s')"
    and page: "canonical page" "page div 4096 \<in> pages_of (limine_reqs_start info) (size_in_pages (length_of k))"
    and maps: "\<And>pt k' s1 s2. boot_inv pt s1 \<Longrightarrow> map_kernel X info pt k' s1 = (Ok (), s2) \<Longrightarrow> mapped X pt (tables s2) page = Some v"
  shows "mapped X \<lparr>lvl4 = cr3 res + off, internal_offset = off\<rparr> (tables s') page = Some v"
proof (rule init_memory_parts [OF lay info run])
  fix pt k' s1 s2 s3 s4
  assume pt: "pt = \<lparr>lvl4 = cr3 res + off, internal_offset = off\<rparr>"
    and i1: "boot_inv pt s1" "map_kernel X info pt k' s1 = (Ok (), s2)"
    and i2: "boot_inv pt s2" "map_misc X mmap pt s2 = (Ok (), s3)"
    and i3: "boot_inv pt s3" "remap_stack X sp pt s3 = (Ok (), s4)"
    and keeps: "\<And>a m. mapped X pt (tables s4) a = Some m \<Longrightarrow> mapped X pt (tables s') a = Some m"
  obtain r where r: "r \<in> set mmap" "stack_within off sp r" "misc_region r" "misc_ok off r"
    using boot_layoutD(4,5) [OF lay] by (auto simp: stack_within_def)
  have "mapped X pt (tables s3) page = Some v"
    using map_misc_keeps [OF i2] maps [OF i1] by (cases v) (simp add: keeps_mappings_def)
  moreover have "page div 4096 \<notin> pages_of (base r + off) (size_in_pages (length_of r))"
    using kernel_apart [OF lay r(1,3)] page(2) by blast
  moreover have "2 ^ 47 \<le> off"
    using boot_layoutD(2) [OF lay] by simp
  ultimately show ?thesis
    using keeps remap_stack_keeps [OF i3(1) r(2,4) _ i3(2) page(1)] by (simp add: pt)
qed

lemma boot_sections:
  assumes lay: "boot_layout info mmap sp off k region highest"
    and info: "hhdm_offset info = Some off" "kernel_address info = Some (vb, pb)"
    and run: "init_memory X info (Some mmap) sp s = (Ok res, s')"
  shows "page \<in> set (page_range (text_start info) (rodata_start info)) \<Longrightarrow>
      mapped X \<lparr>lvl4 = cr3 res + off, internal_offset = off\<rparr> (tables s') page =
        Some (page - vb + pb, flags_or X (flags_rx X) (GLOBAL X))"
    and "page \<in> set (page_range (rodata_start info) (data_start info)) \<Longrightarrow>
      mapped X \<lparr>lvl4 = cr3 res + off, internal_offset = off\<rparr> (tables s') page =
        Some (page - vb + pb, flags_or X (flags_r X) (GLOBAL X))"
    and "page \<in> set (page_range (data_start info) (elf_end info)) \<Longrightarrow>
      mapped X \<lparr>lvl4 = cr3 res + off, internal_offset = off\<rparr> (tables s') page =
        Some (page - vb + pb, flags_or X (flags_rw X) (GLOBAL X))"
proof -
  note kernel = boot_layoutD(3) [OF lay]
  have secs: "limine_reqs_start info \<le> text_start info" "limine_reqs_start info \<le> rodata_start info"
    "limine_reqs_start info \<le> data_start info" "rodata_start info \<le> elf_end info" "data_start info \<le> elf_end info"
    "text_start info mod 4096 = 0" "rodata_start info mod 4096 = 0" "data_start info mod 4096 = 0" "elf_end info mod 4096 = 0"
    using kernel by (auto simp: kernel_ok_def split: option.splits)
  note keeps = boot_keeps_kernel [OF lay info run]
  note effect = map_kernel_effect [OF _ info(2)]
  show "mapped X \<lparr>lvl4 = cr3 res + off, internal_offset = off\<rparr> (tables s') page =
      Some (page - vb + pb, flags_or X (flags_rx X) (GLOBAL X))"
    if "page \<in> set (page_range (text_start info) (rodata_start info))"
    using kernel_page [OF kernel that secs(1,4,6,7)] by (rule keeps) (rule effect(3) [OF _ _ that])
  show "mapped X \<lparr>lvl4 = cr3 res + off, internal_offset = off\<rparr> (tables s') page =
      Some (page - vb + pb, flags_or X (flags_r X) (GLOBAL X))"
    if "page \<in> set (page_range (rodata_start info) (data_start info))"
    using kernel_page [OF kernel that secs(2,5,7,8)] by (rule keeps) (rule effect(4) [OF _ _ that])
  show "mapped X \<lparr>lvl4 = cr3 res + off, internal_offset = off\<rparr> (tables s') page =
      Some (page - vb + pb, flags_or X (flags_rw X) (GLOBAL X))"
    if "page \<in> set (page_range (data_start info) (elf_end info))"
    using kernel_page [OF kernel that secs(3) order.refl secs(8,9)] by (rule keeps) (rule effect(5) [OF _ _ that])
qed

lemma boot_keeps_region:
  assumes lay: "boot_layout info mmap sp off k region highest"
    and info: "hhdm_offset info = Some off" "kernel_address info = Some (vb, pb)"
    and run: "init_memory X info (Some mmap) sp s = (Ok res, s')"
    and r: "r \<in> set mmap" "misc_flags X (region_type r) = Some flags" "\<not> stack_within off sp r"
      "i < size_in_pages (length_of r)"
  shows "mapped X \<lparr>lvl4 = cr3 res + off, internal_offset = off\<rparr> (tables s') (base r + off + i * 4096) =
    Some (base r + i * 4096, flags)"
proof (rule init_memory_parts [OF lay info run])
  fix pt s2 s3 s4
  assume pt: "pt = \<lparr>lvl4 = cr3 res + off, internal_offset = off\<rparr>"
    and i2: "boot_inv pt s2" "map_misc X mmap pt s2 = (Ok (), s3)"
    and i3: "boot_inv pt s3" "remap_stack X sp pt s3 = (Ok (), s4)"
    and keeps: "\<And>a m. mapped X pt (tables s4) a = Some m \<Longrightarrow> mapped X pt (tables s') a = Some m"
  obtain q where q: "q \<in> set mmap" "stack_within off sp q" "misc_region q" "misc_ok off q"
    using boot_layoutD(4,5) [OF lay] by (auto simp: stack_within_def)
  have misc: "misc_region r" and ne: "r \<noteq> q"
    using r(2,3) q(2) misc_flags_None [of X r] by auto
  then have "misc_ok off r"
    using boot_layoutD(4) [OF lay] r(1) by blast
  then have can: "canonical (base r + off + i * 4096)"
    using free_range_page(1) [OF _ r(4)] by (simp add: misc_ok_def)
  have "(base r + off + i * 4096) div 4096 \<notin> pages_of (base q + off) (size_in_pages (length_of q))"
    using regions_apart [OF lay r(1) q(1) misc q(3) ne] pages_of_member [OF r(4), of "base r + off"] by blast
  moreover have "mapped X pt (tables s3) (base r + off + i * 4096) = Some (base r + i * 4096, flags)"
    using map_misc_maps [OF i2 r(1,2,4)] by (simp add: pt)
  moreover have "2 ^ 47 \<le> off"
    using boot_layoutD(2) [OF lay] by simp
  ultimately show ?thesis
    using keeps remap_stack_keeps [OF i3(1) q(2,4) _ i3(2) can] by (simp add: pt)
qed

lemma boot_stack_mapped:
  assumes lay: "boot_layout info mmap sp off k region highest"
    and info: "hhdm_offset info = Some off" "kernel_address info = Some (vb, pb)"
    and run: "init_memory X info (Some mmap) sp s = (Ok res, s')"
    and a: "sp + 16 \<le> a + STACK_SIZE" "a div 4096 < (sp + 16) div 4096"
  shows "mapped X \<lparr>lvl4 = cr3 res + off, internal_offset = off\<rparr> (tables s') a =
    Some (a div 4096 * 4096 - off, flags_rw X)"
proof (rule init_memory_parts [OF lay info run])
  fix pt s2 s3 s4
  assume pt: "pt = \<lparr>lvl4 = cr3 res + off, internal_offset = off\<rparr>"
    and i2: "boot_inv pt s2" "map_misc X mmap pt s2 = (Ok (), s3)"
    and i3: "boot_inv pt s3" "remap_stack X sp pt s3 = (Ok (), s4)"
    and keeps: "\<And>a m. mapped X pt (tables s4) a = Some m \<Longrightarrow> mapped X pt (tables s') a = Some m"
  obtain r where r: "r \<in> set mmap" "stack_within off sp r" "misc_region r" "misc_ok off r"
    using boot_layoutD(4,5) [OF lay] by (auto simp: stack_within_def)
  obtain flags where flags: "misc_flags X (region_type r) = Some flags"
    using misc_flags_None [of X r] r(3) by auto
  define to bottom where "to = base r + off" and "bottom = sp + 16 - STACK_SIZE"
  have stack: "to \<le> bottom" "bottom + STACK_SIZE = sp + 16" "STACK_SIZE = 16 * 4096" "to mod 4096 = 0"
    using r(2,4) by (auto simp: stack_within_def misc_ok_def free_range_def to_def bottom_def STACK_SIZE_def KIBIBYTE_def)
  have "a < sp + 16"
    using a(2) by (meson div_le_mono leD leI)
  then have le: "to \<le> a" "a \<le> sp + 16" "bottom \<le> a"
    using a(1) stack by auto
  note can = stack_address(1) [OF r(2,4)]
  obtain i where i: "i < size_in_pages (length_of r)" "page_key a = page_key (to + i * 4096)"
    using page_in_range [OF stack_address(3) [OF r(2,4)]] le unfolding to_def by metis
  then have page: "a div 4096 = (to + i * 4096) div 4096"
    using can [of a] le free_range_page(1) [of to] r(4) unfolding to_def
    by (intro page_key_inj) (auto simp: misc_ok_def)
  have "mapped X pt (tables s3) a = Some (base r + i * 4096, flags)"
    using map_misc_maps [OF i2 r(1) flags i(1)] mapped_page_key [OF i(2), of X pt "tables s3"] by (simp add: pt to_def)
  moreover have "page_key a \<noteq> page_key (sp + 16)"
    using page_key_inj [OF can [of a] can [of "sp + 16"]] le a(2) by (auto simp: to_def)
  moreover have "\<exists>k < 16. page_key a = page_key (bottom + k * 4096)"
  proof (intro exI conjI)
    define k where "k = a div 4096 - bottom div 4096"
    have "bottom div 4096 \<le> a div 4096" "a div 4096 < bottom div 4096 + 16"
      using le(3) a(2) stack(2,3) by (auto simp: div_le_mono)
    then show "k < 16" "page_key a = page_key (bottom + k * 4096)"
      by (auto simp: k_def intro: page_key_cong)
  qed
  moreover have "2 ^ 47 \<le> off"
    using boot_layoutD(2) [OF lay] by simp
  ultimately have "mapped X pt (tables s4) a = Some (base r + i * 4096, flags_rw X)"
    using remap_stack_effect [OF i3(1) r(2,4) _ i3(2), of a] unfolding bottom_def by simp
  moreover have "a div 4096 * 4096 - off = base r + i * 4096"
    using stack(4) unfolding page to_def by (auto simp: mod_eq_0_iff_dvd elim!: dvdE)
  ultimately show ?thesis
    using keeps by (simp add: pt)
qed

end

section \<open>Properties\<close>

text \<open>C4. The kernel survives \<open>load\<close>: in the table that \<open>init_memory\<close> puts into CR3, the running code, its data and its
  stack are still where they were. The text of the kernel is mapped read only and executable, its read-only data
  read only, its data writable, each to its place in the image; the 64 KiB below the stack top are mapped through
  the direct map, writable and not executable, but for the page the stack top lies in, which is unmapped; and every
  framebuffer region other than one that holds the stack is mapped writable.\<close>

theorem kernel_survives_load:
  assumes "x86_64_crate X" "boot_ok info mmap sp" "hhdm_offset info = Some off" "kernel_address info = Some (vb, pb)"
    and "init_memory X info (Some mmap) sp s = (Ok res, s')"
  defines "space \<equiv> mapped X \<lparr>lvl4 = cr3 res + off, internal_offset = off\<rparr> (tables s')"
  shows "(\<forall>page \<in> set (page_range (text_start info) (rodata_start info)).
       space page = Some (page - vb + pb, flags_or X (flags_rx X) (GLOBAL X))) \<and>
    (\<forall>page \<in> set (page_range (rodata_start info) (data_start info)).
       space page = Some (page - vb + pb, flags_or X (flags_r X) (GLOBAL X))) \<and>
    (\<forall>page \<in> set (page_range (data_start info) (elf_end info)).
       space page = Some (page - vb + pb, flags_or X (flags_rw X) (GLOBAL X))) \<and>
    (\<forall>a. sp + 16 \<le> a + STACK_SIZE \<and> a div 4096 < (sp + 16) div 4096 \<longrightarrow>
       space a = Some (a div 4096 * 4096 - off, flags_rw X)) \<and>
    space (sp + 16) = None \<and>
    (\<forall>r \<in> set mmap. region_type r = MemoryRegionType.Framebuffer \<and> \<not> stack_within off sp r \<longrightarrow>
       (\<forall>i < size_in_pages (length_of r).
          space (base r + off + i * 4096) = Some (base r + i * 4096, flags_rwx X)))"
proof (rule boot_okE [OF assms(2)])
  fix off' region k highest
  assume info: "hhdm_offset info = Some off'" "largest_usable mmap = Some region"
      "find (\<lambda>r. region_type r = ExecutableAndModules) mmap = Some k"
      "(highest_valid_region mmap :: (MemoryError, MemoryRegionInfo) outcome) = Ok highest"
    and "boot_layout info mmap sp off' k region highest"
  then have lay: "boot_layout info mmap sp off k region highest" and off: "off' = off"
    using assms(3) by auto
  note sections = x86_64_crate.boot_sections [OF assms(1) lay assms(3-5), folded space_def]
  have "space a = Some (a div 4096 * 4096 - off, flags_rw X)"
    if "sp + 16 \<le> a + STACK_SIZE" "a div 4096 < (sp + 16) div 4096" for a
    unfolding space_def by (rule x86_64_crate.boot_stack_mapped [OF assms(1) lay assms(3-5) that])
  moreover have "space (base r + off + i * 4096) = Some (base r + i * 4096, flags_rwx X)"
    if "r \<in> set mmap" "region_type r = MemoryRegionType.Framebuffer" "\<not> stack_within off sp r"
      "i < size_in_pages (length_of r)" for r i
    unfolding space_def
    by (rule x86_64_crate.boot_keeps_region [OF assms(1) lay assms(3-5) that(1) _ that(3,4)])
      (simp add: misc_flags_def that(2))
  moreover have "space (sp + 16) = None"
  proof -
    obtain pt where pt: "pt = \<lparr>lvl4 = cr3 res + off, internal_offset = off\<rparr>"
      and at: "x86_64_crate.boot_at X (base region + length_of region) {(sp + 16) div 4096} pt 0
        (boot_pages off info k mmap sp region) s'"
      by (rule x86_64_crate.init_memory_boot [OF assms(1) lay info [unfolded off], of s]) (use assms(5) in simp)
    obtain r where "r \<in> set mmap" "stack_within off sp r" "misc_ok off r"
      using boot_layoutD(4,5) [OF lay] by (auto simp: stack_within_def)
    then have "canonical (sp + 16)"
      by (intro stack_address(1) [of off sp r]) (auto simp: stack_within_def)
    moreover have "pages_of (base region + off) 1024 \<subseteq> pages_of (base region + off) (size_in_pages (length_of region))"
      using boot_region_apart(2) [OF lay] by (auto simp: pages_of_def)
    then have "(sp + 16) div 4096 \<notin> boot_pages off info k mmap sp region"
      using stack_top_covered [OF lay] boot_region_apart(1) [OF lay] by (auto simp: boot_pages_def)
    ultimately show ?thesis
      using at unfolding x86_64_crate.boot_at_def [OF assms(1)] space_def pt by blast
  qed
  ultimately show ?thesis
    using sections by blast
qed

theorem kernel_survives_load_witness:
  "\<exists>res s'. init_memory x86_64_entries small_info (Some small_mmap) 0xFFFF800004027FF0
      \<lparr>tables = Map.empty, frames = 0\<rparr> = (Ok res, s') \<and>
    mapped x86_64_entries \<lparr>lvl4 = cr3 res + 0xFFFF800000000000, internal_offset = 0xFFFF800000000000\<rparr> (tables s')
      0xFFFF800004027FF8 = Some (0x4027000, flags_rw x86_64_entries)"
proof -
  obtain res s' where run: "init_memory x86_64_entries small_info (Some small_mmap) 0xFFFF800004027FF0
      \<lparr>tables = Map.empty, frames = 0\<rparr> = (Ok res, s')"
    using entries.init_memory_total [OF small_boot_ok] by blast
  have info: "hhdm_offset small_info = Some 0xFFFF800000000000" "kernel_address small_info = Some (0xFFFFFFFF80000000, 0x4000000)"
    by (simp_all add: small_info_def)
  note survive = kernel_survives_load [OF entries.x86_64_crate_axioms small_boot_ok info run]
  have "mapped x86_64_entries \<lparr>lvl4 = cr3 res + 0xFFFF800000000000, internal_offset = 0xFFFF800000000000\<rparr> (tables s') a =
      Some (a div 4096 * 4096 - 0xFFFF800000000000, flags_rw x86_64_entries)"
    if "0xFFFF800004027FF0 + 16 \<le> a + STACK_SIZE \<and> a div 4096 < (0xFFFF800004027FF0 + 16) div 4096" for a
    using survive that by blast
  from this [of "0xFFFF800004027FF8"] show ?thesis
    using run by (simp add: STACK_SIZE_def KIBIBYTE_def)
qed

section \<open>The page tables after the boot\<close>

text \<open>Every operation of a page table whose root cannot be read ends with a page fault at the root.\<close>

lemma bad_root_walk:
  assumes "mem (lvl4 self) = None"
  shows "get_page_table X self mem 1 a = Panic BadPointer" "get_page_table X self mem (Suc 0) a = Panic BadPointer"
  using assms by (simp_all add: get_page_table_def upt_rec read_entry_def deref_table_def)

lemma bad_root:
  assumes "tables s (lvl4 self) = None"
  shows "page_index 4 to \<noteq> 510 \<Longrightarrow> RecursivePageTable_map X alloc self from to flags s = (Panic BadPointer, s)"
    and "RecursivePageTable_unmap X self to s = (Panic BadPointer, s)"
    and "RecursivePageTable_update_flags X self to flags s = (Panic BadPointer, s)"
    and "RecursivePageTable_translate X self (tables s) to = Panic BadPointer"
  by (simp_all add: bad_root_walk [where mem = "tables s" and self = self, OF assms] RecursivePageTable_map_def RecursivePageTable_unmap_def RecursivePageTable_update_flags_def
      RecursivePageTable_translate_def upt_rec)

lemma first_page_panics:
  assumes "0 < n" "n * 4096 < 2 ^ 64" "f 0 s = (Panic p, s)"
  shows "try_prog (reads (\<lambda>_. page_offsets n)) (\<lambda>offsets. for_each offsets f) s = (Panic p, s)"
proof -
  have "[0..<n] = 0 # [1..<n]"
    using assms(1) by (simp add: upt_conv_Cons)
  then show ?thesis
    using assms(3) by (simp add: page_offsets_eq [OF assms(2)] try_prog_Panic)
qed

lemma with_tables_panics:
  assumes "m \<lparr>tables = page_memory c, frames = frame_allocator (controller c)\<rparr> =
    (Panic p, \<lparr>tables = page_memory c, frames = frame_allocator (controller c)\<rparr>)"
  shows "with_tables m c = (Panic p, c)"
  using assms by (cases c, cases "controller c") (simp add: with_tables_def zoom_def)

lemma controller_bad_root:
  assumes X: "x86_64_crate X" and root: "page_memory c (lvl4 (rec_page_table (controller c))) = None"
    and n: "0 < n" "n * 4096 < 2 ^ 64" and to: "canonical to"
  shows "from < 2 ^ 52 \<Longrightarrow> page_index 4 to \<noteq> 510 \<Longrightarrow>
      KernelPagingController_map X from to n flags c = (Panic BadPointer, c)"
    and "KernelPagingController_unmap X to n c = (Panic BadPointer, c)"
proof -
  define t where "t = \<lparr>tables = page_memory c, frames = frame_allocator (controller c)\<rparr>"
  note bad = bad_root [of t "rec_page_table (controller c)", unfolded t_def, simplified, OF root]
  show "KernelPagingController_map X from to n flags c = (Panic BadPointer, c)" if "from < 2 ^ 52" "page_index 4 to \<noteq> 510"
  proof -
    have "RecursivePageTable_map_contiguous X (BitmapFrameAllocator_alloc X) (rec_page_table (controller c)) n from to flags t =
        (Panic BadPointer, t)"
      unfolding RecursivePageTable_map_contiguous_def
      by (rule first_page_panics [OF n])
        (use that to bad(1) [OF that(2)] in \<open>simp add: t_def x86_64_crate.PhysAddr_add [OF X] x86_64_crate.VirtAddr_add [OF X]\<close>)
    then have "with_tables (RecursivePageTable_map_contiguous X (BitmapFrameAllocator_alloc X)
        (rec_page_table (controller c)) n from to flags) c = (Panic BadPointer, c)"
      unfolding t_def by (rule with_tables_panics)
    then show ?thesis
      by (simp add: KernelPagingController_map_def map_err_prog_def)
  qed
  have "RecursivePageTable_unmap_contiguous X (rec_page_table (controller c)) n to t = (Panic BadPointer, t)"
    unfolding RecursivePageTable_unmap_contiguous_def
    by (rule first_page_panics [OF n]) (use to bad(2) in \<open>simp add: t_def x86_64_crate.VirtAddr_add [OF X]\<close>)
  then have "with_tables (RecursivePageTable_unmap_contiguous X (rec_page_table (controller c)) n to) c = (Panic BadPointer, c)"
    unfolding t_def by (rule with_tables_panics)
  then show "KernelPagingController_unmap X to n c = (Panic BadPointer, c)"
    by (simp add: KernelPagingController_unmap_def map_err_prog_def)
qed

text \<open>The pages whose level-1 table has the path 511, 511, 511 are those of the last two mebibytes.\<close>

lemma last_table_page:
  assumes "canonical a" "table_path a = [511, 511, 511]"
  shows "0xFFFFFFFFFFE00 \<le> a div 4096"
proof -
  have "a div 4096 mod 2 ^ 36 = 68719476224 + page_index 1 a"
    using assms(2) unfolding page_number_split by (simp add: table_path_def)
  then show ?thesis
    using canonical_page_number [OF assms(1)] by (simp add: Let_def)
qed

lemma covered_below:
  assumes "page \<in> covered ps" "list_all (\<lambda>(to, n). to + n * 4096 \<le> m * 4096) ps"
  shows "page < m"
proof -
  obtain to n where p: "(to, n) \<in> set ps" "page < to div 4096 + n"
    using assms(1) by (auto simp: covered_def pages_of_def)
  then have "(to + n * 4096) div 4096 \<le> m"
    using assms(2) by (auto simp: list_all_iff div_le_mono dest!: bspec intro: order.trans [OF div_le_mono])
  then show ?thesis
    using p(2) by simp
qed

context x86_64_crate
begin

lemma boot_last_table:
  assumes lay: "boot_layout info mmap sp off k region highest"
    and at: "boot_at L {(sp + 16) div 4096} pt 0 (boot_pages off info k mmap sp region) s"
    and low: "list_all (\<lambda>(to, n). to + n * 4096 \<le> 0xFFFFFFFFFFE00 * 4096)
      (boot_ranges off info k mmap @ [(base region + off, 1024)])"
  shows "table_at X (internal_offset pt) (tables s) (lvl4 pt) [511, 511, 511] = None"
proof (rule ccontr)
  assume "table_at X (internal_offset pt) (tables s) (lvl4 pt) [511, 511, 511] \<noteq> None"
  moreover have "node_path [511, 511, 511]"
    by (simp add: node_path_def valid_path_def)
  moreover have "tables_within X pt (tables s) (boot_pages off info k mmap sp region \<union> {(sp + 16) div 4096})"
    using at by (simp add: boot_at_def)
  ultimately obtain a where a: "canonical a" "a div 4096 \<in> boot_pages off info k mmap sp region \<union> {(sp + 16) div 4096}"
    "take 3 (table_path a) = [511, 511, 511]"
    unfolding tables_within_def by (metis length_Cons list.distinct(1) list.size(3) numeral_3_eq_3)
  have "a div 4096 \<in> covered (boot_ranges off info k mmap @ [(base region + off, 1024)])"
    using a(2) stack_top_covered [OF lay] by (auto simp: boot_pages_def)
  then have "a div 4096 < 0xFFFFFFFFFFE00"
    using low by (rule covered_below)
  then show False
    using last_table_page [OF a(1)] a(3) by simp
qed

end

text \<open>C5. After a successful boot the kernel can no longer use its page tables. Unless the boot mapped a page of the last
  two mebibytes, the pointer \<open>LEVEL4\<close> that \<open>load\<close> left in the controller is not mapped, so every \<open>translate\<close>,
  every \<open>map\<close> of at least one page outside the recursive range and every \<open>unmap\<close> of at least one page faults at the
  level-4 table.\<close>

theorem paging_unusable_after_boot:
  assumes "x86_64_crate X" "boot_ok info mmap sp" "hhdm_offset info = Some off" "largest_usable mmap = Some region"
    and "find (\<lambda>r. region_type r = ExecutableAndModules) mmap = Some k"
    and "list_all (\<lambda>(to, n). to + n * 4096 \<le> 0xFFFFFFFFFFE00000) (boot_ranges off info k mmap @ [(base region + off, 1024)])"
    and "init_memory X info (Some mmap) sp s = (Ok res, s')"
  defines "after \<equiv> \<lparr>page_memory = cpu_tables X off (tables s') (cr3 res), controller = paging_controller res\<rparr>"
  shows "page_memory after (lvl4 (rec_page_table (controller after))) = None \<and>
    (\<forall>a. RecursivePageTable_translate X (rec_page_table (controller after)) (page_memory after) a =
      (Panic BadPointer :: ('e, PhysAddr option) outcome)) \<and>
    (\<forall>from to n flags. 0 < n \<and> n * 4096 < 2 ^ 64 \<and> from < 2 ^ 52 \<and> canonical to \<and> page_index 4 to \<noteq> 510 \<longrightarrow>
      KernelPagingController_map X from to n flags after = (Panic BadPointer, after)) \<and>
    (\<forall>to n. 0 < n \<and> n * 4096 < 2 ^ 64 \<and> canonical to \<longrightarrow>
      KernelPagingController_unmap X to n after = (Panic BadPointer, after))"
proof (rule boot_okE [OF assms(2)])
  fix off' region' k' highest
  assume info: "hhdm_offset info = Some off'" "largest_usable mmap = Some region'"
      "find (\<lambda>r. region_type r = ExecutableAndModules) mmap = Some k'"
      "(highest_valid_region mmap :: (MemoryError, MemoryRegionInfo) outcome) = Ok highest"
    and "boot_layout info mmap sp off' k' region' highest"
  then have lay: "boot_layout info mmap sp off k region highest" and eqs: "off' = off" "region' = region" "k' = k"
    using assms(3-5) by auto
  obtain pt where pt: "pt = \<lparr>lvl4 = cr3 res + off, internal_offset = off\<rparr>"
    "rec_page_table (paging_controller res) = pt\<lparr>lvl4 := LEVEL4\<rparr>"
    and at: "x86_64_crate.boot_at X (base region + length_of region) {(sp + 16) div 4096} pt 0
      (boot_pages off info k mmap sp region) s'"
    by (rule x86_64_crate.init_memory_boot [OF assms(1) lay info [unfolded eqs], of s]) (use assms(7) in simp)
  have inv: "paging_inv X linear_good linear_taken pt s'"
    using at unfolding x86_64_crate.boot_at_def [OF assms(1)] by simp
  have "list_all (\<lambda>(to, n). to + n * 4096 \<le> 0xFFFFFFFFFFE00 * 4096) (boot_ranges off info k mmap @ [(base region + off, 1024)])"
    using assms(6) by simp
  note none = x86_64_crate.boot_last_table [OF assms(1) lay at this]
  have idx: "page_index 4 LEVEL4 = 510" "[page_index 3 LEVEL4, page_index 2 LEVEL4, page_index 1 LEVEL4] = [511, 511, 511]"
    "canonical LEVEL4" "LEVEL4 mod 4096 = 0" "node_path [511, 511, 511]"
    by (simp_all add: page_index_eq LEVEL4_def canonical_def node_path_def valid_path_def)
  have "lvl4 pt = cr3 res + internal_offset pt"
    by (simp add: pt(1))
  from x86_64_crate.cpu_tables_recursive [OF assms(1) inv this idx(3,4,1), unfolded idx(2), OF idx(5)]
  have "cpu_tables X (internal_offset pt) (tables s') (cr3 res) LEVEL4 = None"
    unfolding none by simp
  then have root: "page_memory after (lvl4 (rec_page_table (controller after))) = None"
    by (simp add: after_def pt)
  have "RecursivePageTable_translate X (rec_page_table (controller after)) (page_memory after) a =
      (Panic BadPointer :: ('e, PhysAddr option) outcome)" for a
    using bad_root(4) [of "\<lparr>tables = page_memory after, frames = ()\<rparr>" "rec_page_table (controller after)"] root by simp
  then show ?thesis
    using root controller_bad_root [OF assms(1) root] by blast
qed

theorem paging_unusable_after_boot_witness:
  "\<exists>res s'. init_memory x86_64_entries small_info (Some small_mmap) 0xFFFF800004027FF0
      \<lparr>tables = Map.empty, frames = 0\<rparr> = (Ok res, s') \<and>
    (RecursivePageTable_translate x86_64_entries (rec_page_table (paging_controller res))
      (cpu_tables x86_64_entries 0xFFFF800000000000 (tables s') (cr3 res)) 0xFFFFFFFF80000000 ::
        (MemoryError, PhysAddr option) outcome) = Panic BadPointer"
proof -
  obtain res s' where run: "init_memory x86_64_entries small_info (Some small_mmap) 0xFFFF800004027FF0
      \<lparr>tables = Map.empty, frames = 0\<rparr> = (Ok res, s')"
    using entries.init_memory_total [OF small_boot_ok] by blast
  define region where "region = \<lparr>base = 0x100000, length_of = 0x2000000, region_type = Usable\<rparr>"
  define k where "k = \<lparr>base = 0x4000000, length_of = 0x1000, region_type = ExecutableAndModules\<rparr>"
  have info: "hhdm_offset small_info = Some 0xFFFF800000000000" "largest_usable small_mmap = Some region"
    "find (\<lambda>r. region_type r = ExecutableAndModules) small_mmap = Some k"
    by (simp_all add: small_info_def small_mmap_def largest_usable_def region_def k_def)
  have "list_all (\<lambda>(to, n). to + n * 4096 \<le> 0xFFFFFFFFFFE00000)
      (boot_ranges 0xFFFF800000000000 small_info k small_mmap @ [(base region + 0xFFFF800000000000, 1024)])"
    by (simp add: boot_ranges_def misc_ranges_def misc_region_def small_mmap_def small_info_def k_def region_def
        size_in_pages_def)
  from paging_unusable_after_boot [OF entries.x86_64_crate_axioms small_boot_ok info this run, where 'e = MemoryError]
  show ?thesis
    using run by auto
qed

end
