(* ===== verification/Linear_Framebuffer.thy ===== *)
theory Linear_Framebuffer
  imports Kermol_Prelude
begin

text \<open>
  \<open>display/linear_framebuffer.rs\<close>. The framebuffer of the bootloader (limine crate) is the record
  \<open>Framebuffer\<close> with the fields the code reads and the pixels found at its address. The slice is its address, its
  contents and, for every pixel, whether the page table in force lets the kernel read and write it: everything
  under the bootloader's table, and what \<open>Kernel_Main\<close> finds when it loads another one. An access that is not
  allowed is the outcome \<open>Panic PageFault\<close>, which stands for the panic of the page fault handler; what a copy or
  a fill has written before it faults is not followed. A write through a raw pointer outside the buffer, and a
  pointer that \<open>slice::from_raw_parts_mut\<close> does not accept, is \<open>Panic BadPointer\<close>. The two nested loops of \<open>plot_glyph\<close>
  are \<open>plot_bytes\<close> and \<open>plot_bits\<close>; the flag \<open>plot_bits\<close> returns says that \<open>break 'outer\<close> was reached.

  The lemmas describe the operations by the pixel at each position.
\<close>

record Framebuffer =
  fb_width :: u64
  fb_height :: u64
  bpp :: nat
  fb_address :: u64
  pixels :: "u32 list"

record LinearFramebuffer =
  dimensions :: "usize \<times> usize"
  buffer_at :: u64
  buffer :: "u32 list"
  readable :: "usize \<Rightarrow> bool"
  writable :: "usize \<Rightarrow> bool"

datatype LinearFramebufferError = UnsupportedPixelDepth | FramebufferOutOfBounds

section \<open>Operations\<close>

definition LinearFramebuffer_new :: "Framebuffer \<Rightarrow> (LinearFramebufferError, LinearFramebuffer) outcome" where
  "LinearFramebuffer_new framebuffer =
     (if bpp framebuffer \<noteq> 32 then Err UnsupportedPixelDepth
      else try_outcome (mul64 (fb_width framebuffer) (fb_height framebuffer)) (\<lambda>n.
        if fb_address framebuffer = 0 \<or> fb_address framebuffer mod 4 \<noteq> 0 \<or> 2 ^ 63 \<le> 4 * n \<or>
           2 ^ 64 < fb_address framebuffer + 4 * n then Panic BadPointer
        else Ok \<lparr>dimensions = (fb_width framebuffer, fb_height framebuffer), buffer_at = fb_address framebuffer,
          buffer = take n (pixels framebuffer), readable = (\<lambda>_. True), writable = (\<lambda>_. True)\<rparr>))"

definition LinearFramebuffer_plot ::
    "usize \<Rightarrow> usize \<Rightarrow> u32 \<Rightarrow> (LinearFramebuffer, 'e, unit) prog" where
  "LinearFramebuffer_plot x y color =
     try_prog (reads (\<lambda>self. mul64 y (fst (dimensions self)))) (\<lambda>m.
     try_prog (reads (\<lambda>self. add64 x m)) (\<lambda>offset.
     try_prog (reads (\<lambda>self. index_slice (buffer self) offset)) (\<lambda>_.
     try_prog (reads (\<lambda>self. if writable self offset then Ok () else Panic PageFault)) (\<lambda>_.
     modifies (\<lambda>self. self\<lparr>buffer := (buffer self)[offset := color]\<rparr>)))))"

fun plot_bits ::
    "usize \<Rightarrow> usize \<Rightarrow> usize \<Rightarrow> usize \<Rightarrow> u32 \<Rightarrow> u32 \<Rightarrow> u8 \<Rightarrow> nat list \<Rightarrow> usize \<Rightarrow> usize \<Rightarrow>
       (LinearFramebuffer, LinearFramebufferError, bool \<times> usize \<times> usize) prog" where
  "plot_bits x y width height color background glyph_byte [] current_x current_y =
     ret (False, current_x, current_y)"
| "plot_bits x y width height color background glyph_byte (b # bits) current_x current_y =
     (let used_color = (if drop_bit (7 - b) glyph_byte AND 1 = 0 then background else color) in
     try_prog (reads (\<lambda>_. add64 current_x x)) (\<lambda>px.
     try_prog (reads (\<lambda>_. add64 current_y y)) (\<lambda>py.
     try_prog (LinearFramebuffer_plot px py used_color) (\<lambda>_.
     try_prog (reads (\<lambda>_. add64 current_x 1)) (\<lambda>current_x'.
     if current_x' \<ge> width then
       try_prog (reads (\<lambda>_. add64 current_y 1)) (\<lambda>current_y'.
       if current_y' \<ge> height then ret (True, 0, current_y')
       else plot_bits x y width height color background glyph_byte bits 0 current_y')
     else plot_bits x y width height color background glyph_byte bits current_x' current_y)))))"

fun plot_bytes ::
    "usize \<Rightarrow> usize \<Rightarrow> usize \<Rightarrow> usize \<Rightarrow> u32 \<Rightarrow> u32 \<Rightarrow> u8 list \<Rightarrow> usize \<Rightarrow> usize \<Rightarrow>
       (LinearFramebuffer, LinearFramebufferError, unit) prog" where
  "plot_bytes x y width height color background [] current_x current_y = ret ()"
| "plot_bytes x y width height color background (glyph_byte # bs) current_x current_y =
     try_prog (plot_bits x y width height color background glyph_byte [0..<8] current_x current_y)
       (\<lambda>(broke, current_x', current_y').
     if broke then ret ()
     else plot_bytes x y width height color background bs current_x' current_y')"

definition LinearFramebuffer_plot_glyph ::
    "usize \<Rightarrow> usize \<Rightarrow> usize \<Rightarrow> usize \<Rightarrow> u8 list \<Rightarrow> u32 \<Rightarrow> u32 \<Rightarrow>
       (LinearFramebuffer, LinearFramebufferError, unit) prog" where
  "LinearFramebuffer_plot_glyph x y width height glyph_bitmap color background =
     try_prog (reads (\<lambda>_. add64 x width)) (\<lambda>right.
     try_prog (reads (\<lambda>self. if right > fst (dimensions self) then Ok True else
       try_outcome (add64 y height) (\<lambda>bottom. Ok (bottom > snd (dimensions self))))) (\<lambda>outside.
     if outside then throw FramebufferOutOfBounds
     else plot_bytes x y width height color background glyph_bitmap 0 0))"

definition LinearFramebuffer_clear :: "u32 \<Rightarrow> (LinearFramebuffer, 'e, unit) prog" where
  "LinearFramebuffer_clear color =
     try_prog (reads (\<lambda>self. if list_all (writable self) [0..<length (buffer self)] then Ok () else Panic PageFault)) (\<lambda>_.
     modifies (\<lambda>self. self\<lparr>buffer := replicate (length (buffer self)) color\<rparr>))"

text \<open>\<open>ptr.add(i).write(v)\<close> and \<open>ptr::copy\<close> from \<open>from\<close> to the start of the buffer.\<close>

definition write_raw :: "usize \<Rightarrow> u32 \<Rightarrow> (LinearFramebuffer, 'e, unit) prog" where
  "write_raw i v =
     try_prog (reads (\<lambda>self. if length (buffer self) \<le> i then Panic BadPointer
       else if writable self i then Ok () else Panic PageFault)) (\<lambda>_.
     modifies (\<lambda>self. self\<lparr>buffer := (buffer self)[i := v]\<rparr>))"

definition copy_to_start :: "usize \<Rightarrow> usize \<Rightarrow> (LinearFramebuffer, 'e, unit) prog" where
  "copy_to_start from count =
     try_prog (reads (\<lambda>self. if length (buffer self) < from + count then Panic BadPointer
       else if list_all (readable self) [from..<from + count] \<and> list_all (writable self) [0..<count] then Ok ()
       else Panic PageFault)) (\<lambda>_.
     modifies (\<lambda>self. self\<lparr>buffer := take count (drop from (buffer self)) @ drop count (buffer self)\<rparr>))"

definition LinearFramebuffer_scroll :: "usize \<Rightarrow> u32 \<Rightarrow> (LinearFramebuffer, 'e, unit) prog" where
  "LinearFramebuffer_scroll layers color =
     try_prog (reads (\<lambda>self. mul64 layers (fst (dimensions self)))) (\<lambda>skipped.
     try_prog (reads (\<lambda>self. sub64 (snd (dimensions self)) layers)) (\<lambda>rows.
     try_prog (reads (\<lambda>self. mul64 (fst (dimensions self)) rows)) (\<lambda>kept.
     try_prog (copy_to_start skipped kept) (\<lambda>_.
     for_each [0..<skipped] (\<lambda>i.
       try_prog (reads (\<lambda>_. add64 kept i)) (\<lambda>p. write_raw p color))))))"

section \<open>Pixels\<close>

definition fb_ok :: "LinearFramebuffer \<Rightarrow> bool" where
  "fb_ok fb \<longleftrightarrow> length (buffer fb) = fst (dimensions fb) * snd (dimensions fb) \<and>
     fst (dimensions fb) < 2 ^ 31 \<and> snd (dimensions fb) < 2 ^ 31 \<and>
     (\<forall>i < length (buffer fb). readable fb i \<and> writable fb i)"

text \<open>Where the framebuffer is and how large: no operation changes that.\<close>

definition fb_place :: "LinearFramebuffer \<Rightarrow> u64 \<times> usize \<times> usize" where
  "fb_place fb = (buffer_at fb, dimensions fb)"

lemma fb_place_buffer [simp]: "fb_place (fb\<lparr>buffer := b\<rparr>) = fb_place fb"
  by (simp add: fb_place_def)

definition pixel :: "LinearFramebuffer \<Rightarrow> nat \<Rightarrow> nat \<Rightarrow> u32" where
  "pixel fb x y = buffer fb ! (x + y * fst (dimensions fb))"

definition on_screen :: "LinearFramebuffer \<Rightarrow> nat \<Rightarrow> nat \<Rightarrow> bool" where
  "on_screen fb x y \<longleftrightarrow> x < fst (dimensions fb) \<and> y < snd (dimensions fb)"

lemma offset_in_bounds:
  assumes "fb_ok fb" "on_screen fb x y"
  shows "x + y * fst (dimensions fb) < length (buffer fb)" "length (buffer fb) < 2 ^ 62"
proof -
  let ?w = "fst (dimensions fb)" and ?h = "snd (dimensions fb)"
  have "x + y * ?w < ?w + y * ?w"
    using assms by (simp add: on_screen_def)
  also have "\<dots> = (y + 1) * ?w"
    by simp
  also have "\<dots> \<le> ?h * ?w"
    using assms(2) by (intro mult_le_mono1) (simp add: on_screen_def)
  finally show "x + y * ?w < length (buffer fb)"
    using assms(1) by (simp add: fb_ok_def mult.commute)
  have "?w * ?h < 2 ^ 31 * 2 ^ 31"
    using assms(1) by (intro mult_strict_mono) (auto simp: fb_ok_def)
  then show "length (buffer fb) < 2 ^ 62"
    using assms(1) by (simp add: fb_ok_def)
qed

lemma offset_inj:
  assumes "x < w" "x' < w" "x + y * w = x' + y' * (w :: nat)"
  shows "x = x' \<and> y = y'"
proof -
  have "(x + y * w) div w = y" "(x + y * w) mod w = x" "(x' + y' * w) div w = y'" "(x' + y' * w) mod w = x'"
    using assms(1,2) by auto
  then show ?thesis
    using assms(3) by metis
qed

text \<open>The framebuffer after \<open>plot\<close>.\<close>

definition set_pixel :: "nat \<Rightarrow> nat \<Rightarrow> u32 \<Rightarrow> LinearFramebuffer \<Rightarrow> LinearFramebuffer" where
  "set_pixel x y c fb = fb\<lparr>buffer := (buffer fb)[x + y * fst (dimensions fb) := c]\<rparr>"

lemma set_pixel_simps [simp]:
  "dimensions (set_pixel x y c fb) = dimensions fb"
  "length (buffer (set_pixel x y c fb)) = length (buffer fb)"
  "fb_ok (set_pixel x y c fb) \<longleftrightarrow> fb_ok fb"
  "on_screen (set_pixel x y c fb) = on_screen fb"
  by (simp_all add: set_pixel_def fb_ok_def on_screen_def fun_eq_iff)

lemma pixel_set_pixel:
  assumes "fb_ok fb" "on_screen fb x y" "on_screen fb x' y'"
  shows "pixel (set_pixel x y c fb) x' y' = (if x' = x \<and> y' = y then c else pixel fb x' y')"
proof -
  have "x + y * fst (dimensions fb) = x' + y' * fst (dimensions fb) \<longleftrightarrow> x' = x \<and> y' = y"
    using assms(2,3) offset_inj [of x "fst (dimensions fb)" x' y y'] by (auto simp: on_screen_def)
  then show ?thesis
    using offset_in_bounds(1) [OF assms(1,2)] by (simp add: pixel_def set_pixel_def nth_list_update)
qed

lemma plot_eq:
  assumes "fb_ok fb" "on_screen fb x y"
  shows "LinearFramebuffer_plot x y c fb = (Ok (), set_pixel x y c fb)"
proof -
  have "x + y * fst (dimensions fb) < 2 ^ 64" "x + y * fst (dimensions fb) < length (buffer fb)"
    using offset_in_bounds [OF assms] by auto
  then show ?thesis
    using assms(1) by (simp add: LinearFramebuffer_plot_def mul64_def add64_def set_pixel_def fb_ok_def)
qed

section \<open>Glyphs\<close>

lemma glyph_bit_clear: "drop_bit n (b :: u8) AND 1 = 0 \<longleftrightarrow> \<not> bit b n"
  by (simp add: and_one_eq mod_2_eq_odd bit_iff_odd_drop_bit)

definition glyph_color :: "u32 \<Rightarrow> u32 \<Rightarrow> u8 \<Rightarrow> nat \<Rightarrow> u32" where
  "glyph_color color background glyph_byte i = (if bit glyph_byte (7 - i) then color else background)"

definition plot_row :: "nat \<Rightarrow> nat \<Rightarrow> u32 \<Rightarrow> u32 \<Rightarrow> u8 \<Rightarrow> LinearFramebuffer \<Rightarrow> LinearFramebuffer" where
  "plot_row x y color background glyph_byte =
     fold (\<lambda>i. set_pixel (x + i) y (glyph_color color background glyph_byte i)) [0..<8]"

lemma used_color:
  "(if drop_bit (7 - i) (g :: u8) AND 1 = 0 then background else color) = glyph_color color background g i"
  by (simp add: glyph_bit_clear glyph_color_def)

lemma plot_bits_from:
  assumes "fb_ok fb" "x + 8 \<le> fst (dimensions fb)" "y + cy < snd (dimensions fb)" "i < 8"
  shows "plot_bits x y 8 height color background g [i..<8] i cy fb =
    (Ok (height \<le> cy + 1, 0, cy + 1),
     fold (\<lambda>i. set_pixel (x + i) (y + cy) (glyph_color color background g i)) [i..<8] fb)"
  using assms
proof (induction "7 - i" arbitrary: i fb)
  case (0 i)
  then have i: "i = 7" "[7..<8] = [7 :: nat]"
    by (simp_all add: upt_rec)
  have "fb_ok fb" "on_screen fb (x + 7) (y + cy)"
    using 0 by (auto simp: on_screen_def)
  moreover have "7 + x < 2 ^ 64" "cy + y < 2 ^ 64" "cy + 1 < 2 ^ 64"
    using 0 by (auto simp: fb_ok_def)
  ultimately show ?case
    unfolding i(1) i(2) plot_bits.simps Let_def used_color
    by (simp add: add64_def try_prog_Ok plot_eq add.commute [of _ x] add.commute [of cy y])
next
  case (Suc n i)
  then have i: "[i..<8] = i # [Suc i..<8]" "Suc i < 8" "n = 7 - Suc i"
    by (simp_all add: upt_conv_Cons)
  have "fb_ok fb" "on_screen fb (x + i) (y + cy)"
    using Suc.prems by (auto simp: on_screen_def)
  moreover have "i + x < 2 ^ 64" "cy + y < 2 ^ 64" "i + 1 < 2 ^ 64"
    using Suc.prems by (auto simp: fb_ok_def)
  moreover note Suc.hyps(1) [OF i(3), of "set_pixel (x + i) (y + cy) (glyph_color color background g i) fb"]
  ultimately show ?case
    unfolding i(1) plot_bits.simps Let_def used_color using i(2) Suc.prems
    by (simp add: add64_def try_prog_Ok plot_eq add.commute [of _ x] add.commute [of cy y])
qed

lemma plot_bits_row:
  assumes "fb_ok fb" "x + 8 \<le> fst (dimensions fb)" "y + cy < snd (dimensions fb)"
  shows "plot_bits x y 8 height color background g [0..<8] 0 cy fb =
    (Ok (height \<le> cy + 1, 0, cy + 1), plot_row x (y + cy) color background g fb)"
  unfolding plot_row_def by (rule plot_bits_from [OF assms]) simp

lemma fold_set_pixel:
  assumes "fb_ok fb" "x + n \<le> fst (dimensions fb)" "y < snd (dimensions fb)"
  shows "fb_ok (fold (\<lambda>i. set_pixel (x + i) y (f i)) [0..<n] fb) \<and>
    dimensions (fold (\<lambda>i. set_pixel (x + i) y (f i)) [0..<n] fb) = dimensions fb \<and>
    (\<forall>x' y'. on_screen fb x' y' \<longrightarrow> pixel (fold (\<lambda>i. set_pixel (x + i) y (f i)) [0..<n] fb) x' y' =
      (if y' = y \<and> x \<le> x' \<and> x' < x + n then f (x' - x) else pixel fb x' y'))"
  using assms
proof (induction n)
  case (Suc n)
  define fb' where "fb' = fold (\<lambda>i. set_pixel (x + i) y (f i)) [0..<n] fb"
  have IH: "fb_ok fb'" "dimensions fb' = dimensions fb"
    "\<And>x' y'. on_screen fb x' y' \<Longrightarrow> pixel fb' x' y' =
      (if y' = y \<and> x \<le> x' \<and> x' < x + n then f (x' - x) else pixel fb x' y')"
    using Suc by (auto simp: fb'_def)
  have "on_screen fb' = on_screen fb"
    using IH(2) by (simp add: on_screen_def fun_eq_iff)
  moreover have "on_screen fb (x + n) y"
    using Suc.prems by (simp add: on_screen_def)
  ultimately have "pixel (set_pixel (x + n) y (f n) fb') x' y' =
      (if y' = y \<and> x \<le> x' \<and> x' < x + Suc n then f (x' - x) else pixel fb x' y')"
    if "on_screen fb x' y'" for x' y'
    using pixel_set_pixel [OF IH(1), of "x + n" y x' y' "f n"] IH(3) that by auto
  then show ?case
    using IH(1,2) by (simp add: fb'_def [symmetric])
qed auto

lemma plot_row_pixels:
  assumes "fb_ok fb" "x + 8 \<le> fst (dimensions fb)" "y < snd (dimensions fb)"
  shows "fb_ok (plot_row x y c bg g fb)" "dimensions (plot_row x y c bg g fb) = dimensions fb"
    "on_screen fb x' y' \<Longrightarrow> pixel (plot_row x y c bg g fb) x' y' =
      (if y' = y \<and> x \<le> x' \<and> x' < x + 8 then glyph_color c bg g (x' - x) else pixel fb x' y')"
  using fold_set_pixel [OF assms, of "glyph_color c bg g"] unfolding plot_row_def by blast+

lemma plot_bytes_glyph:
  assumes "fb_ok fb" "x + 8 \<le> fst (dimensions fb)" "y + height \<le> snd (dimensions fb)"
    and "cy + length gs = height" "gs \<noteq> []"
  shows "\<exists>fb'. plot_bytes x y 8 height c bg gs 0 cy fb = (Ok (), fb') \<and> fb_ok fb' \<and>
    dimensions fb' = dimensions fb \<and> (\<forall>x' y'. on_screen fb x' y' \<longrightarrow> pixel fb' x' y' =
      (if y + cy \<le> y' \<and> y' < y + height \<and> x \<le> x' \<and> x' < x + 8
       then glyph_color c bg (gs ! (y' - y - cy)) (x' - x) else pixel fb x' y'))"
  using assms
proof (induction gs arbitrary: cy fb)
  case (Cons g gs)
  have row: "y + cy < snd (dimensions fb)"
    using Cons.prems by simp
  define fb1 where "fb1 = plot_row x (y + cy) c bg g fb"
  note p = plot_row_pixels [OF Cons.prems(1,2) row, where c = c and bg = bg and g = g, folded fb1_def]
  have run: "plot_bytes x y 8 height c bg (g # gs) 0 cy fb =
      (if height \<le> cy + 1 then (Ok (), fb1) else plot_bytes x y 8 height c bg gs 0 (cy + 1) fb1)"
    by (simp add: try_prog_Ok plot_bits_row [OF Cons.prems(1,2) row] fb1_def)
  show ?case
  proof (cases "gs = []")
    case True
    then show ?thesis
      using run p Cons.prems(4) by (auto intro!: exI [of _ fb1])
  next
    case False
    then have "\<not> height \<le> cy + 1"
      using Cons.prems(4) by (cases gs) auto
    moreover have on: "on_screen fb1 = on_screen fb"
      by (simp add: on_screen_def p(2) fun_eq_iff)
    ultimately obtain fb' where fb': "plot_bytes x y 8 height c bg (g # gs) 0 cy fb = (Ok (), fb')"
      "fb_ok fb'" "dimensions fb' = dimensions fb"
      "\<And>x' y'. on_screen fb x' y' \<Longrightarrow> pixel fb' x' y' =
        (if y + (cy + 1) \<le> y' \<and> y' < y + height \<and> x \<le> x' \<and> x' < x + 8
         then glyph_color c bg (gs ! (y' - y - (cy + 1))) (x' - x) else pixel fb1 x' y')"
      using Cons.IH [of fb1 "cy + 1"] Cons.prems False p(1,2) run by auto
    have "pixel fb' x' y' = (if y + cy \<le> y' \<and> y' < y + height \<and> x \<le> x' \<and> x' < x + 8
       then glyph_color c bg ((g # gs) ! (y' - y - cy)) (x' - x) else pixel fb x' y')"
      if "on_screen fb x' y'" for x' y'
    proof (cases "y' = y + cy")
      case True
      then show ?thesis
        using fb'(4) [OF that] p(3) [OF that] Cons.prems(4) by simp
    next
      case False
      then have "y' - y - cy = Suc (y' - y - (cy + 1))" if "y + cy \<le> y'"
        using that by simp
      then show ?thesis
        using fb'(4) [OF that] p(3) [OF that] False by auto
    qed
    then show ?thesis
      using fb'(1-3) by blast
  qed
qed simp

lemma plot_glyph_outside:
  assumes "x + width < 2 ^ 64" "y + height < 2 ^ 64"
    and "fst (dimensions fb) < x + width \<or> snd (dimensions fb) < y + height"
  shows "LinearFramebuffer_plot_glyph x y width height gs c bg fb = (Err FramebufferOutOfBounds, fb)"
  using assms by (auto simp: LinearFramebuffer_plot_glyph_def add64_def)

lemma plot_glyph_pixels:
  assumes ok: "fb_ok fb" and fits: "x + 8 \<le> fst (dimensions fb)" "y + length gs \<le> snd (dimensions fb)"
    and gs: "gs \<noteq> []"
  shows "\<exists>fb'. LinearFramebuffer_plot_glyph x y 8 (length gs) gs c bg fb = (Ok (), fb') \<and> fb_ok fb' \<and>
    dimensions fb' = dimensions fb \<and> (\<forall>x' y'. on_screen fb x' y' \<longrightarrow> pixel fb' x' y' =
      (if y \<le> y' \<and> y' < y + length gs \<and> x \<le> x' \<and> x' < x + 8
       then glyph_color c bg (gs ! (y' - y)) (x' - x) else pixel fb x' y'))"
proof -
  have "x + 8 < 2 ^ 64" "y + length gs < 2 ^ 64"
    using ok fits by (auto simp: fb_ok_def)
  then have "LinearFramebuffer_plot_glyph x y 8 (length gs) gs c bg fb =
      plot_bytes x y 8 (length gs) c bg gs 0 0 fb"
    using fits by (simp add: LinearFramebuffer_plot_glyph_def add64_def)
  then show ?thesis
    using plot_bytes_glyph [OF ok fits add_0 gs, of c bg] unfolding add_0_right diff_zero by simp
qed

section \<open>Scrolling\<close>

lemma write_raw_loop:
  assumes "k + n \<le> length (buffer fb)" "k + n < 2 ^ 64" "\<forall>i < k + n. writable fb i"
  shows "for_each [0..<n] (\<lambda>i. try_prog (reads (\<lambda>_. add64 k i)) (\<lambda>p. write_raw p c)) fb =
    (Ok (), fb\<lparr>buffer := take k (buffer fb) @ replicate n c @ drop (k + n) (buffer fb)\<rparr>)"
  using assms
proof (induction n)
  case (Suc n)
  define fb' where "fb' = fb\<lparr>buffer := take k (buffer fb) @ replicate n c @ drop (k + n) (buffer fb)\<rparr>"
  have "k + n \<le> length (buffer fb)" "k + n < 2 ^ 64" "\<forall>i < k + n. writable fb i"
    using Suc.prems by simp_all
  note IH = Suc.IH [OF this, folded fb'_def]
  have len: "length (take k (buffer fb)) = k" "length (buffer fb') = length (buffer fb)"
    using Suc.prems by (simp_all add: fb'_def)
  have upd: "(buffer fb')[k + n := c] = take k (buffer fb) @ replicate (Suc n) c @ drop (k + Suc n) (buffer fb)"
  proof (rule nth_equalityI)
    fix i assume "i < length ((buffer fb')[k + n := c])"
    then show "(buffer fb')[k + n := c] ! i =
        (take k (buffer fb) @ replicate (Suc n) c @ drop (k + Suc n) (buffer fb)) ! i"
      using Suc.prems nth_fill [of k "k + n" "buffer fb" i c] nth_fill [of k "k + Suc n" "buffer fb" i c]
      by (auto simp: fb'_def nth_list_update simp del: replicate_Suc)
  qed (use Suc.prems in \<open>simp add: fb'_def\<close>)
  show ?case
    unfolding for_each_range_Suc
    by (rule trans, rule try_prog_Ok, rule IH)
      (use Suc.prems len(2) upd in \<open>simp add: add64_def write_raw_def, simp add: fb'_def\<close>)
qed simp

lemma scroll_pixels:
  assumes ok: "fb_ok fb" and l: "layers \<le> snd (dimensions fb)"
  shows "\<exists>fb'. LinearFramebuffer_scroll layers c fb = (Ok (), fb') \<and> fb_ok fb' \<and>
    dimensions fb' = dimensions fb \<and> (\<forall>x y. on_screen fb x y \<longrightarrow> pixel fb' x y =
      (if y + layers < snd (dimensions fb) then pixel fb x (y + layers) else c))"
proof -
  obtain w h where d: "dimensions fb = (w, h)"
    by (cases "dimensions fb")
  have len: "length (buffer fb) = w * h" "w < 2 ^ 31" "h < 2 ^ 31"
    using ok d by (auto simp: fb_ok_def)
  have prod: "w * (h - layers) + layers * w = w * h"
    using l d by (simp add: algebra_simps flip: add_mult_distrib2)
  have "w * h < 2 ^ 31 * 2 ^ 31"
    using len by (intro mult_strict_mono) auto
  then have small: "layers * w < 2 ^ 64" "w * (h - layers) < 2 ^ 64" "w * (h - layers) + layers * w < 2 ^ 64"
    using prod by simp_all
  define kept where "kept = w * (h - layers)"
  define buf where "buf = take kept (drop (layers * w) (buffer fb)) @ drop kept (buffer fb)"
  define fb' where "fb' = fb\<lparr>buffer := take kept buf @ replicate (layers * w) c\<rparr>"
  have lb: "length buf = w * h" "kept + layers * w = w * h"
    using len prod by (auto simp: buf_def kept_def)
  have "LinearFramebuffer_scroll layers c fb = for_each [0..<layers * w]
      (\<lambda>i. try_prog (reads (\<lambda>_. add64 kept i)) (\<lambda>p. write_raw p c)) (fb\<lparr>buffer := buf\<rparr>)"
    using d l small lb len
    using ok by (simp add: LinearFramebuffer_scroll_def mul64_def sub64_def copy_to_start_def kept_def buf_def try_prog_Ok
        add.commute fb_ok_def list_all_iff)
  also have "\<dots> = (Ok (), fb')"
    using write_raw_loop [of kept "layers * w" "fb\<lparr>buffer := buf\<rparr>" c] lb small ok len
    by (simp add: fb'_def kept_def fb_ok_def)
  finally have run: "LinearFramebuffer_scroll layers c fb = (Ok (), fb')" .
  have "pixel fb' x y = (if y + layers < h then pixel fb x (y + layers) else c)" if xy: "on_screen fb x y" for x y
  proof (cases "y + layers < h")
    case True
    have "x + y * w < kept"
    proof -
      have "x + y * w < (y + 1) * w"
        using xy d by (simp add: on_screen_def)
      also have "\<dots> \<le> (h - layers) * w"
        using True by (intro mult_le_mono1) simp
      finally show ?thesis
        by (simp add: kept_def mult.commute)
    qed
    moreover have "w * h - layers * w = kept" "layers * w \<le> w * h"
      using lb(2) by linarith+
    ultimately have "pixel fb' x y = buffer fb ! (layers * w + (x + y * w))"
      using lb len d by (simp add: pixel_def fb'_def buf_def nth_append)
    then show ?thesis
      using True d by (simp add: pixel_def algebra_simps)
  next
    case False
    have "w * (h - layers) \<le> w * y"
      using False by (intro mult_le_mono2) simp
    then have "kept \<le> x + y * w"
      unfolding kept_def mult.commute [of y w] by (rule trans_le_add2)
    moreover have "x + y * w < w * h"
      using offset_in_bounds(1) [OF ok xy] len d by simp
    ultimately show ?thesis
      using False lb d by (simp add: pixel_def fb'_def nth_append min_def)
  qed
  then show ?thesis
    using run ok lb d by (auto simp: fb'_def fb_ok_def)
qed

section \<open>The place of the framebuffer\<close>

lemma plot_place [preserves_intros]: "preserves fb_place (LinearFramebuffer_plot x y color)"
  unfolding LinearFramebuffer_plot_def by (intro preserves_intros) simp

lemma plot_bits_place [preserves_intros]:
  "preserves fb_place (plot_bits x y width height color background g bits cx cy)"
  by (induction bits arbitrary: cx cy) (auto simp: Let_def intro!: preserves_intros)

lemma plot_bytes_place [preserves_intros]:
  "preserves fb_place (plot_bytes x y width height color background gs cx cy)"
  by (induction gs arbitrary: cx cy) (auto intro!: preserves_intros)

lemma plot_glyph_place [preserves_intros]:
  "preserves fb_place (LinearFramebuffer_plot_glyph x y width height gs color background)"
  unfolding LinearFramebuffer_plot_glyph_def by (intro preserves_intros)

lemma scroll_place [preserves_intros]: "preserves fb_place (LinearFramebuffer_scroll layers color)"
  unfolding LinearFramebuffer_scroll_def copy_to_start_def write_raw_def by (intro preserves_intros) simp_all

end
