(* ===== verification/Vga_Text_Emulation.thy ===== *)
theory Vga_Text_Emulation
  imports Linear_Framebuffer
begin

text \<open>
  \<open>display/vga_text_emulation.rs\<close>: the bitmap font, the text cells of 8 by 16 pixels on a linear
  framebuffer and the colours. The font array is written in five groups (control characters; punctuation,
  32 to 47; digits to \<open>@\<close>, 48 to 64; 65 to 96; 97 to 127). The lemmas say which pixels \<open>put_char\<close> and \<open>scroll\<close>
  change, first pixel by pixel and then cell by cell.
\<close>

definition VGA_FONT_WIDTH :: usize where
  "VGA_FONT_WIDTH = 8"

definition VGA_FONT_HEIGHT :: usize where
  "VGA_FONT_HEIGHT = 16"

section \<open>The font\<close>

definition FONT_CONTROL :: "u8 list list" where
  "FONT_CONTROL = replicate 32 (replicate 16 0)"

definition FONT_PUNCTUATION :: "u8 list list" where
  "FONT_PUNCTUATION = [
    replicate 16 0,
    [0x00, 0x00, 0x18, 0x3C, 0x3C, 0x3C, 0x18, 0x18, 0x18, 0x00, 0x18, 0x18, 0x00, 0x00, 0x00, 0x00],
    [0x00, 0x66, 0x66, 0x66, 0x24, 0x00, 0x00, 0x00, 0x00, 0x00, 0x00, 0x00, 0x00, 0x00, 0x00, 0x00],
    [0x00, 0x00, 0x00, 0x6C, 0x6C, 0xFE, 0x6C, 0x6C, 0x6C, 0xFE, 0x6C, 0x6C, 0x00, 0x00, 0x00, 0x00],
    [0x18, 0x18, 0x7C, 0xC6, 0xC2, 0xC0, 0x7C, 0x06, 0x06, 0x86, 0xC6, 0x7C, 0x18, 0x18, 0x00, 0x00],
    [0x00, 0x00, 0x00, 0x00, 0xC2, 0xC6, 0x0C, 0x18, 0x30, 0x60, 0xC6, 0x86, 0x00, 0x00, 0x00, 0x00],
    [0x00, 0x00, 0x38, 0x6C, 0x6C, 0x38, 0x76, 0xDC, 0xCC, 0xCC, 0xCC, 0x76, 0x00, 0x00, 0x00, 0x00],
    [0x00, 0x30, 0x30, 0x30, 0x60, 0x00, 0x00, 0x00, 0x00, 0x00, 0x00, 0x00, 0x00, 0x00, 0x00, 0x00],
    [0x00, 0x00, 0x0C, 0x18, 0x30, 0x30, 0x30, 0x30, 0x30, 0x30, 0x18, 0x0C, 0x00, 0x00, 0x00, 0x00],
    [0x00, 0x00, 0x30, 0x18, 0x0C, 0x0C, 0x0C, 0x0C, 0x0C, 0x0C, 0x18, 0x30, 0x00, 0x00, 0x00, 0x00],
    [0x00, 0x00, 0x00, 0x00, 0x00, 0x66, 0x3C, 0xFF, 0x3C, 0x66, 0x00, 0x00, 0x00, 0x00, 0x00, 0x00],
    [0x00, 0x00, 0x00, 0x00, 0x00, 0x18, 0x18, 0x7E, 0x18, 0x18, 0x00, 0x00, 0x00, 0x00, 0x00, 0x00],
    [0x00, 0x00, 0x00, 0x00, 0x00, 0x00, 0x00, 0x00, 0x00, 0x18, 0x18, 0x18, 0x30, 0x00, 0x00, 0x00],
    [0x00, 0x00, 0x00, 0x00, 0x00, 0x00, 0x00, 0x7E, 0x00, 0x00, 0x00, 0x00, 0x00, 0x00, 0x00, 0x00],
    [0x00, 0x00, 0x00, 0x00, 0x00, 0x00, 0x00, 0x00, 0x00, 0x00, 0x18, 0x18, 0x00, 0x00, 0x00, 0x00],
    [0x00, 0x00, 0x00, 0x00, 0x02, 0x06, 0x0C, 0x18, 0x30, 0x60, 0xC0, 0x80, 0x00, 0x00, 0x00, 0x00]]"

definition FONT_DIGITS :: "u8 list list" where
  "FONT_DIGITS = [
    [0x00, 0x00, 0x7C, 0xC6, 0xC6, 0xCE, 0xDE, 0xF6, 0xE6, 0xC6, 0xC6, 0x7C, 0x00, 0x00, 0x00, 0x00],
    [0x00, 0x00, 0x18, 0x38, 0x78, 0x18, 0x18, 0x18, 0x18, 0x18, 0x18, 0x7E, 0x00, 0x00, 0x00, 0x00],
    [0x00, 0x00, 0x7C, 0xC6, 0x06, 0x0C, 0x18, 0x30, 0x60, 0xC0, 0xC6, 0xFE, 0x00, 0x00, 0x00, 0x00],
    [0x00, 0x00, 0x7C, 0xC6, 0x06, 0x06, 0x3C, 0x06, 0x06, 0x06, 0xC6, 0x7C, 0x00, 0x00, 0x00, 0x00],
    [0x00, 0x00, 0x0C, 0x1C, 0x3C, 0x6C, 0xCC, 0xFE, 0x0C, 0x0C, 0x0C, 0x1E, 0x00, 0x00, 0x00, 0x00],
    [0x00, 0x00, 0xFE, 0xC0, 0xC0, 0xC0, 0xFC, 0x06, 0x06, 0x06, 0xC6, 0x7C, 0x00, 0x00, 0x00, 0x00],
    [0x00, 0x00, 0x38, 0x60, 0xC0, 0xC0, 0xFC, 0xC6, 0xC6, 0xC6, 0xC6, 0x7C, 0x00, 0x00, 0x00, 0x00],
    [0x00, 0x00, 0xFE, 0xC6, 0x06, 0x06, 0x0C, 0x18, 0x30, 0x30, 0x30, 0x30, 0x00, 0x00, 0x00, 0x00],
    [0x00, 0x00, 0x7C, 0xC6, 0xC6, 0xC6, 0x7C, 0xC6, 0xC6, 0xC6, 0xC6, 0x7C, 0x00, 0x00, 0x00, 0x00],
    [0x00, 0x00, 0x7C, 0xC6, 0xC6, 0xC6, 0x7E, 0x06, 0x06, 0x06, 0x0C, 0x78, 0x00, 0x00, 0x00, 0x00],
    [0x00, 0x00, 0x00, 0x00, 0x18, 0x18, 0x00, 0x00, 0x00, 0x18, 0x18, 0x00, 0x00, 0x00, 0x00, 0x00],
    [0x00, 0x00, 0x00, 0x00, 0x18, 0x18, 0x00, 0x00, 0x00, 0x18, 0x18, 0x30, 0x00, 0x00, 0x00, 0x00],
    [0x00, 0x00, 0x00, 0x06, 0x0C, 0x18, 0x30, 0x60, 0x30, 0x18, 0x0C, 0x06, 0x00, 0x00, 0x00, 0x00],
    [0x00, 0x00, 0x00, 0x00, 0x00, 0x7E, 0x00, 0x00, 0x7E, 0x00, 0x00, 0x00, 0x00, 0x00, 0x00, 0x00],
    [0x00, 0x00, 0x00, 0x60, 0x30, 0x18, 0x0C, 0x06, 0x0C, 0x18, 0x30, 0x60, 0x00, 0x00, 0x00, 0x00],
    [0x00, 0x00, 0x7C, 0xC6, 0xC6, 0x0C, 0x18, 0x18, 0x18, 0x00, 0x18, 0x18, 0x00, 0x00, 0x00, 0x00],
    [0x00, 0x00, 0x7C, 0xC6, 0xC6, 0xC6, 0xDE, 0xDE, 0xDE, 0xDC, 0xC0, 0x7C, 0x00, 0x00, 0x00, 0x00]]"

definition FONT_UPPER :: "u8 list list" where
  "FONT_UPPER = [
    [0x00, 0x00, 0x10, 0x38, 0x6C, 0xC6, 0xC6, 0xFE, 0xC6, 0xC6, 0xC6, 0xC6, 0x00, 0x00, 0x00, 0x00],
    [0x00, 0x00, 0xFC, 0x66, 0x66, 0x66, 0x7C, 0x66, 0x66, 0x66, 0x66, 0xFC, 0x00, 0x00, 0x00, 0x00],
    [0x00, 0x00, 0x3C, 0x66, 0xC2, 0xC0, 0xC0, 0xC0, 0xC0, 0xC2, 0x66, 0x3C, 0x00, 0x00, 0x00, 0x00],
    [0x00, 0x00, 0xF8, 0x6C, 0x66, 0x66, 0x66, 0x66, 0x66, 0x66, 0x6C, 0xF8, 0x00, 0x00, 0x00, 0x00],
    [0x00, 0x00, 0xFE, 0x66, 0x62, 0x68, 0x78, 0x68, 0x60, 0x62, 0x66, 0xFE, 0x00, 0x00, 0x00, 0x00],
    [0x00, 0x00, 0xFE, 0x66, 0x62, 0x68, 0x78, 0x68, 0x60, 0x60, 0x60, 0xF0, 0x00, 0x00, 0x00, 0x00],
    [0x00, 0x00, 0x3C, 0x66, 0xC2, 0xC0, 0xC0, 0xDE, 0xC6, 0xC6, 0x66, 0x3A, 0x00, 0x00, 0x00, 0x00],
    [0x00, 0x00, 0xC6, 0xC6, 0xC6, 0xC6, 0xFE, 0xC6, 0xC6, 0xC6, 0xC6, 0xC6, 0x00, 0x00, 0x00, 0x00],
    [0x00, 0x00, 0x3C, 0x18, 0x18, 0x18, 0x18, 0x18, 0x18, 0x18, 0x18, 0x3C, 0x00, 0x00, 0x00, 0x00],
    [0x00, 0x00, 0x1E, 0x0C, 0x0C, 0x0C, 0x0C, 0x0C, 0xCC, 0xCC, 0xCC, 0x78, 0x00, 0x00, 0x00, 0x00],
    [0x00, 0x00, 0xE6, 0x66, 0x66, 0x6C, 0x78, 0x78, 0x6C, 0x66, 0x66, 0xE6, 0x00, 0x00, 0x00, 0x00],
    [0x00, 0x00, 0xF0, 0x60, 0x60, 0x60, 0x60, 0x60, 0x60, 0x62, 0x66, 0xFE, 0x00, 0x00, 0x00, 0x00],
    [0x00, 0x00, 0xC6, 0xEE, 0xFE, 0xFE, 0xD6, 0xC6, 0xC6, 0xC6, 0xC6, 0xC6, 0x00, 0x00, 0x00, 0x00],
    [0x00, 0x00, 0xC6, 0xE6, 0xF6, 0xFE, 0xDE, 0xCE, 0xC6, 0xC6, 0xC6, 0xC6, 0x00, 0x00, 0x00, 0x00],
    [0x00, 0x00, 0x7C, 0xC6, 0xC6, 0xC6, 0xC6, 0xC6, 0xC6, 0xC6, 0xC6, 0x7C, 0x00, 0x00, 0x00, 0x00],
    [0x00, 0x00, 0xFC, 0x66, 0x66, 0x66, 0x7C, 0x60, 0x60, 0x60, 0x60, 0xF0, 0x00, 0x00, 0x00, 0x00],
    [0x00, 0x00, 0x7C, 0xC6, 0xC6, 0xC6, 0xC6, 0xC6, 0xC6, 0xD6, 0xDE, 0x7C, 0x0C, 0x0E, 0x00, 0x00],
    [0x00, 0x00, 0xFC, 0x66, 0x66, 0x66, 0x7C, 0x6C, 0x66, 0x66, 0x66, 0xE6, 0x00, 0x00, 0x00, 0x00],
    [0x00, 0x00, 0x7C, 0xC6, 0xC6, 0x60, 0x38, 0x0C, 0x06, 0xC6, 0xC6, 0x7C, 0x00, 0x00, 0x00, 0x00],
    [0x00, 0x00, 0x7E, 0x7E, 0x5A, 0x18, 0x18, 0x18, 0x18, 0x18, 0x18, 0x3C, 0x00, 0x00, 0x00, 0x00],
    [0x00, 0x00, 0xC6, 0xC6, 0xC6, 0xC6, 0xC6, 0xC6, 0xC6, 0xC6, 0xC6, 0x7C, 0x00, 0x00, 0x00, 0x00],
    [0x00, 0x00, 0xC6, 0xC6, 0xC6, 0xC6, 0xC6, 0xC6, 0xC6, 0x6C, 0x38, 0x10, 0x00, 0x00, 0x00, 0x00],
    [0x00, 0x00, 0xC6, 0xC6, 0xC6, 0xC6, 0xD6, 0xD6, 0xD6, 0xFE, 0xEE, 0x6C, 0x00, 0x00, 0x00, 0x00],
    [0x00, 0x00, 0xC6, 0xC6, 0x6C, 0x7C, 0x38, 0x38, 0x7C, 0x6C, 0xC6, 0xC6, 0x00, 0x00, 0x00, 0x00],
    [0x00, 0x00, 0x66, 0x66, 0x66, 0x66, 0x3C, 0x18, 0x18, 0x18, 0x18, 0x3C, 0x00, 0x00, 0x00, 0x00],
    [0x00, 0x00, 0xFE, 0xC6, 0x86, 0x0C, 0x18, 0x30, 0x60, 0xC2, 0xC6, 0xFE, 0x00, 0x00, 0x00, 0x00],
    [0x00, 0x00, 0x3C, 0x30, 0x30, 0x30, 0x30, 0x30, 0x30, 0x30, 0x30, 0x3C, 0x00, 0x00, 0x00, 0x00],
    [0x00, 0x00, 0x00, 0x80, 0xC0, 0xE0, 0x70, 0x38, 0x1C, 0x0E, 0x06, 0x02, 0x00, 0x00, 0x00, 0x00],
    [0x00, 0x00, 0x3C, 0x0C, 0x0C, 0x0C, 0x0C, 0x0C, 0x0C, 0x0C, 0x0C, 0x3C, 0x00, 0x00, 0x00, 0x00],
    [0x10, 0x38, 0x6C, 0xC6, 0x00, 0x00, 0x00, 0x00, 0x00, 0x00, 0x00, 0x00, 0x00, 0x00, 0x00, 0x00],
    [0x00, 0x00, 0x00, 0x00, 0x00, 0x00, 0x00, 0x00, 0x00, 0x00, 0x00, 0x00, 0x00, 0xFF, 0x00, 0x00],
    [0x30, 0x30, 0x18, 0x00, 0x00, 0x00, 0x00, 0x00, 0x00, 0x00, 0x00, 0x00, 0x00, 0x00, 0x00, 0x00]]"

definition FONT_LOWER :: "u8 list list" where
  "FONT_LOWER = [
    [0x00, 0x00, 0x00, 0x00, 0x00, 0x78, 0x0C, 0x7C, 0xCC, 0xCC, 0xCC, 0x76, 0x00, 0x00, 0x00, 0x00],
    [0x00, 0x00, 0xE0, 0x60, 0x60, 0x78, 0x6C, 0x66, 0x66, 0x66, 0x66, 0x7C, 0x00, 0x00, 0x00, 0x00],
    [0x00, 0x00, 0x00, 0x00, 0x00, 0x7C, 0xC6, 0xC0, 0xC0, 0xC0, 0xC6, 0x7C, 0x00, 0x00, 0x00, 0x00],
    [0x00, 0x00, 0x1C, 0x0C, 0x0C, 0x3C, 0x6C, 0xCC, 0xCC, 0xCC, 0xCC, 0x76, 0x00, 0x00, 0x00, 0x00],
    [0x00, 0x00, 0x00, 0x00, 0x00, 0x7C, 0xC6, 0xFE, 0xC0, 0xC0, 0xC6, 0x7C, 0x00, 0x00, 0x00, 0x00],
    [0x00, 0x00, 0x38, 0x6C, 0x64, 0x60, 0xF0, 0x60, 0x60, 0x60, 0x60, 0xF0, 0x00, 0x00, 0x00, 0x00],
    [0x00, 0x00, 0x00, 0x00, 0x00, 0x76, 0xCC, 0xCC, 0xCC, 0xCC, 0xCC, 0x7C, 0x0C, 0xCC, 0x78, 0x00],
    [0x00, 0x00, 0xE0, 0x60, 0x60, 0x6C, 0x76, 0x66, 0x66, 0x66, 0x66, 0xE6, 0x00, 0x00, 0x00, 0x00],
    [0x00, 0x00, 0x18, 0x18, 0x00, 0x38, 0x18, 0x18, 0x18, 0x18, 0x18, 0x3C, 0x00, 0x00, 0x00, 0x00],
    [0x00, 0x00, 0x06, 0x06, 0x00, 0x0E, 0x06, 0x06, 0x06, 0x06, 0x06, 0x06, 0x66, 0x66, 0x3C, 0x00],
    [0x00, 0x00, 0xE0, 0x60, 0x60, 0x66, 0x6C, 0x78, 0x78, 0x6C, 0x66, 0xE6, 0x00, 0x00, 0x00, 0x00],
    [0x00, 0x00, 0x38, 0x18, 0x18, 0x18, 0x18, 0x18, 0x18, 0x18, 0x18, 0x3C, 0x00, 0x00, 0x00, 0x00],
    [0x00, 0x00, 0x00, 0x00, 0x00, 0xEC, 0xFE, 0xD6, 0xD6, 0xD6, 0xD6, 0xC6, 0x00, 0x00, 0x00, 0x00],
    [0x00, 0x00, 0x00, 0x00, 0x00, 0xDC, 0x66, 0x66, 0x66, 0x66, 0x66, 0x66, 0x00, 0x00, 0x00, 0x00],
    [0x00, 0x00, 0x00, 0x00, 0x00, 0x7C, 0xC6, 0xC6, 0xC6, 0xC6, 0xC6, 0x7C, 0x00, 0x00, 0x00, 0x00],
    [0x00, 0x00, 0x00, 0x00, 0x00, 0xDC, 0x66, 0x66, 0x66, 0x66, 0x66, 0x7C, 0x60, 0x60, 0xF0, 0x00],
    [0x00, 0x00, 0x00, 0x00, 0x00, 0x76, 0xCC, 0xCC, 0xCC, 0xCC, 0xCC, 0x7C, 0x0C, 0x0C, 0x1E, 0x00],
    [0x00, 0x00, 0x00, 0x00, 0x00, 0xDC, 0x76, 0x66, 0x60, 0x60, 0x60, 0xF0, 0x00, 0x00, 0x00, 0x00],
    [0x00, 0x00, 0x00, 0x00, 0x00, 0x7C, 0xC6, 0x60, 0x38, 0x0C, 0xC6, 0x7C, 0x00, 0x00, 0x00, 0x00],
    [0x00, 0x00, 0x10, 0x30, 0x30, 0xFC, 0x30, 0x30, 0x30, 0x30, 0x36, 0x1C, 0x00, 0x00, 0x00, 0x00],
    [0x00, 0x00, 0x00, 0x00, 0x00, 0xCC, 0xCC, 0xCC, 0xCC, 0xCC, 0xCC, 0x76, 0x00, 0x00, 0x00, 0x00],
    [0x00, 0x00, 0x00, 0x00, 0x00, 0xC6, 0xC6, 0xC6, 0xC6, 0xC6, 0x6C, 0x38, 0x00, 0x00, 0x00, 0x00],
    [0x00, 0x00, 0x00, 0x00, 0x00, 0xC6, 0xC6, 0xD6, 0xD6, 0xD6, 0xFE, 0x6C, 0x00, 0x00, 0x00, 0x00],
    [0x00, 0x00, 0x00, 0x00, 0x00, 0xC6, 0x6C, 0x38, 0x38, 0x38, 0x6C, 0xC6, 0x00, 0x00, 0x00, 0x00],
    [0x00, 0x00, 0x00, 0x00, 0x00, 0xC6, 0xC6, 0xC6, 0xC6, 0xC6, 0xC6, 0x7E, 0x06, 0x0C, 0xF8, 0x00],
    [0x00, 0x00, 0x00, 0x00, 0x00, 0xFE, 0xCC, 0x18, 0x30, 0x60, 0xC6, 0xFE, 0x00, 0x00, 0x00, 0x00],
    [0x00, 0x00, 0x0E, 0x18, 0x18, 0x18, 0x70, 0x18, 0x18, 0x18, 0x18, 0x0E, 0x00, 0x00, 0x00, 0x00],
    [0x00, 0x00, 0x18, 0x18, 0x18, 0x18, 0x18, 0x18, 0x18, 0x18, 0x18, 0x18, 0x00, 0x00, 0x00, 0x00],
    [0x00, 0x00, 0x70, 0x18, 0x18, 0x18, 0x0E, 0x18, 0x18, 0x18, 0x18, 0x70, 0x00, 0x00, 0x00, 0x00],
    [0x00, 0x00, 0x76, 0xDC, 0x00, 0x00, 0x00, 0x00, 0x00, 0x00, 0x00, 0x00, 0x00, 0x00, 0x00, 0x00],
    replicate 16 0]"

definition VGA_BASIC_FONT :: "u8 list list" where
  "VGA_BASIC_FONT = FONT_CONTROL @ FONT_PUNCTUATION @ FONT_DIGITS @ FONT_UPPER @ FONT_LOWER"

definition UNKNOWN_CHARACTER :: "u8 list" where
  "UNKNOWN_CHARACTER = [
    0x00, 0x00, 0xFF, 0xC1, 0xA1, 0xA1, 0x91, 0x91, 0x89, 0x89, 0x85, 0x85, 0x83, 0xFF, 0x00, 0x00]"

definition get_char_glyph :: "u8 \<Rightarrow> ('e, u8 list) outcome" where
  "get_char_glyph c = (if c > 127 then Ok UNKNOWN_CHARACTER else index_slice VGA_BASIC_FONT (unat c))"

section \<open>Operations on text cells\<close>

definition get_text_buffer_dimensions :: "LinearFramebuffer \<Rightarrow> usize \<times> usize" where
  "get_text_buffer_dimensions lfb =
     (fst (dimensions lfb) div VGA_FONT_WIDTH, snd (dimensions lfb) div VGA_FONT_HEIGHT)"

definition put_char ::
    "usize \<Rightarrow> usize \<Rightarrow> u32 \<Rightarrow> u32 \<Rightarrow> u8 \<Rightarrow> (LinearFramebuffer, 'e, unit) prog" where
  "put_char column row color background_color c =
     try_prog (reads (\<lambda>_. mul64 column VGA_FONT_WIDTH)) (\<lambda>x.
     try_prog (reads (\<lambda>_. mul64 row VGA_FONT_HEIGHT)) (\<lambda>y.
     try_prog (reads (\<lambda>_. get_char_glyph c)) (\<lambda>glyph.
     unwrap_prog (LinearFramebuffer_plot_glyph x y VGA_FONT_WIDTH VGA_FONT_HEIGHT glyph color background_color))))"

definition scroll :: "usize \<Rightarrow> u32 \<Rightarrow> (LinearFramebuffer, 'e, unit) prog" where
  "scroll rows background =
     try_prog (reads (\<lambda>_. mul64 rows VGA_FONT_HEIGHT)) (\<lambda>layers. LinearFramebuffer_scroll layers background)"

datatype VgaColor =
    Black | Blue | Green | Cyan | Red | Magenta | Brown | LightGray
  | DarkGray | LightBlue | LightGreen | LightCyan | LightRed | Pink | Yellow | White

fun VgaColor_as_u32 :: "VgaColor \<Rightarrow> u32" where
  "VgaColor_as_u32 Black = 0x0"
| "VgaColor_as_u32 Blue = 0xAA"
| "VgaColor_as_u32 Green = 0xAA00"
| "VgaColor_as_u32 Cyan = 0xAAAA"
| "VgaColor_as_u32 Red = 0xAA0000"
| "VgaColor_as_u32 Magenta = 0xAA00AA"
| "VgaColor_as_u32 Brown = 0xAAAA00"
| "VgaColor_as_u32 LightGray = 0xAAAAAA"
| "VgaColor_as_u32 DarkGray = 0x555555"
| "VgaColor_as_u32 LightBlue = 0x5555FF"
| "VgaColor_as_u32 LightGreen = 0x55FF55"
| "VgaColor_as_u32 LightCyan = 0x55FFFF"
| "VgaColor_as_u32 LightRed = 0xFF5555"
| "VgaColor_as_u32 Pink = 0xFF55FF"
| "VgaColor_as_u32 Yellow = 0xFFFF55"
| "VgaColor_as_u32 White = 0xFFFFFF"

section \<open>Every character has a glyph\<close>

lemma font_parts:
  "length FONT_CONTROL = 32 \<and> list_all (\<lambda>g. length g = 16) FONT_CONTROL"
  "length FONT_PUNCTUATION = 16 \<and> list_all (\<lambda>g. length g = 16) FONT_PUNCTUATION"
  "length FONT_DIGITS = 17 \<and> list_all (\<lambda>g. length g = 16) FONT_DIGITS"
  "length FONT_UPPER = 32 \<and> list_all (\<lambda>g. length g = 16) FONT_UPPER"
  "length FONT_LOWER = 31 \<and> list_all (\<lambda>g. length g = 16) FONT_LOWER"
  by (simp_all add: FONT_CONTROL_def FONT_PUNCTUATION_def FONT_DIGITS_def FONT_UPPER_def FONT_LOWER_def
      list_all_iff)

lemma font_shape: "length VGA_BASIC_FONT = 128 \<and> list_all (\<lambda>g. length g = 16) VGA_BASIC_FONT"
  using font_parts by (simp add: VGA_BASIC_FONT_def)

text \<open>The glyph \<open>get_char_glyph\<close> returns.\<close>

definition glyph_of :: "u8 \<Rightarrow> u8 list" where
  "glyph_of c = (if c > 127 then UNKNOWN_CHARACTER else VGA_BASIC_FONT ! unat c)"

lemma get_char_glyph_eq: "get_char_glyph c = Ok (glyph_of c)"
proof (cases "c > 127")
  case False
  then have "unat c < length VGA_BASIC_FONT"
    using font_shape by (simp add: word_less_nat_alt)
  with False show ?thesis
    by (simp add: get_char_glyph_def glyph_of_def)
qed (simp add: get_char_glyph_def glyph_of_def)

lemma length_glyph_of: "length (glyph_of c) = 16"
proof (cases "c > 127")
  case False
  then have "unat c < length VGA_BASIC_FONT"
    using font_shape by (simp add: word_less_nat_alt)
  with False show ?thesis
    using font_shape by (simp add: glyph_of_def list_all_length)
qed (simp add: glyph_of_def UNKNOWN_CHARACTER_def)

section \<open>Cells\<close>

text \<open>
  The picture in the cell at a column and a row, and the picture of a character: a function of the
  position inside the cell.
\<close>

definition cell_shows :: "LinearFramebuffer \<Rightarrow> nat \<Rightarrow> nat \<Rightarrow> (nat \<Rightarrow> nat \<Rightarrow> u32) \<Rightarrow> bool" where
  "cell_shows fb column row picture \<longleftrightarrow>
     (\<forall>i < VGA_FONT_WIDTH. \<forall>j < VGA_FONT_HEIGHT.
        pixel fb (column * VGA_FONT_WIDTH + i) (row * VGA_FONT_HEIGHT + j) = picture i j)"

definition char_picture :: "u32 \<Rightarrow> u32 \<Rightarrow> u8 \<Rightarrow> nat \<Rightarrow> nat \<Rightarrow> u32" where
  "char_picture color background c = (\<lambda>i j. glyph_color color background (glyph_of c ! j) i)"

definition cell_on_screen :: "LinearFramebuffer \<Rightarrow> nat \<Rightarrow> nat \<Rightarrow> bool" where
  "cell_on_screen fb column row \<longleftrightarrow>
     column < fst (get_text_buffer_dimensions fb) \<and> row < snd (get_text_buffer_dimensions fb)"

lemmas font_size = VGA_FONT_WIDTH_def VGA_FONT_HEIGHT_def

lemma cell_fits:
  assumes "cell_on_screen fb column row"
  shows "column * 8 + 8 \<le> fst (dimensions fb)" "row * 16 + 16 \<le> snd (dimensions fb)"
  using assms by (auto simp: cell_on_screen_def get_text_buffer_dimensions_def font_size)

lemma cell_pixel_on_screen:
  assumes "cell_on_screen fb column row" "i < 8" "j < 16"
  shows "on_screen fb (column * 8 + i) (row * 16 + j)"
  using cell_fits [OF assms(1)] assms(2,3) by (auto simp: on_screen_def)

lemma cell_on_screen_cong:
  "dimensions fb' = dimensions fb \<Longrightarrow> cell_on_screen fb' = cell_on_screen fb"
  by (simp add: cell_on_screen_def get_text_buffer_dimensions_def fun_eq_iff)

lemma put_char_pixels:
  assumes ok: "fb_ok fb" and cell: "cell_on_screen fb column row"
  shows "\<exists>fb'. (put_char column row color background c :: (LinearFramebuffer, 'e, unit) prog) fb = (Ok (), fb') \<and> fb_ok fb' \<and>
    dimensions fb' = dimensions fb \<and> (\<forall>x y. on_screen fb x y \<longrightarrow> pixel fb' x y =
      (if row * 16 \<le> y \<and> y < row * 16 + 16 \<and> column * 8 \<le> x \<and> x < column * 8 + 8
       then char_picture color background c (x - column * 8) (y - row * 16) else pixel fb x y))"
proof -
  note fits = cell_fits [OF cell]
  have small: "column * 8 < 2 ^ 64" "row * 16 < 2 ^ 64"
    using fits ok by (auto simp: fb_ok_def)
  have g: "length (glyph_of c) = 16" "glyph_of c \<noteq> []"
    using length_glyph_of [of c] by auto
  have fits': "row * 16 + length (glyph_of c) \<le> snd (dimensions fb)"
    using fits(2) g(1) by simp
  obtain fb' where fb': "LinearFramebuffer_plot_glyph (column * 8) (row * 16) 8 16 (glyph_of c) color background fb
      = (Ok (), fb')" "fb_ok fb'" "dimensions fb' = dimensions fb"
    "\<forall>x y. on_screen fb x y \<longrightarrow> pixel fb' x y =
      (if row * 16 \<le> y \<and> y < row * 16 + 16 \<and> column * 8 \<le> x \<and> x < column * 8 + 8
       then glyph_color color background (glyph_of c ! (y - row * 16)) (x - column * 8) else pixel fb x y)"
    using plot_glyph_pixels [OF ok fits(1) fits' g(2), of color background] unfolding g(1) by blast
  have "(put_char column row color background c :: (LinearFramebuffer, 'e, unit) prog) fb = (Ok (), fb')"
    using small fb'(1) by (simp add: put_char_def font_size mul64_def get_char_glyph_eq)
  then show ?thesis
    using fb' by (auto simp: char_picture_def)
qed

lemma put_char_outside:
  assumes "\<not> cell_on_screen fb column row" "row < 2 ^ 32" "column < 2 ^ 32"
  shows "put_char column row color background c fb = (Panic UnwrapFailed, fb)"
proof -
  have "fst (dimensions fb) < column * 8 + 8 \<or> snd (dimensions fb) < row * 16 + 16"
    using assms(1) by (auto simp: cell_on_screen_def get_text_buffer_dimensions_def font_size)
  then have "LinearFramebuffer_plot_glyph (column * 8) (row * 16) 8 16 (glyph_of c) color background fb =
      (Err FramebufferOutOfBounds, fb)"
    using assms(2,3) by (intro plot_glyph_outside) auto
  then show ?thesis
    using assms(2,3) by (simp add: put_char_def font_size mul64_def get_char_glyph_eq unwrap_prog_def)
qed

lemma put_char_cells:
  assumes ok: "fb_ok fb" and cell: "cell_on_screen fb column row"
  shows "\<exists>fb'. (put_char column row color background c :: (LinearFramebuffer, 'e, unit) prog) fb = (Ok (), fb') \<and> fb_ok fb' \<and>
    dimensions fb' = dimensions fb \<and>
    cell_shows fb' column row (char_picture color background c) \<and>
    (\<forall>column' row' p. cell_on_screen fb column' row' \<longrightarrow> (column', row') \<noteq> (column, row) \<longrightarrow>
       cell_shows fb' column' row' p = cell_shows fb column' row' p)"
proof -
  obtain fb' where fb': "(put_char column row color background c :: (LinearFramebuffer, 'e, unit) prog) fb = (Ok (), fb')" "fb_ok fb'"
    "dimensions fb' = dimensions fb"
    "\<And>x y. on_screen fb x y \<Longrightarrow> pixel fb' x y =
      (if row * 16 \<le> y \<and> y < row * 16 + 16 \<and> column * 8 \<le> x \<and> x < column * 8 + 8
       then char_picture color background c (x - column * 8) (y - row * 16) else pixel fb x y)"
    using put_char_pixels [OF assms, of color background c, where 'e = 'e] by blast
  have "cell_shows fb' column row (char_picture color background c)"
    using cell_pixel_on_screen [OF cell] by (auto simp: cell_shows_def font_size fb'(4))
  moreover have "cell_shows fb' column' row' p = cell_shows fb column' row' p"
    if c': "cell_on_screen fb column' row'" "(column', row') \<noteq> (column, row)" for column' row' p
  proof -
    have "pixel fb' (column' * 8 + i) (row' * 16 + j) = pixel fb (column' * 8 + i) (row' * 16 + j)"
      if "i < 8" "j < 16" for i j
      using fb'(4) [OF cell_pixel_on_screen [OF c'(1) that]] c'(2) that by auto
    then show ?thesis
      by (simp add: cell_shows_def font_size)
  qed
  ultimately show ?thesis
    using fb'(1-3) by blast
qed

text \<open>
  When the height is a whole number of text rows, scrolling by one moves every row of cells up and
  leaves the last one in the background colour.
\<close>

lemma scroll_cells:
  assumes ok: "fb_ok fb" and rows: "snd (dimensions fb) = 16 * n" "0 < n"
  shows "\<exists>fb'. (scroll 1 background :: (LinearFramebuffer, 'e, unit) prog) fb = (Ok (), fb') \<and> fb_ok fb' \<and> dimensions fb' = dimensions fb \<and>
    (\<forall>column row p. cell_on_screen fb column row \<longrightarrow> cell_shows fb' column row p =
      (if row + 1 < n then cell_shows fb column (row + 1) p
       else \<forall>i < VGA_FONT_WIDTH. \<forall>j < VGA_FONT_HEIGHT. p i j = background))"
proof -
  have "16 \<le> snd (dimensions fb)"
    using rows by simp
  then obtain fb' where fb': "(LinearFramebuffer_scroll 16 background :: (LinearFramebuffer, 'e, unit) prog) fb = (Ok (), fb')" "fb_ok fb'"
    "dimensions fb' = dimensions fb"
    "\<And>x y. on_screen fb x y \<Longrightarrow> pixel fb' x y = (if y + 16 < 16 * n then pixel fb x (y + 16) else background)"
    using scroll_pixels [OF ok, of 16 background, where 'a = 'e] rows by auto
  have "cell_shows fb' column row p =
      (if row + 1 < n then cell_shows fb column (row + 1) p
       else \<forall>i < VGA_FONT_WIDTH. \<forall>j < VGA_FONT_HEIGHT. p i j = background)"
    if cell: "cell_on_screen fb column row" for column row p
  proof -
    have "pixel fb' (column * 8 + i) (row * 16 + j) =
        (if row + 1 < n then pixel fb (column * 8 + i) ((row + 1) * 16 + j) else background)"
      if "i < 8" "j < 16" for i j
    proof -
      have "row * 16 + j + 16 < 16 * n \<longleftrightarrow> row + 1 < n"
        using that(2) by linarith
      moreover have "row * 16 + j + 16 = (row + 1) * 16 + j"
        by simp
      ultimately show ?thesis
        using fb'(4) [OF cell_pixel_on_screen [OF cell that]] by (simp only:)
    qed
    then show ?thesis
      by (auto simp: cell_shows_def font_size)
  qed
  moreover have "(scroll 1 background :: (LinearFramebuffer, 'e, unit) prog) fb = (Ok (), fb')"
    using fb'(1) by (simp add: scroll_def font_size mul64_def)
  ultimately show ?thesis
    using fb'(2,3) by blast
qed

section \<open>The place of the framebuffer\<close>

lemma text_cells_place [preserves_intros]:
  "preserves fb_place (put_char column row color background c)" "preserves fb_place (scroll n background)"
  unfolding put_char_def scroll_def by (intro preserves_intros)+

end
