(* ===== verification/Vga_Text_Writer.thy ===== *)
theory Vga_Text_Writer
  imports Vga_Text_Emulation
begin

text \<open>
  \<open>display/vga_text_writer.rs\<close>: the writer that keeps a cursor over the text cells of a framebuffer.
  A Rust \<open>char\<close> is its code point, a natural number, and a string the list of its characters.

  The second half specifies the writer as an ideal text screen, a grid of pictures with a cursor, and shows
  that the writer refines it: on a framebuffer whose height is a whole number of text rows every string is
  written without a panic and the cells show what the ideal screen holds.
\<close>


definition TAB_SIZE :: usize where
  "TAB_SIZE = 4"

definition DEFAULT_COLOR :: VgaColor where
  "DEFAULT_COLOR = LightGray"

record VGAWriter =
  lfb :: LinearFramebuffer
  column :: usize
  row :: usize
  default_text :: u32
  default_background :: u32
  scrolling :: bool

definition on_lfb :: "(LinearFramebuffer, 'e, 'a) prog \<Rightarrow> (VGAWriter, 'e, 'a) prog" where
  "on_lfb = zoom lfb (\<lambda>fb self. self\<lparr>lfb := fb\<rparr>)"

section \<open>Operations\<close>

definition VGAWriter_new :: "LinearFramebuffer \<Rightarrow> bool \<Rightarrow> u32 \<Rightarrow> u32 \<Rightarrow> VGAWriter" where
  "VGAWriter_new fb scr text background =
     \<lparr>lfb = fb, column = 0, row = 0, default_text = text, default_background = background, scrolling = scr\<rparr>"

definition VGAWriter_new_line :: "(VGAWriter, 'e, unit) prog" where
  "VGAWriter_new_line =
     try_prog (modifies (\<lambda>self. self\<lparr>column := 0\<rparr>)) (\<lambda>_.
     try_prog (reads (\<lambda>self. sub64 (snd (get_text_buffer_dimensions (lfb self))) 1)) (\<lambda>last_row.
     try_prog (reads (\<lambda>self. Ok (row self \<ge> last_row, scrolling self, default_background self)))
       (\<lambda>(at_end, scr, background).
     if at_end then
       (if scr then on_lfb (scroll 1 background)
        else modifies (\<lambda>self. self\<lparr>row := 0\<rparr>))
     else
       try_prog (reads (\<lambda>self. add64 (row self) 1)) (\<lambda>r. modifies (\<lambda>self. self\<lparr>row := r\<rparr>)))))"

text \<open>The common end of \<open>write_char\<close>, and the arm of a character that is neither tab nor newline.\<close>

definition wrap_line :: "(VGAWriter, 'e, unit) prog" where
  "wrap_line =
     try_prog (reads (\<lambda>self. Ok (column self \<ge> fst (get_text_buffer_dimensions (lfb self))))) (\<lambda>full.
     if full then VGAWriter_new_line else ret ())"

definition put_at_cursor :: "rust_char \<Rightarrow> (VGAWriter, 'e, unit) prog" where
  "put_at_cursor c =
     try_prog (reads Ok) (\<lambda>self.
     try_prog (on_lfb (put_char (column self) (row self) (default_text self) (default_background self) (of_nat c)))
       (\<lambda>_.
     try_prog (reads (\<lambda>self. add64 (column self) 1)) (\<lambda>k. modifies (\<lambda>self. self\<lparr>column := k\<rparr>))))"

function VGAWriter_write_char :: "rust_char \<Rightarrow> (VGAWriter, 'e, unit) prog" where
  "VGAWriter_write_char c =
     try_prog
       (if c = 9 then for_each [0..<TAB_SIZE] (\<lambda>_. VGAWriter_write_char 32)
        else if c = 10 then VGAWriter_new_line
        else put_at_cursor c)
       (\<lambda>_. wrap_line)"
  by pat_completeness auto
termination
  by (relation "measure (\<lambda>c. if c = 9 then 1 else 0)") auto

declare VGAWriter_write_char.simps [simp del]

definition VGAWriter_write_string :: "rust_char list \<Rightarrow> (VGAWriter, 'e, unit) prog" where
  "VGAWriter_write_string string = for_each string VGAWriter_write_char"

definition VGAWriter_set_position :: "usize \<Rightarrow> usize \<Rightarrow> (VGAWriter, 'e, unit) prog" where
  "VGAWriter_set_position r c = modifies (\<lambda>self. self\<lparr>row := r, column := c\<rparr>)"

definition VGAWriter_get_position :: "VGAWriter \<Rightarrow> usize \<times> usize" where
  "VGAWriter_get_position self = (row self, column self)"

section \<open>The ideal text screen\<close>

record text_screen =
  grid :: "nat \<Rightarrow> nat \<Rightarrow> nat \<Rightarrow> nat \<Rightarrow> u32"
  cursor_column :: nat
  cursor_row :: nat

record text_style =
  columns :: nat
  rows :: nat
  text_color :: u32
  back_color :: u32
  scrolls :: bool

definition screen_new_line :: "text_style \<Rightarrow> text_screen \<Rightarrow> text_screen" where
  "screen_new_line st t =
     (if cursor_row t + 1 < rows st then t\<lparr>cursor_column := 0, cursor_row := cursor_row t + 1\<rparr>
      else if scrolls st then
        t\<lparr>cursor_column := 0,
          grid := (\<lambda>c r. if r + 1 < rows st then grid t c (r + 1) else (\<lambda>_ _. back_color st))\<rparr>
      else t\<lparr>cursor_column := 0, cursor_row := 0\<rparr>)"

definition screen_put :: "text_style \<Rightarrow> rust_char \<Rightarrow> text_screen \<Rightarrow> text_screen" where
  "screen_put st ch t =
     (let t' = t\<lparr>grid := (\<lambda>c r. if c = cursor_column t \<and> r = cursor_row t
                            then char_picture (text_color st) (back_color st) (of_nat ch) else grid t c r),
                cursor_column := cursor_column t + 1\<rparr>
      in if cursor_column t' = columns st then screen_new_line st t' else t')"

definition screen_char :: "text_style \<Rightarrow> rust_char \<Rightarrow> text_screen \<Rightarrow> text_screen" where
  "screen_char st ch =
     (if ch = 9 then fold (screen_put st) [32, 32, 32, 32]
      else if ch = 10 then screen_new_line st
      else screen_put st ch)"

definition writer_style :: "VGAWriter \<Rightarrow> text_style" where
  "writer_style w = \<lparr>columns = fst (get_text_buffer_dimensions (lfb w)),
     rows = snd (get_text_buffer_dimensions (lfb w)),
     text_color = default_text w, back_color = default_background w, scrolls = scrolling w\<rparr>"

text \<open>The cursor of a writer is on the screen; a writer shows a screen.\<close>

definition writer_ok :: "VGAWriter \<Rightarrow> bool" where
  "writer_ok w \<longleftrightarrow> fb_ok (lfb w) \<and> cell_on_screen (lfb w) (column w) (row w)"

definition whole_rows :: "VGAWriter \<Rightarrow> bool" where
  "whole_rows w \<longleftrightarrow> snd (dimensions (lfb w)) mod VGA_FONT_HEIGHT = 0"

definition shows_screen :: "VGAWriter \<Rightarrow> text_screen \<Rightarrow> bool" where
  "shows_screen w t \<longleftrightarrow> cursor_column t = column w \<and> cursor_row t = row w \<and>
     (\<forall>c r. cell_on_screen (lfb w) c r \<longrightarrow> cell_shows (lfb w) c r (grid t c r))"

section \<open>Refinement\<close>

text \<open>
  A program refines a function on screens when, from a cursor on the screen, it ends well, keeps the cursor
  on the screen and the style, and moves from showing a screen to showing its image.
\<close>

definition refines :: "(VGAWriter, 'e, unit) prog \<Rightarrow> (text_style \<Rightarrow> text_screen \<Rightarrow> text_screen) \<Rightarrow> bool" where
  "refines p g \<longleftrightarrow> (\<forall>w. writer_ok w \<longrightarrow> (\<exists>w'. p w = (Ok (), w') \<and> writer_ok w' \<and>
     writer_style w' = writer_style w \<and> whole_rows w' = whole_rows w \<and>
     (\<forall>t. whole_rows w \<longrightarrow> shows_screen w t \<longrightarrow> shows_screen w' (g (writer_style w) t))))"

lemma refinesE:
  assumes "refines p g" "writer_ok w"
  obtains w' where "p w = (Ok (), w')" "writer_ok w'" "writer_style w' = writer_style w"
    "whole_rows w' = whole_rows w"
    "\<And>t. whole_rows w \<Longrightarrow> shows_screen w t \<Longrightarrow> shows_screen w' (g (writer_style w) t)"
  using assms unfolding refines_def by blast

lemma refines_try:
  assumes "refines p f" "refines q g"
  shows "refines (try_prog p (\<lambda>_. q)) (\<lambda>st. g st \<circ> f st)"
  unfolding refines_def
proof (intro allI impI)
  fix w assume "writer_ok w"
  then obtain w1 where w1: "p w = (Ok (), w1)" "writer_ok w1" "writer_style w1 = writer_style w"
    "whole_rows w1 = whole_rows w"
    "\<And>t. whole_rows w \<Longrightarrow> shows_screen w t \<Longrightarrow> shows_screen w1 (f (writer_style w) t)"
    by (rule refinesE [OF assms(1)]) blast
  obtain w2 where w2: "q w1 = (Ok (), w2)" "writer_ok w2" "writer_style w2 = writer_style w1"
    "whole_rows w2 = whole_rows w1"
    "\<And>t. whole_rows w1 \<Longrightarrow> shows_screen w1 t \<Longrightarrow> shows_screen w2 (g (writer_style w1) t)"
    by (rule refinesE [OF assms(2) w1(2)]) blast
  then show "\<exists>w'. try_prog p (\<lambda>_. q) w = (Ok (), w') \<and> writer_ok w' \<and> writer_style w' = writer_style w \<and>
      whole_rows w' = whole_rows w \<and> (\<forall>t. whole_rows w \<longrightarrow> shows_screen w t \<longrightarrow>
        shows_screen w' ((g (writer_style w) \<circ> f (writer_style w)) t))"
    using w1 by (intro exI [of _ w2]) (simp add: try_prog_Ok)
qed

lemma refines_ret: "refines (\<lambda>w. (Ok (), w)) (\<lambda>_. id)"
  by (auto simp: refines_def)

lemma refines_for_each:
  assumes "\<And>x. x \<in> set xs \<Longrightarrow> refines (f x) (\<lambda>st. g st x)"
  shows "refines (for_each xs f) (\<lambda>st. fold (g st) xs)"
  using assms
proof (induction xs)
  case Nil
  then show ?case
    by (simp add: refines_def)
next
  case (Cons x xs)
  have "for_each (x # xs) f = try_prog (f x) (\<lambda>_. for_each xs f)"
    by (rule ext) simp
  then show ?case
    using refines_try [of "f x" "\<lambda>st. g st x" "for_each xs f" "\<lambda>st. fold (g st) xs"] Cons
    by (simp add: comp_def)
qed

lemma cell_shows_const:
  assumes "\<forall>i < VGA_FONT_WIDTH. \<forall>j < VGA_FONT_HEIGHT. p i j = b"
  shows "cell_shows fb c r p \<longleftrightarrow> cell_shows fb c r (\<lambda>_ _. b)"
  using assms by (simp add: cell_shows_def)

lemma writer_ok_rows:
  assumes "writer_ok w"
  shows "row w < snd (get_text_buffer_dimensions (lfb w))" "snd (get_text_buffer_dimensions (lfb w)) < 2 ^ 31"
    "column w < fst (get_text_buffer_dimensions (lfb w))" "fst (get_text_buffer_dimensions (lfb w)) < 2 ^ 31"
proof -
  have "snd (dimensions (lfb w)) div 16 \<le> snd (dimensions (lfb w))"
    "fst (dimensions (lfb w)) div 8 \<le> fst (dimensions (lfb w))"
    by simp_all
  then show "row w < snd (get_text_buffer_dimensions (lfb w))" "snd (get_text_buffer_dimensions (lfb w)) < 2 ^ 31"
    "column w < fst (get_text_buffer_dimensions (lfb w))" "fst (get_text_buffer_dimensions (lfb w)) < 2 ^ 31"
    using assms unfolding writer_ok_def fb_ok_def cell_on_screen_def
    by (auto simp: get_text_buffer_dimensions_def font_size)
qed

lemma on_lfb_Ok: "p (lfb w) = (Ok a, fb) \<Longrightarrow> on_lfb p w = (Ok a, w\<lparr>lfb := fb\<rparr>)"
  by (simp add: on_lfb_def zoom_def)

text \<open>\<open>new_line\<close> also serves a cursor just behind the last column, where \<open>write_char\<close> calls it.\<close>

definition row_ok :: "VGAWriter \<Rightarrow> bool" where
  "row_ok w \<longleftrightarrow> fb_ok (lfb w) \<and> cell_on_screen (lfb w) 0 (row w)"

lemma writer_ok_row_ok: "writer_ok w \<Longrightarrow> row_ok w"
  by (auto simp: writer_ok_def row_ok_def cell_on_screen_def)

lemma row_ok_writer_ok: "row_ok w \<Longrightarrow> writer_ok (w\<lparr>column := 0\<rparr>)"
  by (simp add: writer_ok_def row_ok_def)

lemma new_line_scroll:
  assumes "row_ok w" "row w + 1 = rows (writer_style w)" "scrolling w"
  shows "\<exists>fb'. (VGAWriter_new_line :: (VGAWriter, 'e, unit) prog) w = (Ok (), w\<lparr>column := 0, lfb := fb'\<rparr>) \<and>
    fb_ok fb' \<and> dimensions fb' = dimensions (lfb w) \<and>
    (\<forall>n. snd (dimensions (lfb w)) = 16 * n \<longrightarrow> (\<forall>c r p. cell_on_screen (lfb w) c r \<longrightarrow> cell_shows fb' c r p =
      (if r + 1 < n then cell_shows (lfb w) c (r + 1) p
       else \<forall>i < VGA_FONT_WIDTH. \<forall>j < VGA_FONT_HEIGHT. p i j = default_background w)))"
proof -
  have rows: "row w + 1 = snd (dimensions (lfb w)) div 16" "16 \<le> snd (dimensions (lfb w))"
    and ok: "fb_ok (lfb w)"
    using assms by (auto simp: row_ok_def cell_on_screen_def get_text_buffer_dimensions_def font_size
        writer_style_def)
  obtain fb' where fb': "(scroll 1 (default_background w) :: (LinearFramebuffer, 'e, unit) prog) (lfb w) = (Ok (), fb')"
    "fb_ok fb'" "dimensions fb' = dimensions (lfb w)"
    using scroll_pixels [OF ok rows(2), of "default_background w", where 'a = 'e]
    by (auto simp: scroll_def font_size mul64_def)
  have "(VGAWriter_new_line :: (VGAWriter, 'e, unit) prog) w = (Ok (), w\<lparr>column := 0, lfb := fb'\<rparr>)"
    using assms(3) on_lfb_Ok [of "scroll 1 (default_background w)" "w\<lparr>column := 0\<rparr>", OF _, of "()" fb'] fb'(1)
    by (simp add: VGAWriter_new_line_def get_text_buffer_dimensions_def font_size sub64_def rows(1) [symmetric])
  moreover have "cell_shows fb' c r p = (if r + 1 < n then cell_shows (lfb w) c (r + 1) p
       else \<forall>i < VGA_FONT_WIDTH. \<forall>j < VGA_FONT_HEIGHT. p i j = default_background w)"
    if "snd (dimensions (lfb w)) = 16 * n" "cell_on_screen (lfb w) c r" for n c r p
  proof -
    have "0 < n"
      using that(1) rows(2) by (cases n) auto
    then show ?thesis
      using scroll_cells [OF ok that(1), of "default_background w", where 'e = 'e] that(2) fb'(1) by auto
  qed
  ultimately show ?thesis
    using fb'(2,3) by blast
qed

lemma new_line_plain:
  assumes "row_ok w" "row w + 1 = rows (writer_style w) \<Longrightarrow> \<not> scrolling w"
  shows "VGAWriter_new_line w =
    (Ok (), w\<lparr>column := 0, row := if row w + 1 = rows (writer_style w) then 0 else row w + 1\<rparr>)"
proof -
  have "row w < rows (writer_style w)" "rows (writer_style w) < 2 ^ 31"
    using writer_ok_rows [OF row_ok_writer_ok [OF assms(1)]] by (simp_all add: writer_style_def)
  then show ?thesis
    using assms(2)
    by (auto simp: VGAWriter_new_line_def sub64_def add64_def writer_style_def)
qed

lemma style_simps [simp]:
  "columns (writer_style w) = fst (get_text_buffer_dimensions (lfb w))"
  "rows (writer_style w) = snd (get_text_buffer_dimensions (lfb w))"
  "text_color (writer_style w) = default_text w"
  "back_color (writer_style w) = default_background w"
  "scrolls (writer_style w) = scrolling w"
  by (simp_all add: writer_style_def)

text \<open>What \<open>new_line\<close> does from any column.\<close>

lemma new_line_effect:
  assumes "row_ok w"
  shows "\<exists>w'. (VGAWriter_new_line :: (VGAWriter, 'e, unit) prog) w = (Ok (), w') \<and> writer_ok w' \<and>
    writer_style w' = writer_style w \<and> whole_rows w' = whole_rows w \<and>
    (\<forall>t. whole_rows w \<longrightarrow> shows_screen w t \<longrightarrow> shows_screen w' (screen_new_line (writer_style w) t))"
proof (cases "row w + 1 = rows (writer_style w) \<and> scrolling w")
  case True
  then obtain fb' where fb': "(VGAWriter_new_line :: (VGAWriter, 'e, unit) prog) w = (Ok (), w\<lparr>column := 0, lfb := fb'\<rparr>)"
    "fb_ok fb'" "dimensions fb' = dimensions (lfb w)"
    "\<forall>n. snd (dimensions (lfb w)) = 16 * n \<longrightarrow> (\<forall>c r p. cell_on_screen (lfb w) c r \<longrightarrow> cell_shows fb' c r p =
      (if r + 1 < n then cell_shows (lfb w) c (r + 1) p
       else \<forall>i < VGA_FONT_WIDTH. \<forall>j < VGA_FONT_HEIGHT. p i j = default_background w))"
    using new_line_scroll [OF assms, where 'e = 'e] by auto
  have on: "cell_on_screen fb' = cell_on_screen (lfb w)"
    by (rule cell_on_screen_cong) (rule fb'(3))
  have dims: "get_text_buffer_dimensions fb' = get_text_buffer_dimensions (lfb w)"
    by (simp add: get_text_buffer_dimensions_def fb'(3))
  let ?w = "w\<lparr>column := 0, lfb := fb'\<rparr>"
  have "shows_screen ?w (screen_new_line (writer_style w) t)" if wr: "whole_rows w" and t: "shows_screen w t" for t
  proof -
    define n where "n = snd (dimensions (lfb w)) div 16"
    have "snd (dimensions (lfb w)) = 16 * n" and n: "rows (writer_style w) = n"
      using wr by (auto simp: whole_rows_def font_size n_def get_text_buffer_dimensions_def)
    then have "cell_shows fb' c r p = (if r + 1 < n then cell_shows (lfb w) c (r + 1) p
        else \<forall>i < VGA_FONT_WIDTH. \<forall>j < VGA_FONT_HEIGHT. p i j = default_background w)"
      if "cell_on_screen (lfb w) c r" for c r p
      using fb'(4) that by blast
    moreover have "cell_on_screen (lfb w) c (r + 1)" if "cell_on_screen (lfb w) c r" "r + 1 < n" for c r
      using that n by (simp add: cell_on_screen_def)
    ultimately show ?thesis
      using t True n by (auto simp: shows_screen_def screen_new_line_def on)
  qed
  moreover have "writer_ok ?w" "writer_style ?w = writer_style w" "whole_rows ?w = whole_rows w"
    using assms fb'(2,3) by (simp_all add: writer_ok_def row_ok_def on writer_style_def dims whole_rows_def)
  ultimately show ?thesis
    using fb'(1) by blast
next
  case False
  let ?w = "w\<lparr>column := 0, row := if row w + 1 = rows (writer_style w) then 0 else row w + 1\<rparr>"
  have "VGAWriter_new_line w = (Ok (), ?w)"
    using False by (intro new_line_plain [OF assms]) auto
  moreover have "writer_ok ?w"
    using assms by (auto simp: writer_ok_def row_ok_def cell_on_screen_def)
  moreover have "writer_style ?w = writer_style w" "whole_rows ?w = whole_rows w"
    by (simp_all add: writer_style_def whole_rows_def)
  moreover have "shows_screen ?w (screen_new_line (writer_style w) t)" if "shows_screen w t" for t
    using that False assms by (auto simp: shows_screen_def screen_new_line_def row_ok_def cell_on_screen_def)
  ultimately show ?thesis
    by blast
qed

lemma refines_new_line: "refines VGAWriter_new_line screen_new_line"
  using new_line_effect writer_ok_row_ok unfolding refines_def by blast

text \<open>A character at the cursor, and the cursor behind it.\<close>

lemma put_at_cursor_effect:
  assumes "writer_ok w"
  shows "\<exists>fb'. (put_at_cursor ch :: (VGAWriter, 'e, unit) prog) w =
      (Ok (), w\<lparr>lfb := fb', column := column w + 1\<rparr>) \<and>
    fb_ok fb' \<and> dimensions fb' = dimensions (lfb w) \<and>
    cell_shows fb' (column w) (row w) (char_picture (default_text w) (default_background w) (of_nat ch)) \<and>
    (\<forall>c r p. cell_on_screen (lfb w) c r \<longrightarrow> (c, r) \<noteq> (column w, row w) \<longrightarrow>
       cell_shows fb' c r p = cell_shows (lfb w) c r p)"
proof -
  have ok: "fb_ok (lfb w)" "cell_on_screen (lfb w) (column w) (row w)"
    using assms by (simp_all add: writer_ok_def)
  obtain fb' where fb': "(put_char (column w) (row w) (default_text w) (default_background w) (of_nat ch)
      :: (LinearFramebuffer, 'e, unit) prog) (lfb w) = (Ok (), fb')" "fb_ok fb'" "dimensions fb' = dimensions (lfb w)"
    "cell_shows fb' (column w) (row w) (char_picture (default_text w) (default_background w) (of_nat ch))"
    "\<forall>c r p. cell_on_screen (lfb w) c r \<longrightarrow> (c, r) \<noteq> (column w, row w) \<longrightarrow>
       cell_shows fb' c r p = cell_shows (lfb w) c r p"
    using put_char_cells [OF ok, of "default_text w" "default_background w" "of_nat ch", where 'e = 'e] by blast
  have "(put_at_cursor ch :: (VGAWriter, 'e, unit) prog) w = (Ok (), w\<lparr>lfb := fb', column := column w + 1\<rparr>)"
    using writer_ok_rows(3,4) [OF assms]
    by (simp add: put_at_cursor_def try_prog_Ok add64_def on_lfb_Ok fb'(1))
  then show ?thesis
    using fb'(2-5) by blast
qed

lemma wrap_line_ok: "writer_ok w \<Longrightarrow> wrap_line w = (Ok (), w)"
  by (simp add: wrap_line_def writer_ok_def cell_on_screen_def)

lemma refines_wrap_line: "refines wrap_line (\<lambda>_. id)"
  by (auto simp: refines_def wrap_line_ok)

lemma refines_put: "refines (try_prog (put_at_cursor ch) (\<lambda>_. wrap_line) :: (VGAWriter, 'a, unit) prog) (\<lambda>st. screen_put st ch)"
  unfolding refines_def
proof (intro allI impI)
  fix w :: VGAWriter
  assume w: "writer_ok w"
  obtain fb' where fb': "(put_at_cursor ch :: (VGAWriter, 'a, unit) prog) w =
      (Ok (), w\<lparr>lfb := fb', column := column w + 1\<rparr>)" "fb_ok fb'" "dimensions fb' = dimensions (lfb w)"
    "cell_shows fb' (column w) (row w) (char_picture (default_text w) (default_background w) (of_nat ch))"
    "\<forall>c r p. cell_on_screen (lfb w) c r \<longrightarrow> (c, r) \<noteq> (column w, row w) \<longrightarrow>
       cell_shows fb' c r p = cell_shows (lfb w) c r p"
    using put_at_cursor_effect [OF w, of ch, where 'e = 'a] by blast
  define w1 where "w1 = w\<lparr>lfb := fb', column := column w + 1\<rparr>"
  have on: "cell_on_screen fb' = cell_on_screen (lfb w)"
    by (rule cell_on_screen_cong) (rule fb'(3))
  have dims: "get_text_buffer_dimensions fb' = get_text_buffer_dimensions (lfb w)"
    by (simp add: get_text_buffer_dimensions_def fb'(3))
  have style: "writer_style w1 = writer_style w" "whole_rows w1 = whole_rows w"
    by (simp_all add: w1_def writer_style_def dims whole_rows_def fb'(3))
  have row: "row_ok w1"
    using w fb'(2) by (auto simp: w1_def writer_ok_def row_ok_def on cell_on_screen_def)
  let ?t1 = "\<lambda>t. t\<lparr>grid := (\<lambda>c r. if c = cursor_column t \<and> r = cursor_row t
      then char_picture (default_text w) (default_background w) (of_nat ch) else grid t c r),
      cursor_column := cursor_column t + 1\<rparr>"
  have shows1: "shows_screen w1 (?t1 t)" if "shows_screen w t" for t
    using that fb'(4,5) by (auto simp: shows_screen_def w1_def on)
  have run: "(try_prog (put_at_cursor ch) (\<lambda>_. wrap_line) :: (VGAWriter, 'a, unit) prog) w = wrap_line w1"
    unfolding w1_def by (rule try_prog_Ok) (rule fb'(1))
  show "\<exists>w'. (try_prog (put_at_cursor ch) (\<lambda>_. wrap_line) :: (VGAWriter, 'a, unit) prog) w = (Ok (), w') \<and> writer_ok w' \<and>
      writer_style w' = writer_style w \<and> whole_rows w' = whole_rows w \<and>
      (\<forall>t. whole_rows w \<longrightarrow> shows_screen w t \<longrightarrow> shows_screen w' (screen_put (writer_style w) ch t))"
  proof (cases "column w1 = fst (get_text_buffer_dimensions (lfb w))")
    case True
    then have wrap: "wrap_line w1 = VGAWriter_new_line w1"
      by (simp add: wrap_line_def w1_def dims)
    have "screen_put (writer_style w) ch t = screen_new_line (writer_style w1) (?t1 t)" if "shows_screen w t" for t
      unfolding style using that True by (simp add: screen_put_def shows_screen_def w1_def cong: if_cong)
    then show ?thesis
      unfolding run wrap using new_line_effect [OF row, where 'e = 'a] shows1 style(1) [symmetric] style(2)
      by (elim exE, intro exI) auto
  next
    case False
    then have ok1: "writer_ok w1"
      using writer_ok_rows(3) [OF w] w fb'(2) by (simp add: w1_def writer_ok_def on cell_on_screen_def)
    have "screen_put (writer_style w) ch t = ?t1 t" if "shows_screen w t" for t
      using that False by (simp add: screen_put_def shows_screen_def w1_def cong: if_cong)
    then show ?thesis
      unfolding run using wrap_line_ok [OF ok1] ok1 style shows1 by (intro exI [of _ w1]) simp
  qed
qed

lemma refines_char: "refines (VGAWriter_write_char ch) (\<lambda>st. screen_char st ch)"
proof -
  have plain: "refines (VGAWriter_write_char c) (\<lambda>st. screen_put st c)" if "c \<noteq> 9" "c \<noteq> 10" for c
    using that refines_put [of c] by (simp add: VGAWriter_write_char.simps [of c])
  have "refines (for_each [0..<TAB_SIZE] (\<lambda>_. VGAWriter_write_char 32)) (\<lambda>st. fold (\<lambda>_. screen_put st 32) [0..<TAB_SIZE])"
    by (rule refines_for_each) (simp add: plain)
  moreover have "fold (\<lambda>_. screen_put st 32) [0..<TAB_SIZE] = fold (screen_put st) [32, 32, 32, 32]" for st
    by (simp add: TAB_SIZE_def upt_rec)
  ultimately have tab: "refines (VGAWriter_write_char 9) (\<lambda>st. screen_char st 9)"
    using refines_try [OF _ refines_wrap_line]
    by (simp add: VGAWriter_write_char.simps [of 9] screen_char_def id_comp)
  have nl: "refines (VGAWriter_write_char 10) (\<lambda>st. screen_char st 10)"
    using refines_try [OF refines_new_line refines_wrap_line]
    by (simp add: VGAWriter_write_char.simps [of 10] screen_char_def id_comp)
  show ?thesis
    using tab nl plain [of ch] by (cases "ch = 9"; cases "ch = 10") (auto simp: screen_char_def)
qed

lemma refines_string: "refines (VGAWriter_write_string s) (\<lambda>st. fold (screen_char st) s)"
  unfolding VGAWriter_write_string_def by (rule refines_for_each) (rule refines_char)

section \<open>The place of the framebuffer\<close>

definition writer_place :: "VGAWriter \<Rightarrow> u64 \<times> usize \<times> usize" where
  "writer_place w = fb_place (lfb w)"

lemma on_lfb_place [preserves_intros]: "preserves fb_place p \<Longrightarrow> preserves writer_place (on_lfb p)"
  unfolding on_lfb_def by (erule preserves_zoom) (simp add: writer_place_def)

lemma new_line_place [preserves_intros]: "preserves writer_place VGAWriter_new_line"
  unfolding VGAWriter_new_line_def by (intro preserves_intros) (simp_all add: writer_place_def)

lemma cursor_place [preserves_intros]:
  "preserves writer_place wrap_line" "preserves writer_place (put_at_cursor c)"
  unfolding wrap_line_def put_at_cursor_def by (intro preserves_intros; simp add: writer_place_def)+

lemma write_char_place [preserves_intros]: "preserves writer_place (VGAWriter_write_char c)"
proof (induction c rule: VGAWriter_write_char.induct)
  case (1 c)
  then show ?case
    unfolding VGAWriter_write_char.simps [of c] by (intro preserves_intros)
qed

lemma write_string_place [preserves_intros]: "preserves writer_place (VGAWriter_write_string s)"
  unfolding VGAWriter_write_string_def by (intro preserves_intros)

end
