(* ===== verification/Serial_Port.thy ===== *)
theory Serial_Port
  imports Kermol_Prelude
begin

text \<open>
  \<open>serial.rs\<close>: the serial port behind a spin lock, made at its first use. The port itself is the uart\_16550
  crate, a parameter; the locale \<open>serial_line\<close> has what the kernel relies on, that writing text succeeds and
  hands it to the port, and the last section has an instance. \<open>sent\<close> is the text handed over, in order; which
  bytes the crate puts on the line for a character is not part of it. \<open>_print\<close> runs with interrupts disabled on the one processor,
  so that a lock found taken is never released: the error \<open>SpinsForever\<close>. The arguments are the pieces that
  \<open>write_fmt\<close> passes to \<open>write_str\<close>.
\<close>

datatype hang = SpinsForever

record 'u uart =
  SerialPort_new :: "nat \<Rightarrow> 'u"
  SerialPort_init :: "'u \<Rightarrow> 'u"
  SerialPort_write_str :: "rust_char list \<Rightarrow> 'u \<Rightarrow> bool \<times> 'u"  \<comment> \<open>whether the result is \<open>Ok\<close>\<close>

record 'u serial =
  port :: "'u option"
  serial_locked :: bool

section \<open>Operations\<close>

text \<open>The first access to the lazy static makes the port.\<close>

definition make_port :: "'u uart \<Rightarrow> 'u serial \<Rightarrow> 'u serial" where
  "make_port U s = (case port s of
      None \<Rightarrow> \<lparr>port = Some (SerialPort_init U (SerialPort_new U 0x3F8)), serial_locked = False\<rparr>
    | Some _ \<Rightarrow> s)"

definition write_piece :: "'u uart \<Rightarrow> rust_char list \<Rightarrow> ('u serial, 'e, unit) prog" where
  "write_piece U t =
     try_prog (reads (\<lambda>s. unwrap_option (port s))) (\<lambda>u.
     case SerialPort_write_str U t u of (ok, u') \<Rightarrow>
     try_prog (modifies (\<lambda>s. s\<lparr>port := Some u'\<rparr>)) (\<lambda>_.
     if ok then ret () else panic_with UnwrapFailed))"

definition serial_print :: "'u uart \<Rightarrow> rust_char list list \<Rightarrow> ('u serial, hang, unit) prog" where
  "serial_print U args =
     try_prog (modifies (make_port U)) (\<lambda>_.
     try_prog (reads (\<lambda>s. if serial_locked s then Err SpinsForever else Ok ())) (\<lambda>_.
     try_prog (modifies (\<lambda>s. s\<lparr>serial_locked := True\<rparr>)) (\<lambda>_.
     try_prog (for_each args (write_piece U)) (\<lambda>_.
     modifies (\<lambda>s. s\<lparr>serial_locked := False\<rparr>)))))"

text \<open>
  The macro \<open>serial_println!\<close> ends the line with a carriage return and a newline when it has a literal only, and
  with a newline when the literal has arguments.
\<close>

definition serial_println_literal :: "'u uart \<Rightarrow> rust_char list \<Rightarrow> ('u serial, hang, unit) prog" where
  "serial_println_literal U fmt = serial_print U [fmt @ [13, 10]]"

definition serial_println :: "'u uart \<Rightarrow> rust_char list list \<Rightarrow> ('u serial, hang, unit) prog" where
  "serial_println U args = serial_print U (args @ [[10]])"

section \<open>The serial line\<close>

text \<open>The text handed to the port so far.\<close>

definition serial_output :: "('u \<Rightarrow> rust_char list) \<Rightarrow> 'u serial \<Rightarrow> rust_char list" where
  "serial_output sent s = (case port s of None \<Rightarrow> [] | Some u \<Rightarrow> sent u)"

locale serial_line =
  fixes U :: "'u uart" and sent :: "'u \<Rightarrow> rust_char list"
  assumes sent_new: "sent (SerialPort_init U (SerialPort_new U a)) = []"
    and write_str: "\<exists>u'. SerialPort_write_str U t u = (True, u') \<and> sent u' = sent u @ t"
begin

lemma write_pieces:
  assumes "port s = Some u"
  shows "\<exists>u'. (for_each ts (write_piece U) :: (_, 'e, unit) prog) s = (Ok (), s\<lparr>port := Some u'\<rparr>) \<and>
    sent u' = sent u @ concat ts"
  using assms
proof (induction ts arbitrary: s u)
  case Nil
  then show ?case
    by (intro exI [of _ u]) simp
next
  case (Cons t ts)
  obtain u1 where u1: "SerialPort_write_str U t u = (True, u1)" "sent u1 = sent u @ t"
    using write_str by blast
  then have "(write_piece U t :: (_, 'e, unit) prog) s = (Ok (), s\<lparr>port := Some u1\<rparr>)"
    using Cons.prems by (simp add: write_piece_def)
  then show ?case
    using Cons.IH [of "s\<lparr>port := Some u1\<rparr>" u1] u1(2) by (auto simp: try_prog_Ok)
qed

lemma serial_print_sends:
  assumes "\<not> serial_locked s"
  shows "\<exists>s'. serial_print U args s = (Ok (), s') \<and> \<not> serial_locked s' \<and>
    serial_output sent s' = serial_output sent s @ concat args"
proof -
  define s1 where "s1 = (make_port U s)\<lparr>serial_locked := True\<rparr>"
  obtain u where u: "port s1 = Some u" "sent u = serial_output sent s" "\<not> serial_locked (make_port U s)"
    using assms sent_new by (cases "port s") (auto simp: s1_def make_port_def serial_output_def)
  obtain u' where "(for_each args (write_piece U) :: (_, hang, unit) prog) s1 = (Ok (), s1\<lparr>port := Some u'\<rparr>)"
    "sent u' = sent u @ concat args"
    using write_pieces [OF u(1)] by blast
  then show ?thesis
    using u(2,3) by (simp add: serial_print_def s1_def try_prog_Ok serial_output_def)
qed

lemmas serial_prints =
  serial_print_sends [of _ "args @ [[10]]" for args, folded serial_println_def, simplified]
  serial_print_sends [of _ "[fmt @ [13, 10]]" for fmt, folded serial_println_literal_def, simplified]

end

text \<open>An instance: a port that records its text.\<close>

definition wire :: "rust_char list uart" where
  "wire = \<lparr>SerialPort_new = (\<lambda>_. []), SerialPort_init = (\<lambda>u. u), SerialPort_write_str = (\<lambda>t u. (True, u @ t))\<rparr>"

interpretation wire: serial_line wire "\<lambda>u. u"
  by unfold_locales (simp_all add: wire_def)

end
