(* ===== verification/Kernel_Writer.thy ===== *)
theory Kernel_Writer
  imports Vga_Text_Writer Serial_Port
begin

text \<open>
  The shared writer of the kernel: the second half of \<open>display/vga_text_writer.rs\<close> and \<open>panic_handler\<close> of
  \<open>lib.rs\<close>. \<open>KWRITER\<close> is a \<open>Once\<close> holding a spin lock around the writer: the record \<open>console\<close> has the
  writer, the state of its lock, \<open>PANIC_LEVEL\<close>, and the serial port of \<open>Serial_Port\<close>. The kernel runs on one core and these functions run with interrupts
  disabled, so nobody else can release a lock found taken: such a call never returns, the error
  \<open>SpinsForever\<close>. Panics abort (Cargo.toml), so a lock held at a panic stays taken.

  The arguments of a print are the pieces that \<open>write_fmt\<close> passes to \<open>write_str\<close>, in order. The
  bootloader's answer to the framebuffer request is a parameter.
\<close>

record 'p console =
  KWRITER :: "VGAWriter option"
  kwriter_locked :: bool
  PANIC_LEVEL :: u8
  SERIAL1 :: 'p

section \<open>Operations\<close>

definition init_kwriter :: "Framebuffer list option \<Rightarrow> ('p console, hang, unit) prog" where
  "init_kwriter response =
     try_prog (reads (\<lambda>_. unwrap_option response)) (\<lambda>framebuffers.
     try_prog (reads (\<lambda>_. unwrap_option (if framebuffers = [] then None else Some (framebuffers ! 0)))) (\<lambda>framebuffer.
     try_prog (reads (\<lambda>_. unwrap_outcome (LinearFramebuffer_new framebuffer))) (\<lambda>linear_framebuffer.
     try_prog (modifies (\<lambda>s. case KWRITER s of
         None \<Rightarrow> s\<lparr>KWRITER := Some (VGAWriter_new linear_framebuffer True
                   (VgaColor_as_u32 DEFAULT_COLOR) (VgaColor_as_u32 Black)), kwriter_locked := False\<rparr>
       | Some _ \<Rightarrow> s)) (\<lambda>_.
     modifies (\<lambda>s. s\<lparr>PANIC_LEVEL := PANIC_LEVEL s + 1\<rparr>)))))"

text \<open>\<open>KWRITER.get().expect(..).lock()\<close>, the body of the caller, and the release of the lock.\<close>

definition with_kwriter :: "(VGAWriter, hang, unit) prog \<Rightarrow> ('p console, hang, unit) prog" where
  "with_kwriter body =
     try_prog (reads (\<lambda>s. unwrap_option (KWRITER s))) (\<lambda>w.
     try_prog (reads (\<lambda>s. if kwriter_locked s then Err SpinsForever else Ok ())) (\<lambda>_.
     try_prog (modifies (\<lambda>s. s\<lparr>kwriter_locked := True\<rparr>)) (\<lambda>_.
     try_prog (zoom (\<lambda>_. w) (\<lambda>w' s. s\<lparr>KWRITER := Some w'\<rparr>) body) (\<lambda>_.
     modifies (\<lambda>s. s\<lparr>kwriter_locked := False\<rparr>)))))"

definition write_fmt :: "rust_char list list \<Rightarrow> (VGAWriter, 'e, unit) prog" where
  "write_fmt args = for_each args VGAWriter_write_string"

definition kprint :: "rust_char list list \<Rightarrow> ('p console, hang, unit) prog" where
  "kprint args = with_kwriter (write_fmt args)"

definition kprint_color :: "rust_char list list \<Rightarrow> VgaColor \<Rightarrow> ('p console, hang, unit) prog" where
  "kprint_color args color = with_kwriter
     (try_prog (modifies (\<lambda>w. w\<lparr>default_text := VgaColor_as_u32 color\<rparr>)) (\<lambda>_.
      try_prog (write_fmt args) (\<lambda>_.
      modifies (\<lambda>w. w\<lparr>default_text := VgaColor_as_u32 DEFAULT_COLOR\<rparr>))))"

text \<open>The macros append a newline piece.\<close>

definition kprintln :: "rust_char list list \<Rightarrow> ('p console, hang, unit) prog" where
  "kprintln args = kprint (args @ [[10]])"

definition kwarn :: "rust_char list list \<Rightarrow> ('p console, hang, unit) prog" where
  "kwarn args = kprint_color (args @ [[10]]) Yellow"

definition kerror :: "rust_char list list \<Rightarrow> ('p console, hang, unit) prog" where
  "kerror args = kprint_color (args @ [[10]]) LightRed"

definition kwriter_set_color :: "u32 \<Rightarrow> ('p console, hang, unit) prog" where
  "kwriter_set_color color = with_kwriter (modifies (\<lambda>w. w\<lparr>default_text := color\<rparr>))"

definition kwriter_set_bg :: "u32 \<Rightarrow> ('p console, hang, unit) prog" where
  "kwriter_set_bg background = with_kwriter (modifies (\<lambda>w. w\<lparr>default_background := background\<rparr>))"

text \<open>\<open>panic_handler\<close> up to the halt. \<open>get_unchecked\<close> on a writer that is not set is \<open>Panic BadPointer\<close>.\<close>

definition panic_handler ::
    "'u uart \<Rightarrow> rust_char list list \<Rightarrow> ('u serial console, hang, unit) prog" where
  "panic_handler U info =
     (let serial = zoom SERIAL1 (\<lambda>p s. s\<lparr>SERIAL1 := p\<rparr>) (serial_println U info) in
     try_prog (reads (\<lambda>s. Ok (PANIC_LEVEL s))) (\<lambda>panic_lvl.
     if panic_lvl = 0 then serial
     else if panic_lvl = 1 then
       try_prog serial (\<lambda>_.
       try_prog (reads (\<lambda>s. if KWRITER s = None then Panic BadPointer else Ok ())) (\<lambda>_.
       with_kwriter
         (try_prog (modifies (\<lambda>w. w\<lparr>default_text := VgaColor_as_u32 LightRed\<rparr>)) (\<lambda>_.
          write_fmt (info @ [[10]])))))
     else ret ()))"

section \<open>The console\<close>

text \<open>After \<open>init_kwriter\<close>: a writer with its cursor on the screen and a free lock.\<close>

definition console_ok :: "'p console \<Rightarrow> bool" where
  "console_ok s \<longleftrightarrow> \<not> kwriter_locked s \<and> (\<exists>w. KWRITER s = Some w \<and> writer_ok w)"

text \<open>A framebuffer the writer can use: 32 bits per pixel, room for a character, its pixels in memory at an
  aligned address.\<close>

definition usable_framebuffer :: "Framebuffer \<Rightarrow> bool" where
  "usable_framebuffer f \<longleftrightarrow> bpp f = 32 \<and> 8 \<le> fb_width f \<and> fb_width f < 2 ^ 31 \<and>
     16 \<le> fb_height f \<and> fb_height f < 2 ^ 31 \<and> fb_width f * fb_height f < 2 ^ 61 \<and>
     fb_width f * fb_height f \<le> length (pixels f) \<and>
     0 < fb_address f \<and> fb_address f mod 4 = 0 \<and> fb_address f + 4 * (fb_width f * fb_height f) \<le> 2 ^ 64"

lemma new_framebuffer_ok:
  assumes "usable_framebuffer f"
  shows "\<exists>fb. LinearFramebuffer_new f = Ok fb \<and> fb_ok fb \<and> fb_place fb = (fb_address f, fb_width f, fb_height f)"
  using assms by (simp add: LinearFramebuffer_new_def mul64_def fb_ok_def usable_framebuffer_def fb_place_def)

lemma new_writer_ok:
  assumes "fb_ok fb" "8 \<le> fst (dimensions fb)" "16 \<le> snd (dimensions fb)"
  shows "writer_ok (VGAWriter_new fb scr text background)"
  using assms by (auto simp: writer_ok_def VGAWriter_new_def cell_on_screen_def get_text_buffer_dimensions_def
      font_size less_eq_div_iff_mult_less_eq Suc_le_eq [symmetric])

lemma init_kwriter_ok:
  assumes "usable_framebuffer f" "KWRITER s = None"
  shows "\<exists>w. init_kwriter (Some (f # fs)) s =
      (Ok (), s\<lparr>KWRITER := Some w, kwriter_locked := False, PANIC_LEVEL := PANIC_LEVEL s + 1\<rparr>) \<and>
    writer_ok w \<and> writer_place w = (fb_address f, fb_width f, fb_height f) \<and> VGAWriter_get_position w = (0, 0) \<and>
    default_text w = VgaColor_as_u32 LightGray \<and> default_background w = 0 \<and> scrolling w"
proof -
  obtain fb where fb: "LinearFramebuffer_new f = Ok fb" "fb_ok fb"
    "fb_place fb = (fb_address f, fb_width f, fb_height f)"
    using new_framebuffer_ok [OF assms(1)] by auto
  define w where "w = VGAWriter_new fb True (VgaColor_as_u32 DEFAULT_COLOR) (VgaColor_as_u32 Black)"
  have "writer_ok w"
    unfolding w_def using fb assms(1) by (intro new_writer_ok) (auto simp: usable_framebuffer_def fb_place_def)
  moreover have "init_kwriter (Some (f # fs)) s =
      (Ok (), s\<lparr>KWRITER := Some w, kwriter_locked := False, PANIC_LEVEL := PANIC_LEVEL s + 1\<rparr>)"
    using fb(1) assms(2) by (simp add: init_kwriter_def w_def)
  ultimately show ?thesis
    using fb(3) by (intro exI [of _ w])
      (simp add: w_def VGAWriter_new_def VGAWriter_get_position_def DEFAULT_COLOR_def writer_place_def)
qed

lemma with_kwriter_Ok:
  assumes "KWRITER s = Some w" "\<not> kwriter_locked s" "body w = (Ok (), w')"
  shows "with_kwriter body s = (Ok (), s\<lparr>KWRITER := Some w', kwriter_locked := False\<rparr>)"
  using assms by (simp add: with_kwriter_def zoom_def try_prog_def)

lemma with_kwriter_Panic:
  assumes "KWRITER s = Some w" "\<not> kwriter_locked s" "body w = (Panic p, w')"
  shows "with_kwriter body s = (Panic p, s\<lparr>KWRITER := Some w', kwriter_locked := True\<rparr>)"
  using assms by (simp add: with_kwriter_def zoom_def try_prog_def)

lemma with_kwriter_locked:
  assumes "KWRITER s = Some w" "kwriter_locked s"
  shows "with_kwriter body s = (Err SpinsForever, s)"
  using assms by (simp add: with_kwriter_def)

lemma panic_handler_level_1:
  assumes "KWRITER s \<noteq> None" "PANIC_LEVEL s = 1" "serial_println U info (SERIAL1 s) = (Ok (), p)"
  shows "panic_handler U info s =
    with_kwriter (try_prog (modifies (\<lambda>w. w\<lparr>default_text := VgaColor_as_u32 LightRed\<rparr>)) (\<lambda>_.
      write_fmt (info @ [[10]]))) (s\<lparr>SERIAL1 := p\<rparr>)"
proof -
  have "zoom SERIAL1 (\<lambda>p s. s\<lparr>SERIAL1 := p\<rparr>) (serial_println U info) s = (Ok (), s\<lparr>SERIAL1 := p\<rparr>)"
    using assms(3) by (simp add: zoom_def)
  then show ?thesis
    using assms(1,2) by (auto simp: panic_handler_def Let_def try_prog_Ok)
qed

lemma refines_write_fmt: "refines (write_fmt args) (\<lambda>st. fold (fold (screen_char st)) args)"
  unfolding write_fmt_def by (rule refines_for_each) (rule refines_string)

lemma writer_ok_color [simp]:
  "writer_ok (w\<lparr>default_text := c\<rparr>) \<longleftrightarrow> writer_ok w"
  "writer_ok (w\<lparr>default_background := c\<rparr>) \<longleftrightarrow> writer_ok w"
  by (simp_all add: writer_ok_def)

text \<open>What every print keeps: a console that can print, the place of its framebuffer, the panic level and the
  serial port.\<close>

definition console_place :: "'p console \<Rightarrow> (u64 \<times> usize \<times> usize) option" where
  "console_place s = map_option writer_place (KWRITER s)"

definition console_keeps :: "'p console \<Rightarrow> 'p console \<Rightarrow> bool" where
  "console_keeps s s' \<longleftrightarrow> console_ok s' \<and> console_place s' = console_place s \<and>
     PANIC_LEVEL s' = PANIC_LEVEL s \<and> SERIAL1 s' = SERIAL1 s"

lemma console_keeps_refl: "console_ok s \<Longrightarrow> console_keeps s s"
  by (simp add: console_keeps_def)

lemma console_keeps_trans: "console_keeps s s' \<Longrightarrow> console_keeps s' s'' \<Longrightarrow> console_keeps s s''"
  by (simp add: console_keeps_def)

text \<open>A program that prints: from a console that can print it ends well and keeps it so.\<close>

definition prints :: "('p console, 'e, unit) prog \<Rightarrow> bool" where
  "prints p \<longleftrightarrow> (\<forall>s. console_ok s \<longrightarrow> (\<exists>s'. p s = (Ok (), s') \<and> console_keeps s s'))"

lemma printsE:
  assumes "prints p" "console_ok s"
  obtains s' where "p s = (Ok (), s')" "console_keeps s s'"
  using assms unfolding prints_def by blast

lemma prints_with_kwriter:
  assumes "\<And>w. writer_ok w \<Longrightarrow> \<exists>w'. body w = (Ok (), w') \<and> writer_ok w'" "preserves writer_place body"
  shows "prints (with_kwriter body)"
  unfolding prints_def
proof (intro allI impI)
  fix s
  assume "console_ok s"
  then obtain w where w: "KWRITER s = Some w" "writer_ok w" "\<not> kwriter_locked s"
    by (auto simp: console_ok_def)
  obtain w' where "body w = (Ok (), w')" "writer_ok w'"
    using assms(1) [OF w(2)] by blast
  moreover from this have "writer_place w' = writer_place w"
    using preservesD [OF assms(2)] by blast
  ultimately show "\<exists>s'. with_kwriter body s = (Ok (), s') \<and> console_keeps s s'"
    using with_kwriter_Ok [OF w(1,3), of body w'] w(1) by (simp add: console_keeps_def console_ok_def console_place_def)
qed

lemma prints_try:
  fixes p q :: "('p console, 'e, unit) prog"
  assumes "prints p" "prints q"
  shows "prints (try_prog p (\<lambda>_. q))"
  unfolding prints_def
proof (intro allI impI)
  fix s :: "'p console"
  assume s: "console_ok s"
  obtain s1 where s1: "p s = (Ok (), s1)" "console_keeps s s1"
    by (rule printsE [OF assms(1) s])
  then have "console_ok s1"
    by (simp add: console_keeps_def)
  then obtain s2 where "q s1 = (Ok (), s2)" "console_keeps s1 s2"
    by (rule printsE [OF assms(2)])
  with s1 show "\<exists>s'. try_prog p (\<lambda>_. q) s = (Ok (), s') \<and> console_keeps s s'"
    by (auto simp: try_prog_Ok intro: console_keeps_trans)
qed

lemma prints_for_each: "(\<And>x. x \<in> set xs \<Longrightarrow> prints (f x)) \<Longrightarrow> prints (for_each xs f)"
proof (induction xs)
  case Nil
  then show ?case
    by (simp add: prints_def console_keeps_refl)
next
  case (Cons x xs)
  have "for_each (x # xs) f = try_prog (f x) (\<lambda>_. for_each xs f)"
    by (rule ext) simp
  then show ?case
    using prints_try [of "f x" "for_each xs f"] Cons by simp
qed

lemma write_fmt_place [preserves_intros]: "preserves writer_place (write_fmt args)"
  unfolding write_fmt_def by (intro preserves_intros)

lemma prints_kprint: "prints (kprint args)"
  unfolding kprint_def
proof (rule prints_with_kwriter)
  fix w :: VGAWriter
  assume "writer_ok w"
  then show "\<exists>w'. (write_fmt args :: (VGAWriter, hang, unit) prog) w = (Ok (), w') \<and> writer_ok w'"
    by (rule refinesE [OF refines_write_fmt]) blast
qed (intro preserves_intros)

lemma prints_kprint_color: "prints (kprint_color args color)"
  unfolding kprint_color_def
proof (rule prints_with_kwriter)
  fix w :: VGAWriter
  assume "writer_ok w"
  then have "writer_ok (w\<lparr>default_text := VgaColor_as_u32 color\<rparr>)"
    by simp
  then obtain w' where "(write_fmt args :: (VGAWriter, hang, unit) prog) (w\<lparr>default_text := VgaColor_as_u32 color\<rparr>) =
      (Ok (), w')" "writer_ok w'"
    by (rule refinesE [OF refines_write_fmt])
  then show "\<exists>w'. (try_prog (modifies (\<lambda>w. w\<lparr>default_text := VgaColor_as_u32 color\<rparr>)) (\<lambda>_.
      try_prog (write_fmt args) (\<lambda>_. modifies (\<lambda>w. w\<lparr>default_text := VgaColor_as_u32 DEFAULT_COLOR\<rparr>)))
      :: (VGAWriter, hang, unit) prog) w = (Ok (), w') \<and> writer_ok w'"
    by (simp add: try_prog_Ok)
qed (intro preserves_intros; simp add: writer_place_def)

lemma prints_set_color: "prints (kwriter_set_color c)" "prints (kwriter_set_bg c)"
  unfolding kwriter_set_color_def kwriter_set_bg_def 
  by (rule prints_with_kwriter; (intro preserves_intros)?; simp add: writer_place_def)+

lemma prints_macros: "prints (kprintln args)" "prints (kwarn args)" "prints (kerror args)"
  by (simp_all add: kprintln_def kwarn_def kerror_def prints_kprint prints_kprint_color)

text \<open>The panic handler at level one: the report is on the serial port and, in light red, on the screen.\<close>

definition panic_style :: "VGAWriter \<Rightarrow> text_style" where
  "panic_style w = (writer_style w)\<lparr>text_color := VgaColor_as_u32 LightRed\<rparr>"

lemma panic_handler_reports:
  assumes "console_ok s" "PANIC_LEVEL s = 1" "serial_println U info (SERIAL1 s) = (Ok (), p)"
  obtains w w' where "KWRITER s = Some w" "writer_ok w'"
    "panic_handler U info s = (Ok (), s\<lparr>SERIAL1 := p, KWRITER := Some w', kwriter_locked := False\<rparr>)"
    "\<And>t. whole_rows w \<Longrightarrow> shows_screen w t \<Longrightarrow>
       shows_screen w' (fold (fold (screen_char (panic_style w))) (info @ [[10]]) t)"
proof -
  obtain w where w: "KWRITER s = Some w" "writer_ok w" "\<not> kwriter_locked s"
    using assms(1) by (auto simp: console_ok_def)
  define v where "v = w\<lparr>default_text := VgaColor_as_u32 LightRed\<rparr>"
  have v: "writer_ok v" "whole_rows v = whole_rows w" "shows_screen v = shows_screen w" "writer_style v = panic_style w"
    using w(2) by (simp_all add: v_def whole_rows_def shows_screen_def fun_eq_iff panic_style_def writer_style_def
        del: VgaColor_as_u32.simps)
  obtain w' where w': "(write_fmt (info @ [[10]]) :: (VGAWriter, hang, unit) prog) v = (Ok (), w')" "writer_ok w'"
    "\<And>t. whole_rows v \<Longrightarrow> shows_screen v t \<Longrightarrow>
       shows_screen w' (fold (fold (screen_char (writer_style v))) (info @ [[10]]) t)"
    by (rule refinesE [OF refines_write_fmt v(1)]) blast
  have "panic_handler U info s = (Ok (), s\<lparr>SERIAL1 := p, KWRITER := Some w', kwriter_locked := False\<rparr>)"
    unfolding panic_handler_level_1 [of s U info p, unfolded w(1), OF option.distinct(2) assms(2,3)]
    by (rule with_kwriter_Ok [of _ w]) (use w w'(1) in \<open>simp_all add: v_def del: VgaColor_as_u32.simps\<close>)
  then show ?thesis
    using that [OF w(1) w'(2)] w'(3) v by simp
qed

end
