(* ===== verification/Gdt.thy ===== *)
theory Gdt
  imports X86_64_Interface
begin

text \<open>
  \<open>memory/gdt.rs\<close>: the task state segment with the stack of the double fault handler, and the global
  descriptor table. The tables of the x86\_64 crate are a parameter, the record \<open>descriptor_crate\<close>, with
  the laws the kernel relies on in the locale \<open>descriptor_tables\<close>; the last section has an instance of them.
  \<open>TSS\<close> and \<open>GDT\<close> are \<open>Once\<close> cells. The state also holds the registers the function writes: the table
  register, CS and the task register. The address of the static array \<open>STACK\<close> is an argument.
\<close>

record ('tss, 'desc, 'gdt, 'sel) descriptor_crate =
  tss_new :: 'tss
  set_interrupt_stack :: "nat \<Rightarrow> VirtAddr \<Rightarrow> 'tss \<Rightarrow> 'tss option"
  interrupt_stack :: "'tss \<Rightarrow> nat \<Rightarrow> VirtAddr"
  kernel_code_segment :: 'desc
  tss_segment :: "'tss \<Rightarrow> 'desc"
  gdt_new :: 'gdt
  gdt_append :: "'desc \<Rightarrow> 'gdt \<Rightarrow> ('sel \<times> 'gdt) option"
  gdt_descriptor :: "'gdt \<Rightarrow> 'sel \<Rightarrow> 'desc option"

record ('tss, 'gdt, 'sel) segment_state =
  TSS :: "'tss option"
  GDT :: "'gdt option"
  gdt_register :: "'gdt option"
  CS :: "'sel option"
  task_register :: "'sel option"

definition DOUBLE_FAULT_IST_INDEX :: nat where
  "DOUBLE_FAULT_IST_INDEX = 0"

definition DOUBLE_FAULT_STACK_SIZE :: usize where
  "DOUBLE_FAULT_STACK_SIZE = 4 * KIBIBYTE"

text \<open>The closure that builds the task state segment.\<close>

definition new_tss ::
    "('pte, 'fl, 'z) x86_64_scheme \<Rightarrow> ('tss, 'desc, 'gdt, 'sel, 'y) descriptor_crate_scheme \<Rightarrow> u64 \<Rightarrow>
       ('e, 'tss) outcome" where
  "new_tss X G STACK =
     try_outcome (of_lib (VirtAddr_new X STACK)) (\<lambda>stack_start.
     try_outcome (of_lib (VirtAddr_add X stack_start DOUBLE_FAULT_STACK_SIZE)) (\<lambda>stack_end.
     of_lib (set_interrupt_stack G DOUBLE_FAULT_IST_INDEX stack_end (tss_new G))))"

definition init_gdt ::
    "('pte, 'fl, 'z) x86_64_scheme \<Rightarrow> ('tss, 'desc, 'gdt, 'sel, 'y) descriptor_crate_scheme \<Rightarrow> u64 \<Rightarrow>
       (('tss, 'gdt, 'sel) segment_state, 'e, unit) prog" where
  "init_gdt X G STACK =
     try_prog (reads (\<lambda>s. case TSS s of None \<Rightarrow> new_tss X G STACK | Some t \<Rightarrow> Ok t)) (\<lambda>t.
     try_prog (modifies (\<lambda>s. s\<lparr>TSS := Some t\<rparr>)) (\<lambda>_.
     try_prog (reads (\<lambda>_. of_lib (gdt_append G (kernel_code_segment G) (gdt_new G)))) (\<lambda>(code_segment, gdt1).
     try_prog (reads (\<lambda>_. of_lib (gdt_append G (tss_segment G t) gdt1))) (\<lambda>(task_state_segment, gdt).
     try_prog (modifies (\<lambda>s. if GDT s = None then s\<lparr>GDT := Some gdt\<rparr> else s)) (\<lambda>_.
     try_prog (modifies (\<lambda>s. s\<lparr>gdt_register := GDT s\<rparr>)) (\<lambda>_.
     modifies (\<lambda>s. s\<lparr>CS := Some code_segment, task_register := Some task_state_segment\<rparr>)))))))"

section \<open>The descriptor tables of the crate\<close>

locale descriptor_tables =
  fixes G :: "('tss, 'desc, 'gdt, 'sel, 'y) descriptor_crate_scheme"
  assumes set_interrupt_stack:
      "i < 7 \<Longrightarrow> \<exists>t'. set_interrupt_stack G i a t = Some t' \<and> interrupt_stack G t' i = a"
    and append_two:
      "\<exists>c g1 s g2. gdt_append G (kernel_code_segment G) (gdt_new G) = Some (c, g1) \<and>
         gdt_append G (tss_segment G t) g1 = Some (s, g2)"
    and append_descriptor: "gdt_append G d g = Some (s, g') \<Longrightarrow> gdt_descriptor G g' s = Some d"
    and append_keeps:
      "gdt_append G d g = Some (s, g') \<Longrightarrow> gdt_descriptor G g s' = Some d' \<Longrightarrow> gdt_descriptor G g' s' = Some d'"
begin

lemma new_tss_eq:
  assumes "x86_64_crate X" "canonical STACK" "canonical (STACK + 4096)"
  obtains t where "new_tss X G STACK = Ok t" "interrupt_stack G t DOUBLE_FAULT_IST_INDEX = STACK + 4096"
proof -
  obtain t where "set_interrupt_stack G 0 (STACK + 4096) (tss_new G) = Some t" "interrupt_stack G t 0 = STACK + 4096"
    using set_interrupt_stack [of 0] by auto
  then show ?thesis
    using assms that by (simp add: new_tss_def x86_64_crate.VirtAddr_new x86_64_crate.VirtAddr_add
        DOUBLE_FAULT_STACK_SIZE_def KIBIBYTE_def DOUBLE_FAULT_IST_INDEX_def)
qed

text \<open>What \<open>init_gdt\<close> leaves in the registers at the first call.\<close>

lemma init_gdt_first:
  assumes "x86_64_crate X" "canonical STACK" "canonical (STACK + 4096)" "TSS s = None" "GDT s = None"
  shows "\<exists>s' t g c r. (init_gdt X G STACK :: (_, 'e, unit) prog) s = (Ok (), s') \<and> TSS s' = Some t \<and> gdt_register s' = Some g \<and>
    CS s' = Some c \<and> gdt_descriptor G g c = Some (kernel_code_segment G) \<and>
    task_register s' = Some r \<and> gdt_descriptor G g r = Some (tss_segment G t) \<and>
    interrupt_stack G t DOUBLE_FAULT_IST_INDEX = STACK + 4096"
proof -
  obtain t where t: "interrupt_stack G t DOUBLE_FAULT_IST_INDEX = STACK + 4096"
    and new: "(new_tss X G STACK :: ('e, 'tss) outcome) = Ok t"
    by (rule new_tss_eq [OF assms(1-3)])
  obtain c g1 r g where g: "gdt_append G (kernel_code_segment G) (gdt_new G) = Some (c, g1)"
    "gdt_append G (tss_segment G t) g1 = Some (r, g)"
    using append_two [of t] by auto
  define s' where "s' = s\<lparr>TSS := Some t, GDT := Some g, gdt_register := Some g, CS := Some c,
      task_register := Some r\<rparr>"
  have "(init_gdt X G STACK :: (_, 'e, unit) prog) s = (Ok (), s')"
    using assms(4,5) new g by (simp add: init_gdt_def s'_def)
  moreover have "gdt_descriptor G g c = Some (kernel_code_segment G)" "gdt_descriptor G g r = Some (tss_segment G t)"
    using append_keeps [OF g(2) append_descriptor [OF g(1)]] append_descriptor [OF g(2)] by simp_all
  ultimately show ?thesis
    using t by (auto simp: s'_def)
qed

end

text \<open>
  An instance: seven stack slots, a table of eight slots with the null descriptor first, where a task state
  segment takes two, and the byte offset of a descriptor as its selector.
\<close>

datatype descriptor = NullDescriptor | KernelCode | TaskState "VirtAddr list" | UpperHalf

definition table_append :: "descriptor \<Rightarrow> descriptor list \<Rightarrow> (nat \<times> descriptor list) option" where
  "table_append d g =
     (let ds = (case d of TaskState t \<Rightarrow> [d, UpperHalf] | _ \<Rightarrow> [d])
      in if length g + length ds \<le> 8 then Some (8 * length g, g @ ds) else None)"

definition descriptor_lists :: "(VirtAddr list, descriptor, descriptor list, nat) descriptor_crate" where
  "descriptor_lists = \<lparr>
     tss_new = replicate 7 0,
     set_interrupt_stack = (\<lambda>i a t. if i < 7 then Some ((take 7 (t @ replicate 7 0))[i := a]) else None),
     interrupt_stack = (\<lambda>t i. if i < length t then t ! i else 0),
     kernel_code_segment = KernelCode,
     tss_segment = TaskState,
     gdt_new = [NullDescriptor],
     gdt_append = table_append,
     gdt_descriptor = (\<lambda>g s. if s mod 8 = 0 \<and> s div 8 < length g then Some (g ! (s div 8)) else None)\<rparr>"

interpretation lists: descriptor_tables descriptor_lists
proof unfold_locales
  fix g g' :: "descriptor list" and d d' s s'
  assume "gdt_append descriptor_lists d g = Some (s, g')"
  then have ap: "s = 8 * length g" "\<exists>ds. g' = g @ d # ds"
    by (auto simp: descriptor_lists_def table_append_def Let_def split: if_splits descriptor.splits)
  then show "gdt_descriptor descriptor_lists g' s = Some d"
    by (auto simp: descriptor_lists_def)
  show "gdt_descriptor descriptor_lists g' s' = Some d'" if "gdt_descriptor descriptor_lists g s' = Some d'"
    using that ap by (auto simp: descriptor_lists_def nth_append split: if_splits)
qed (auto simp: descriptor_lists_def table_append_def)

end
