(* ===== verification/Interrupts.thy ===== *)
theory Interrupts
  imports Kernel_Writer Gdt
begin

text \<open>
  \<open>interrupts/exceptions.rs\<close> and \<open>interrupts/mod.rs\<close>: the exception handlers and the interrupt descriptor
  table. A handler never returns: it panics with a message, or in the \<open>unwrap\<close> of
  \<open>SelectorErrorCode::new\<close> while the message is built, the datatype \<open>raised\<close>. How the x86\_64 crate prints a
  stack frame, a selector error code, a page fault error code and the value of CR2 is a parameter, as is
  \<open>SelectorErrorCode::new\<close>. The table is a map from the exceptions that have a field in
  \<open>InterruptDescriptorTable\<close> to an entry; \<open>init_interrupts\<close> does nothing but return \<open>Ok\<close>, its body and the
  code for hardware interrupts being commented out.
\<close>

record ('f, 's, 'c) exception_format =
  debug_frame :: "'f \<Rightarrow> rust_char list"
  selector_error_code :: "u64 \<Rightarrow> 's option"
  debug_selector :: "'s \<Rightarrow> rust_char list"
  debug_page_fault :: "'c \<Rightarrow> rust_char list"
  debug_cr2 :: "(VirtAddr, u64) sum \<Rightarrow> rust_char list"  \<comment> \<open>a valid address or the raw value\<close>

datatype raised = PanicMessage "rust_char list" | UnwrapOfNone

section \<open>Handlers\<close>

definition division_error_handler :: "('f, 's, 'c) exception_format \<Rightarrow> 'f \<Rightarrow> raised" where
  "division_error_handler F stack_frame =
     PanicMessage (literal ''DIVISION ERROR: '' @ newline @ debug_frame F stack_frame)"

definition debug_handler :: "('f, 's, 'c) exception_format \<Rightarrow> 'f \<Rightarrow> raised" where
  "debug_handler F stack_frame =
     PanicMessage (literal ''DEBUG: '' @ newline @ debug_frame F stack_frame)"

definition nmi_handler :: "('f, 's, 'c) exception_format \<Rightarrow> 'f \<Rightarrow> raised" where
  "nmi_handler F stack_frame =
     PanicMessage (literal ''NON-MASKABLE INTERRUPT: '' @ newline @ debug_frame F stack_frame)"

definition breakpoint_handler :: "('f, 's, 'c) exception_format \<Rightarrow> 'f \<Rightarrow> raised" where
  "breakpoint_handler F stack_frame =
     PanicMessage (literal ''BREAKPOINT: '' @ newline @ debug_frame F stack_frame)"

definition overflow_handler :: "('f, 's, 'c) exception_format \<Rightarrow> 'f \<Rightarrow> raised" where
  "overflow_handler F stack_frame =
     PanicMessage (literal ''OVERFLOW: '' @ newline @ debug_frame F stack_frame)"

definition bound_range_exceeded_handler :: "('f, 's, 'c) exception_format \<Rightarrow> 'f \<Rightarrow> raised" where
  "bound_range_exceeded_handler F stack_frame =
     PanicMessage (literal ''BOUND RANGE EXCEEDED: '' @ newline @ debug_frame F stack_frame)"

definition invalid_opcode_handler :: "('f, 's, 'c) exception_format \<Rightarrow> 'f \<Rightarrow> raised" where
  "invalid_opcode_handler F stack_frame =
     PanicMessage (literal ''INVALID OPCODE: '' @ newline @ debug_frame F stack_frame)"

definition device_not_available_handler :: "('f, 's, 'c) exception_format \<Rightarrow> 'f \<Rightarrow> raised" where
  "device_not_available_handler F stack_frame =
     PanicMessage (literal ''DEVICE_NOT_AVAILABLE: '' @ newline @ debug_frame F stack_frame)"

definition double_fault_handler :: "('f, 's, 'c) exception_format \<Rightarrow> 'f \<Rightarrow> u64 \<Rightarrow> raised" where
  "double_fault_handler F stack_frame error_code =
     PanicMessage (literal ''!DOUBLE FAULT: '' @ newline @ debug_frame F stack_frame)"

definition invalid_tss_handler :: "('f, 's, 'c) exception_format \<Rightarrow> 'f \<Rightarrow> u64 \<Rightarrow> raised" where
  "invalid_tss_handler F stack_frame error_code = (case selector_error_code F error_code of
       None \<Rightarrow> UnwrapOfNone
     | Some c \<Rightarrow> PanicMessage (literal ''INVALID TASK-STATE SEGMENT: '' @ newline @ debug_frame F stack_frame @
         newline @ literal '' '' @ debug_selector F c))"

definition segment_not_present_handler :: "('f, 's, 'c) exception_format \<Rightarrow> 'f \<Rightarrow> u64 \<Rightarrow> raised" where
  "segment_not_present_handler F stack_frame error_code = (case selector_error_code F error_code of
       None \<Rightarrow> UnwrapOfNone
     | Some c \<Rightarrow> PanicMessage (literal ''SEGMENT NOT PRESENT: '' @ newline @ debug_frame F stack_frame @
         newline @ literal '' '' @ debug_selector F c))"

definition stack_segment_fault_handler :: "('f, 's, 'c) exception_format \<Rightarrow> 'f \<Rightarrow> u64 \<Rightarrow> raised" where
  "stack_segment_fault_handler F stack_frame error_code = (case selector_error_code F error_code of
       None \<Rightarrow> UnwrapOfNone
     | Some c \<Rightarrow> PanicMessage (literal ''STACK-SEGMENT FAULT: '' @ newline @ debug_frame F stack_frame @
         newline @ literal '' '' @ debug_selector F c))"

definition general_protection_fault_handler :: "('f, 's, 'c) exception_format \<Rightarrow> 'f \<Rightarrow> u64 \<Rightarrow> raised" where
  "general_protection_fault_handler F stack_frame error_code = (case selector_error_code F error_code of
       None \<Rightarrow> UnwrapOfNone
     | Some c \<Rightarrow> PanicMessage (literal ''GENERAL PROTECTION FAULT: '' @ newline @ debug_frame F stack_frame @
         newline @ debug_selector F c))"

definition page_fault_handler :: "('f, 's, 'c) exception_format \<Rightarrow> (VirtAddr, u64) sum \<Rightarrow> 'f \<Rightarrow> 'c \<Rightarrow> raised" where
  "page_fault_handler F cr2 stack_frame error_code =
     PanicMessage (literal ''PAGE FAULT '' @ newline @ literal ''Accessed Address: '' @ debug_cr2 F cr2 @ newline @
       literal ''Error Code: '' @ debug_page_fault F error_code @ newline @ debug_frame F stack_frame)"

definition x87_floating_point_exception_handler :: "('f, 's, 'c) exception_format \<Rightarrow> 'f \<Rightarrow> raised" where
  "x87_floating_point_exception_handler F stack_frame =
     PanicMessage (literal ''X87 FLOATING-POINT EXCEPTION: '' @ newline @ debug_frame F stack_frame)"

definition alignment_check_handler :: "('f, 's, 'c) exception_format \<Rightarrow> 'f \<Rightarrow> u64 \<Rightarrow> raised" where
  "alignment_check_handler F stack_frame error_code =
     PanicMessage (literal ''ALIGNMENT CHECK: '' @ newline @ debug_frame F stack_frame @
       newline @ literal '' error code: '' @ display_u64 error_code)"

definition machine_check_handler :: "('f, 's, 'c) exception_format \<Rightarrow> 'f \<Rightarrow> raised" where
  "machine_check_handler F stack_frame =
     PanicMessage (literal ''MACHINE CHECK: '' @ newline @ debug_frame F stack_frame)"

definition simd_floating_point_exception_handler :: "('f, 's, 'c) exception_format \<Rightarrow> 'f \<Rightarrow> raised" where
  "simd_floating_point_exception_handler F stack_frame =
     PanicMessage (literal ''SIMD FLOATING-POINT EXCEPTION: '' @ newline @ debug_frame F stack_frame)"

definition virtualization_exception_handler :: "('f, 's, 'c) exception_format \<Rightarrow> 'f \<Rightarrow> raised" where
  "virtualization_exception_handler F stack_frame =
     PanicMessage (literal ''VIRTUALIZATION EXCEPTION: '' @ newline @ debug_frame F stack_frame)"

definition control_protection_exception_handler :: "('f, 's, 'c) exception_format \<Rightarrow> 'f \<Rightarrow> u64 \<Rightarrow> raised" where
  "control_protection_exception_handler F stack_frame error_code =
     PanicMessage (literal ''CONTROL PROTECTION EXCEPTION: '' @ newline @ debug_frame F stack_frame @
       newline @ literal '' error code: '' @ display_u64 error_code)"

definition hypervisor_injection_exception_handler :: "('f, 's, 'c) exception_format \<Rightarrow> 'f \<Rightarrow> raised" where
  "hypervisor_injection_exception_handler F stack_frame =
     PanicMessage (literal ''HYPERVISOR INJECTION EXCEPTION: '' @ newline @ debug_frame F stack_frame)"

definition vmm_communication_exception_handler :: "('f, 's, 'c) exception_format \<Rightarrow> 'f \<Rightarrow> u64 \<Rightarrow> raised" where
  "vmm_communication_exception_handler F stack_frame error_code =
     PanicMessage (literal ''VMM COMMUNICATION EXCEPTION: '' @ newline @ debug_frame F stack_frame @
       newline @ literal '' error code: '' @ display_u64 error_code)"

definition security_exception_handler :: "('f, 's, 'c) exception_format \<Rightarrow> 'f \<Rightarrow> u64 \<Rightarrow> raised" where
  "security_exception_handler F stack_frame error_code =
     PanicMessage (literal ''SECURITY EXCEPTION: '' @ newline @ debug_frame F stack_frame @
       newline @ literal '' error code: '' @ display_u64 error_code)"

section \<open>The descriptor table\<close>

datatype exception =
    divide_error | debug | non_maskable_interrupt | breakpoint
  | overflow | bound_range_exceeded | invalid_opcode | device_not_available | double_fault
  | invalid_tss | segment_not_present | stack_segment_fault | general_protection_fault
  | page_fault | x87_floating_point | alignment_check | machine_check
  | simd_floating_point | virtualization | cp_protection_exception
  | hv_injection_exception | vmm_communication_exception | security_exception

datatype ('f, 'c) handler =
    Handler "'f \<Rightarrow> raised"
  | HandlerWithErrorCode "'f \<Rightarrow> u64 \<Rightarrow> raised"
  | PageFaultHandler "(VirtAddr, u64) sum \<Rightarrow> 'f \<Rightarrow> 'c \<Rightarrow> raised"

record ('f, 'c) idt_entry =
  entry_handler :: "('f, 'c) handler"
  stack_index :: "nat option"

definition IDT :: "('f, 's, 'c) exception_format \<Rightarrow> exception \<rightharpoonup> ('f, 'c) idt_entry" where
  "IDT F = map_of [
     (divide_error, \<lparr>entry_handler = Handler (division_error_handler F), stack_index = None\<rparr>),
     (debug, \<lparr>entry_handler = Handler (debug_handler F), stack_index = None\<rparr>),
     (non_maskable_interrupt, \<lparr>entry_handler = Handler (nmi_handler F), stack_index = None\<rparr>),
     (breakpoint, \<lparr>entry_handler = Handler (breakpoint_handler F), stack_index = None\<rparr>),
     (overflow, \<lparr>entry_handler = Handler (overflow_handler F), stack_index = None\<rparr>),
     (bound_range_exceeded, \<lparr>entry_handler = Handler (bound_range_exceeded_handler F), stack_index = None\<rparr>),
     (invalid_opcode, \<lparr>entry_handler = Handler (invalid_opcode_handler F), stack_index = None\<rparr>),
     (device_not_available, \<lparr>entry_handler = Handler (device_not_available_handler F), stack_index = None\<rparr>),
     (double_fault, \<lparr>entry_handler = HandlerWithErrorCode (double_fault_handler F), stack_index = Some DOUBLE_FAULT_IST_INDEX\<rparr>),
     (invalid_tss, \<lparr>entry_handler = HandlerWithErrorCode (invalid_tss_handler F), stack_index = None\<rparr>),
     (segment_not_present, \<lparr>entry_handler = HandlerWithErrorCode (segment_not_present_handler F), stack_index = None\<rparr>),
     (stack_segment_fault, \<lparr>entry_handler = HandlerWithErrorCode (stack_segment_fault_handler F), stack_index = None\<rparr>),
     (general_protection_fault, \<lparr>entry_handler = HandlerWithErrorCode (general_protection_fault_handler F), stack_index = None\<rparr>),
     (page_fault, \<lparr>entry_handler = PageFaultHandler (page_fault_handler F), stack_index = None\<rparr>),
     (x87_floating_point, \<lparr>entry_handler = Handler (x87_floating_point_exception_handler F), stack_index = None\<rparr>),
     (alignment_check, \<lparr>entry_handler = HandlerWithErrorCode (alignment_check_handler F), stack_index = None\<rparr>),
     (simd_floating_point, \<lparr>entry_handler = Handler (simd_floating_point_exception_handler F), stack_index = None\<rparr>),
     (virtualization, \<lparr>entry_handler = Handler (virtualization_exception_handler F), stack_index = None\<rparr>),
     (cp_protection_exception, \<lparr>entry_handler = HandlerWithErrorCode (control_protection_exception_handler F), stack_index = None\<rparr>),
     (hv_injection_exception, \<lparr>entry_handler = Handler (hypervisor_injection_exception_handler F), stack_index = None\<rparr>),
     (vmm_communication_exception, \<lparr>entry_handler = HandlerWithErrorCode (vmm_communication_exception_handler F), stack_index = None\<rparr>),
     (security_exception, \<lparr>entry_handler = HandlerWithErrorCode (security_exception_handler F), stack_index = None\<rparr>)]"

text \<open>The processor's table register, set by \<open>load_idt\<close>.\<close>

definition load_idt :: "('f, 's, 'c) exception_format \<Rightarrow> ((exception \<rightharpoonup> ('f, 'c) idt_entry) option, 'e, unit) prog" where
  "load_idt F = modifies (\<lambda>_. Some (IDT F))"

definition init_interrupts :: "('s, unit, unit) prog" where
  "init_interrupts = ret ()"

section \<open>Raising an exception\<close>

text \<open>The call the processor makes of an entry's handler, with the arguments the handler takes.\<close>

fun invoke :: "('f, 'c) handler \<Rightarrow> 'f \<Rightarrow> u64 \<Rightarrow> 'c \<Rightarrow> (VirtAddr, u64) sum \<Rightarrow> raised" where
  "invoke (Handler h) stack_frame code pf cr2 = h stack_frame"
| "invoke (HandlerWithErrorCode h) stack_frame code pf cr2 = h stack_frame code"
| "invoke (PageFaultHandler h) stack_frame code pf cr2 = h cr2 stack_frame pf"

lemmas handler_defs =
  division_error_handler_def
  debug_handler_def
  nmi_handler_def
  breakpoint_handler_def
  overflow_handler_def
  bound_range_exceeded_handler_def
  invalid_opcode_handler_def
  device_not_available_handler_def
  double_fault_handler_def
  invalid_tss_handler_def
  segment_not_present_handler_def
  stack_segment_fault_handler_def
  general_protection_fault_handler_def
  page_fault_handler_def
  x87_floating_point_exception_handler_def
  alignment_check_handler_def
  machine_check_handler_def
  simd_floating_point_exception_handler_def
  virtualization_exception_handler_def
  control_protection_exception_handler_def
  hypervisor_injection_exception_handler_def
  vmm_communication_exception_handler_def
  security_exception_handler_def

text \<open>The first line of the report of an exception.\<close>

fun exception_title :: "exception \<Rightarrow> string" where
  "exception_title divide_error = ''DIVISION ERROR: ''"
| "exception_title debug = ''DEBUG: ''"
| "exception_title non_maskable_interrupt = ''NON-MASKABLE INTERRUPT: ''"
| "exception_title breakpoint = ''BREAKPOINT: ''"
| "exception_title overflow = ''OVERFLOW: ''"
| "exception_title bound_range_exceeded = ''BOUND RANGE EXCEEDED: ''"
| "exception_title invalid_opcode = ''INVALID OPCODE: ''"
| "exception_title device_not_available = ''DEVICE_NOT_AVAILABLE: ''"
| "exception_title double_fault = ''!DOUBLE FAULT: ''"
| "exception_title invalid_tss = ''INVALID TASK-STATE SEGMENT: ''"
| "exception_title segment_not_present = ''SEGMENT NOT PRESENT: ''"
| "exception_title stack_segment_fault = ''STACK-SEGMENT FAULT: ''"
| "exception_title general_protection_fault = ''GENERAL PROTECTION FAULT: ''"
| "exception_title page_fault = ''PAGE FAULT ''"
| "exception_title x87_floating_point = ''X87 FLOATING-POINT EXCEPTION: ''"
| "exception_title alignment_check = ''ALIGNMENT CHECK: ''"
| "exception_title machine_check = ''MACHINE CHECK: ''"
| "exception_title simd_floating_point = ''SIMD FLOATING-POINT EXCEPTION: ''"
| "exception_title virtualization = ''VIRTUALIZATION EXCEPTION: ''"
| "exception_title cp_protection_exception = ''CONTROL PROTECTION EXCEPTION: ''"
| "exception_title hv_injection_exception = ''HYPERVISOR INJECTION EXCEPTION: ''"
| "exception_title vmm_communication_exception = ''VMM COMMUNICATION EXCEPTION: ''"
| "exception_title security_exception = ''SECURITY EXCEPTION: ''"

lemma IDT_installed: "IDT F e = None \<longleftrightarrow> e = machine_check"
  by (cases e) (simp_all add: IDT_def)

lemma IDT_stack_index:
  "IDT F e = Some entry \<Longrightarrow> stack_index entry = (if e = double_fault then Some DOUBLE_FAULT_IST_INDEX else None)"
  by (cases e) (auto simp: IDT_def)

lemma IDT_reports:
  assumes "IDT F e = Some entry" "\<And>c. c < 2 ^ 16 \<Longrightarrow> selector_error_code F c \<noteq> None" "code < 2 ^ 16"
  shows "\<exists>rest. invoke (entry_handler entry) stack_frame code pf cr2 =
    PanicMessage (literal (exception_title e) @ newline @ rest)"
proof -
  obtain c where "selector_error_code F code = Some c"
    using assms(2,3) by blast
  then show ?thesis
    using assms(1) by (cases e) (auto simp: IDT_def handler_defs)
qed

end
