(* ===== verification/Kernel_Main.thy ===== *)
theory Kernel_Main
  imports Interrupts Memory_Init Processor_View
begin

text \<open>
  \<open>kernel_main\<close> of \<open>lib.rs\<close>, which starts every component in turn, with \<open>log_ram_map\<close> of \<open>memory/mod.rs\<close>.
  The state of the machine puts together the states of the components. A panic with a message of the
  kernel's own is the error \<open>Panicked\<close>; the text of other panics is a parameter, as is the text the crates
  print for their types. \<open>run_kernel\<close> is \<open>kernel_main\<close> followed, after a panic, by \<open>panic_handler\<close>: it ends
  well when the processor reaches a halt.

  Until \<open>load\<close> the kernel runs on the bootloader's page table, which maps everything it uses. From then on every
  access goes through the table in CR3, as the processor walks it (\<open>cpu_allows\<close>): \<open>load_table\<close> determines which
  pixels of the framebuffer can still be read and written, and the kernel goes on only when its code, its data and
  the part of the stack it uses are reachable. How many bytes of stack below the entry stack pointer the compiled
  kernel uses is an argument. A page fault on the framebuffer is a panic, as the page fault handler makes it; a fault
  on the code, the data or the stack, where the processor cannot call that handler as usual, is the error \<open>Crashed\<close>,
  and what a double fault then does is not followed.
\<close>

datatype kernel_stop = Hung | Crashed | Panicked "rust_char list"

record ('u, 'pte, 'tss, 'gdt, 'sel, 'f, 'c) machine =
  con :: "'u serial console"
  segments :: "('tss, 'gdt, 'sel) segment_state"
  idt_register :: "(exception \<rightharpoonup> ('f, 'c) idt_entry) option"
  memory :: "'pte boot_state"
  CR3 :: "PhysAddr option"
  ALLOCATOR :: "(u64 \<times> usize) option"
  KERNEL_PAGING_CONTROLLER :: "KernelPagingController option"

text \<open>The bootloader's answers and the text of foreign types.\<close>

record boot_responses =
  framebuffers :: "Linear_Framebuffer.Framebuffer list option"
  bootloader_info :: "(rust_char list \<times> rust_char list) option"
  memory_map :: "MemoryRegionInfo list option"
  addresses :: boot_info

record printing =
  debug_region_type :: "MemoryRegionType \<Rightarrow> rust_char list"
  debug_memory_error :: "MemoryError \<Rightarrow> rust_char list"
  panic_text :: "panic \<Rightarrow> rust_char list"
  panic_info :: "rust_char list \<Rightarrow> rust_char list list"

section \<open>The memory map on the screen\<close>

text \<open>\<open>{:0>12X}\<close>: upper case hexadecimal digits, padded with zeros to twelve.\<close>

fun upper_hex :: "u64 \<Rightarrow> rust_char list" where
  "upper_hex n =
     (let d = n mod 16; c = (if d < 10 then 48 + d else 55 + d)
      in if n < 16 then [c] else upper_hex (n div 16) @ [c])"

declare upper_hex.simps [simp del]

definition hex12 :: "u64 \<Rightarrow> rust_char list" where
  "hex12 n = replicate (12 - length (upper_hex n)) 48 @ upper_hex n"

definition region_color :: "MemoryRegionType \<Rightarrow> VgaColor" where
  "region_color t = (case t of
      Usable \<Rightarrow> LightGreen
    | Reserved \<Rightarrow> LightRed
    | BadMemory \<Rightarrow> LightRed
    | MemoryRegionType.Framebuffer \<Rightarrow> LightBlue
    | _ \<Rightarrow> DarkGray)"

definition log_region :: "printing \<Rightarrow> MemoryRegionInfo \<Rightarrow> ('p console, hang, unit) prog" where
  "log_region P r =
     try_prog (reads (\<lambda>_. add64 (base r) (length_of r))) (\<lambda>end_of.
     try_prog (kprint [literal ''[0x'', hex12 (base r), literal ''->0x'', hex12 end_of, literal '']: '']) (\<lambda>_.
     try_prog (kwriter_set_color (VgaColor_as_u32 (region_color (region_type r)))) (\<lambda>_.
     try_prog (kprintln [debug_region_type P (region_type r)]) (\<lambda>_.
     kwriter_set_color (VgaColor_as_u32 DEFAULT_COLOR)))))"

definition log_ram_map :: "printing \<Rightarrow> MemoryRegionInfo list \<Rightarrow> ('p console, hang, unit) prog" where
  "log_ram_map P rammap_entries =
     try_prog (kprintln [literal ''Bootloader provided physical RAM map:'']) (\<lambda>_.
     for_each rammap_entries (log_region P))"

section \<open>\<open>kernel_main\<close>\<close>

type_synonym ('u, 'pte, 'tss, 'gdt, 'sel, 'f, 'c, 'a) kernel =
  "(('u, 'pte, 'tss, 'gdt, 'sel, 'f, 'c) machine, kernel_stop, 'a) prog"

definition on_console :: "('u serial console, hang, 'a) prog \<Rightarrow> ('u, 'pte, 'tss, 'gdt, 'sel, 'f, 'c, 'a) kernel" where
  "on_console p = map_err_prog (\<lambda>_. Hung) (zoom con (\<lambda>c m. m\<lparr>con := c\<rparr>) p)"

definition on_serial :: "('u serial, hang, 'a) prog \<Rightarrow> ('u, 'pte, 'tss, 'gdt, 'sel, 'f, 'c, 'a) kernel" where
  "on_serial p = on_console (zoom SERIAL1 (\<lambda>q c. c\<lparr>SERIAL1 := q\<rparr>) p)"

text \<open>Accesses to memory: the page tables are filled through the direct map at \<open>off\<close>.\<close>

definition allows ::
    "('pte, 'fl, 'z) x86_64_scheme \<Rightarrow> u64 \<Rightarrow> ('u, 'pte, 'tss, 'gdt, 'sel, 'f, 'c) machine \<Rightarrow> access \<Rightarrow> VirtAddr \<Rightarrow> bool" where
  "allows X off m k a = (case CR3 m of
      None \<Rightarrow> True | Some root \<Rightarrow> cpu_allows X off (tables (memory m)) root k a)"

text \<open>The pixels of a framebuffer are aligned, so that each lies in one page.\<close>

definition see_pixels :: "(access \<Rightarrow> VirtAddr \<Rightarrow> bool) \<Rightarrow> VGAWriter \<Rightarrow> VGAWriter" where
  "see_pixels ok w = w\<lparr>lfb := (lfb w)\<lparr>readable := (\<lambda>i. ok Read (buffer_at (lfb w) + 4 * i)),
     writable := (\<lambda>i. ok Write (buffer_at (lfb w) + 4 * i))\<rparr>\<rparr>"

text \<open>The pages of the code, the data and the stack that the running kernel needs.\<close>

definition stack_pages :: "usize \<Rightarrow> u64 \<Rightarrow> VirtAddr list" where
  "stack_pages stack_depth entry_stack_pointer = map (\<lambda>p. p * PAGE_SIZE)
     [(entry_stack_pointer - stack_depth) div PAGE_SIZE..<div_ceil entry_stack_pointer PAGE_SIZE]"

definition kernel_reachable :: "boot_info \<Rightarrow> usize \<Rightarrow> u64 \<Rightarrow> (access \<Rightarrow> VirtAddr \<Rightarrow> bool) \<Rightarrow> bool" where
  "kernel_reachable info stack_depth entry_stack_pointer ok \<longleftrightarrow>
     list_all (ok Execute) (page_range (text_start info) (rodata_start info)) \<and>
     list_all (ok Read) (page_range (rodata_start info) (data_start info)) \<and>
     list_all (ok Write) (page_range (data_start info) (elf_end info)) \<and>
     list_all (ok Write) (stack_pages stack_depth entry_stack_pointer)"

text \<open>The effect of writing CR3 in \<open>load\<close> on what the kernel can reach.\<close>

definition load_table ::
    "('pte, 'fl, 'z) x86_64_scheme \<Rightarrow> boot_info \<Rightarrow> u64 \<Rightarrow> usize \<Rightarrow> u64 \<Rightarrow> PhysAddr \<Rightarrow>
       ('u, 'pte, 'tss, 'gdt, 'sel, 'f, 'c, unit) kernel" where
  "load_table X info off stack_depth entry_stack_pointer root =
     try_prog (modifies (\<lambda>m. m\<lparr>CR3 := Some root\<rparr>)) (\<lambda>_.
     try_prog (modifies (\<lambda>m. m\<lparr>con := (con m)\<lparr>KWRITER := map_option (see_pixels (allows X off m)) (KWRITER (con m))\<rparr>\<rparr>)) (\<lambda>_.
     reads (\<lambda>m. if kernel_reachable info stack_depth entry_stack_pointer (allows X off m) then Ok () else Err Crashed)))"

text \<open>
  \<open>init_heap\<close> of \<open>memory/heap.rs\<close>. Of the linked list allocator the kernel only calls \<open>init\<close>, so \<open>ALLOCATOR\<close> is
  the address and the size it was given; the caller of \<open>init\<close> promises that the block is valid memory, and breaking
  the promise is \<open>Panic BadPointer\<close>.
\<close>

definition init_heap ::
    "('pte, 'fl, 'z) x86_64_scheme \<Rightarrow> u64 \<Rightarrow> u64 \<Rightarrow> ('u, 'pte, 'tss, 'gdt, 'sel, 'f, 'c, unit) kernel" where
  "init_heap X off address =
     try_prog (reads (\<lambda>m. if list_all (allows X off m Write) (page_range address (address + KERNEL_HEAP_SIZE))
       then Ok () else Panic BadPointer)) (\<lambda>_.
     try_prog (modifies (\<lambda>m. m\<lparr>ALLOCATOR := Some (address, KERNEL_HEAP_SIZE)\<rparr>)) (\<lambda>_.
     on_console (kprintln [literal ''Heap Initialized''])))"

text \<open>\<open>init_memory\<close> with its output, and the \<open>panic!\<close> of \<open>kernel_main\<close> when it fails.\<close>

definition start_memory ::
    "('pte, 'fl, 'z) x86_64_scheme \<Rightarrow> 'u uart \<Rightarrow> printing \<Rightarrow> boot_responses \<Rightarrow> usize \<Rightarrow> u64 \<Rightarrow>
       ('u, 'pte, 'tss, 'gdt, 'sel, 'f, 'c, unit) kernel" where
  "start_memory X U P resp stack_depth entry_stack_pointer =
     try_prog (reads (\<lambda>_. unwrap_option (memory_map resp))) (\<lambda>rammap_entries.
     try_prog (reads (\<lambda>_. unwrap_option (hhdm_offset (addresses resp)))) (\<lambda>off.
     try_prog (on_console (log_ram_map P rammap_entries)) (\<lambda>_.
     try_prog (map_err_prog (\<lambda>e. Panicked (debug_memory_error P e))
       (zoom memory (\<lambda>b m. m\<lparr>memory := b\<rparr>)
         (init_memory X (addresses resp) (memory_map resp) entry_stack_pointer))) (\<lambda>result.
     try_prog (load_table X (addresses resp) off stack_depth entry_stack_pointer (cr3 result)) (\<lambda>_.
     try_prog (on_serial (serial_println_literal U (literal ''PEIS''))) (\<lambda>_.
     try_prog (init_heap X off (heap_start result)) (\<lambda>_.
     modifies (\<lambda>m. case KERNEL_PAGING_CONTROLLER m of
         None \<Rightarrow> m\<lparr>KERNEL_PAGING_CONTROLLER := Some (paging_controller result)\<rparr>
       | Some _ \<Rightarrow> m))))))))"

definition kernel_main ::
    "('pte, 'fl, 'z) x86_64_scheme \<Rightarrow> ('tss, 'desc, 'gdt, 'sel, 'y) descriptor_crate_scheme \<Rightarrow>
       ('f, 's, 'c) exception_format \<Rightarrow> 'u uart \<Rightarrow> printing \<Rightarrow> boot_responses \<Rightarrow> u64 \<Rightarrow> usize \<Rightarrow> u64 \<Rightarrow>
       ('u, 'pte, 'tss, 'gdt, 'sel, 'f, 'c, unit) kernel" where
  "kernel_main X G F U P resp STACK stack_depth entry_stack_pointer =
     try_prog (on_console (init_kwriter (framebuffers resp))) (\<lambda>_.
     try_prog (reads (\<lambda>_. unwrap_option (bootloader_info resp))) (\<lambda>(name, version).
     try_prog (on_console (kprintln [literal ''Kermol was loaded using '', name, literal '' '', version])) (\<lambda>_.
     try_prog (zoom segments (\<lambda>g m. m\<lparr>segments := g\<rparr>) (init_gdt X G STACK)) (\<lambda>_.
     try_prog (on_console (kprintln [literal ''Global Descriptor Table initialized''])) (\<lambda>_.
     try_prog (zoom idt_register (\<lambda>t m. m\<lparr>idt_register := t\<rparr>) (load_idt F)) (\<lambda>_.
     try_prog (on_console (kprintln
       [literal ''Interrupt Descriptor Table loaded, Exceptions are now enabled''])) (\<lambda>_.
     try_prog (start_memory X U P resp stack_depth entry_stack_pointer) (\<lambda>_.
     on_serial (serial_println_literal U (literal ''Hi''))))))))))"

definition run_kernel ::
    "('pte, 'fl, 'z) x86_64_scheme \<Rightarrow> ('tss, 'desc, 'gdt, 'sel, 'y) descriptor_crate_scheme \<Rightarrow>
       ('f, 's, 'c) exception_format \<Rightarrow> 'u uart \<Rightarrow> printing \<Rightarrow> boot_responses \<Rightarrow> u64 \<Rightarrow> usize \<Rightarrow> u64 \<Rightarrow>
       ('u, 'pte, 'tss, 'gdt, 'sel, 'f, 'c, unit) kernel" where
  "run_kernel X G F U P resp STACK stack_depth entry_stack_pointer m =
     (case kernel_main X G F U P resp STACK stack_depth entry_stack_pointer m of
        (Ok _, m') \<Rightarrow> (Ok (), m')
      | (Err Hung, m') \<Rightarrow> (Err Hung, m')
      | (Err Crashed, m') \<Rightarrow> (Err Crashed, m')
      | (Err (Panicked t), m') \<Rightarrow> on_console (panic_handler U (panic_info P t)) m'
      | (Panic p, m') \<Rightarrow> on_console (panic_handler U (panic_info P (panic_text P p))) m')"

end
