(* ===== verification/Table_Switch.thy ===== *)
theory Table_Switch
  imports After_Boot Kernel_Main
begin

text \<open>
  The switch to the kernel's own page table. \<open>table_serves\<close> says that the table \<open>init_memory\<close> leaves lets the kernel
  go on: it reaches its code, its data, the part of the stack it uses, the heap and every pixel of the framebuffer.
  The boot conditions imply it when the memory map lists the framebuffer and the stack top is page aligned.
\<close>

section \<open>What the kernel needs of the table\<close>

definition table_serves ::
    "('pte, 'fl, 'z) x86_64_scheme \<Rightarrow> boot_responses \<Rightarrow> usize \<Rightarrow> u64 \<Rightarrow> 'pte boot_state \<Rightarrow> init_result \<Rightarrow> bool" where
  "table_serves X resp stack_depth sp b res = (case (hhdm_offset (addresses resp), framebuffers resp) of
      (Some off, Some (f # fs)) \<Rightarrow>
        (let ok = cpu_allows X off (tables b) (cr3 res) in
         kernel_reachable (addresses resp) stack_depth sp ok \<and>
         list_all (ok Write) (page_range (heap_start res) (heap_start res + KERNEL_HEAP_SIZE)) \<and>
         (\<forall>i < fb_width f * fb_height f. ok Write (fb_address f + 4 * i)))
    | _ \<Rightarrow> False)"

text \<open>The framebuffer lies in a region of the memory map with its type, and not the one of the stack.\<close>

definition framebuffer_listed :: "u64 \<Rightarrow> MemoryRegionInfo list \<Rightarrow> VirtAddr \<Rightarrow> Linear_Framebuffer.Framebuffer \<Rightarrow> bool" where
  "framebuffer_listed off mmap sp f \<longleftrightarrow> list_ex (\<lambda>r. region_type r = MemoryRegionType.Framebuffer \<and>
     \<not> stack_within off sp r \<and> base r + off \<le> fb_address f \<and>
     fb_address f + 4 * (fb_width f * fb_height f) \<le> base r + off + length_of r) mmap"

text \<open>A page of the loaded table that is mapped with the flags for an access.\<close>

definition root_allows ::
    "('pte, 'fl, 'z) x86_64_scheme \<Rightarrow> u64 \<Rightarrow> 'pte boot_state \<Rightarrow> PhysAddr \<Rightarrow> access \<Rightarrow> VirtAddr \<Rightarrow> bool" where
  "root_allows X off b root k a \<longleftrightarrow> canonical a \<and>
     (\<exists>p fl. mapped X \<lparr>lvl4 = root + off, internal_offset = off\<rparr> (tables b) a = Some (p, fl) \<and>
        flags_contains X fl (PRESENT X) \<and> (case k of Read \<Rightarrow> True | Write \<Rightarrow> flags_contains X fl (WRITABLE X)
          | Execute \<Rightarrow> \<not> flags_contains X fl (NO_EXECUTE X)))"

lemma cpu_allows_read: "cpu_allows X off mem f k a \<Longrightarrow> cpu_allows X off mem f Read a"
  by (auto simp: cpu_allows_def list_all_iff simp del: cpu_entries.simps split: option.splits)

lemma free_range_canonical: "free_range to n \<Longrightarrow> to \<le> a \<Longrightarrow> a < to + n * 4096 \<Longrightarrow> canonical a"
  by (auto simp: free_range_def canonical_def)

lemma page_range_member:
  assumes "p \<in> set (page_range a b)" "a mod 4096 = 0" "b mod 4096 = 0"
  shows "a \<le> p" "p < b"
proof -
  obtain i where i: "p = a + i * 4096" "i < div_ceil (b - a) 4096"
    using assms(1) by (auto simp: page_range_def)
  obtain m n where mn: "a = 4096 * m" "b = 4096 * n"
    using assms(2,3) by (auto simp: mod_eq_0_iff_dvd elim!: dvdE)
  then have "div_ceil (b - a) 4096 = n - m"
    by (simp add: div_ceil_def flip: diff_mult_distrib2)
  then show "a \<le> p" "p < b"
    using i mn by auto
qed

section \<open>The table of a boot\<close>

context x86_64_crate
begin

lemma named_permissions:
  "flags_contains X (flags_or X (flags_rx X) (GLOBAL X)) (PRESENT X)"
  "\<not> flags_contains X (flags_or X (flags_rx X) (GLOBAL X)) (NO_EXECUTE X)"
  "flags_contains X (flags_or X (flags_r X) (GLOBAL X)) (PRESENT X)"
  "flags_contains X (flags_or X (flags_rw X) (GLOBAL X)) (PRESENT X)"
  "flags_contains X (flags_or X (flags_rw X) (GLOBAL X)) (WRITABLE X)"
  "flags_contains X (flags_rw X) (WRITABLE X)" "flags_contains X (flags_rwx X) (WRITABLE X)"
  by (simp_all add: flags_rx_def flags_r_def flags_rw_def flags_rwx_def flag_simps)

lemma root_allowsD:
  assumes "paging_inv X linear_good linear_taken \<lparr>lvl4 = root + off, internal_offset = off\<rparr> b" "root_allows X off b root k a"
  shows "cpu_allows X off (tables b) root k a"
proof -
  obtain p fl where m: "canonical a" "mapped X \<lparr>lvl4 = root + off, internal_offset = off\<rparr> (tables b) a = Some (p, fl)"
    "flags_contains X fl (PRESENT X)" "case k of Read \<Rightarrow> True | Write \<Rightarrow> flags_contains X fl (WRITABLE X)
          | Execute \<Rightarrow> \<not> flags_contains X fl (NO_EXECUTE X)"
    using assms(2) unfolding root_allows_def by blast
  show ?thesis
    using cpu_allows_mapped [OF assms(1) _ m(1-3), of root k] m(4) by simp
qed

lemma boot_image_reachable:
  assumes lay: "boot_layout info mmap sp off k region highest"
    and info: "hhdm_offset info = Some off" "kernel_address info = Some (vb, pb)"
    and run: "init_memory X info (Some mmap) sp s = (Ok res, b)"
  shows "list_all (root_allows X off b (cr3 res) Execute) (page_range (text_start info) (rodata_start info))"
    "list_all (root_allows X off b (cr3 res) Read) (page_range (rodata_start info) (data_start info))"
    "list_all (root_allows X off b (cr3 res) Write) (page_range (data_start info) (elf_end info))"
proof -
  note sections = boot_sections [OF lay info run]
  have secs: "text_start info mod 4096 = 0" "rodata_start info mod 4096 = 0" "data_start info mod 4096 = 0"
    "elf_end info mod 4096 = 0" "limine_reqs_start info \<le> text_start info" "limine_reqs_start info \<le> rodata_start info"
    "limine_reqs_start info \<le> data_start info" "rodata_start info \<le> elf_end info" "data_start info \<le> elf_end info"
    "elf_end info - limine_reqs_start info \<le> length_of k" "free_range (limine_reqs_start info) (size_in_pages (length_of k))"
    using boot_layoutD(3) [OF lay] by (auto simp: kernel_ok_def split: option.splits)
  have can: "canonical p" if "limine_reqs_start info \<le> p" "p < elf_end info" for p
    by (rule free_range_canonical [OF secs(11) that(1)])
      (use that secs(10) size_in_pages_bounds(1) [of "length_of k"] in simp)
  show "list_all (root_allows X off b (cr3 res) Execute) (page_range (text_start info) (rodata_start info))"
    using sections(1) page_range_member [of _ "text_start info" "rodata_start info"] secs can named_permissions
    by (fastforce simp: list_all_iff root_allows_def)
  show "list_all (root_allows X off b (cr3 res) Read) (page_range (rodata_start info) (data_start info))"
    using sections(2) page_range_member [of _ "rodata_start info" "data_start info"] secs can named_permissions
    by (fastforce simp: list_all_iff root_allows_def)
  show "list_all (root_allows X off b (cr3 res) Write) (page_range (data_start info) (elf_end info))"
    using sections(3) page_range_member [of _ "data_start info" "elf_end info"] secs can named_permissions
    by (fastforce simp: list_all_iff root_allows_def)
qed

lemma boot_stack_reachable:
  assumes lay: "boot_layout info mmap sp off k region highest"
    and info: "hhdm_offset info = Some off" "kernel_address info = Some (vb, pb)"
    and run: "init_memory X info (Some mmap) sp s = (Ok res, b)"
    and top: "(sp + 16) mod 4096 = 0" "stack_depth + 16 \<le> STACK_SIZE"
  shows "list_all (root_allows X off b (cr3 res) Write) (stack_pages stack_depth sp)"
  unfolding list_all_iff
proof
  obtain q where q: "sp + 16 = 4096 * q"
    using top(1) by (auto simp: mod_eq_0_iff_dvd elim!: dvdE)
  obtain r where r: "stack_within off sp r" "misc_ok off r"
    using boot_layoutD(4,5) [OF lay] by (auto simp: stack_within_def)
  then have size: "STACK_SIZE = 16 * 4096" "base r + off + STACK_SIZE \<le> sp + 16"
    by (simp_all add: stack_within_def STACK_SIZE_def KIBIBYTE_def)
  fix a assume "a \<in> set (stack_pages stack_depth sp)"
  then obtain p where p: "a = p * 4096" "(sp - stack_depth) div 4096 \<le> p" "p < div_ceil sp 4096"
    by (auto simp: stack_pages_def)
  have "div_ceil sp 4096 * 4096 < sp + 4096"
    by (rule div_ceil_bounds) simp
  then have "div_ceil sp 4096 \<le> q"
    using q by simp
  moreover have "4096 * q - 16 * 4096 \<le> sp - stack_depth"
    using top(2) q size(1) by linarith
  then have "q - 16 \<le> (sp - stack_depth) div 4096"
    by (simp add: less_eq_div_iff_mult_less_eq)
  ultimately have pq: "q \<le> p + 16" "p < q"
    using p(2,3) by linarith+
  then have a: "sp + 16 \<le> a + STACK_SIZE" "a div 4096 < (sp + 16) div 4096"
    unfolding p(1) q size(1) by simp_all
  then have "base r + off \<le> a" "a \<le> sp + 16"
    using size pq(2) unfolding q p(1) by simp_all
  then have "canonical a"
    by (rule stack_address(1) [OF r])
  then show "root_allows X off b (cr3 res) Write a"
    using boot_stack_mapped [OF lay info run a] section_flags_present(3) named_permissions(6)
    by (simp add: root_allows_def)
qed

lemma boot_pixels_reachable:
  assumes lay: "boot_layout info mmap sp off k region highest"
    and info: "hhdm_offset info = Some off" "kernel_address info = Some (vb, pb)"
    and run: "init_memory X info (Some mmap) sp s = (Ok res, b)"
    and fb: "framebuffer_listed off mmap sp f" and i: "i < fb_width f * fb_height f"
  shows "root_allows X off b (cr3 res) Write (fb_address f + 4 * i)"
proof -
  obtain r where r: "r \<in> set mmap" "region_type r = MemoryRegionType.Framebuffer" "\<not> stack_within off sp r"
    "base r + off \<le> fb_address f" "fb_address f + 4 * (fb_width f * fb_height f) \<le> base r + off + length_of r"
    using fb by (auto simp: framebuffer_listed_def list_ex_iff)
  define a where "a = fb_address f + 4 * i"
  have a: "base r + off \<le> a" "a < base r + off + size_in_pages (length_of r) * 4096"
    using r(4,5) i size_in_pages_bounds(1) [of "length_of r"] by (auto simp: a_def)
  have ok: "free_range (base r + off) (size_in_pages (length_of r))" and flags: "misc_flags X (region_type r) = Some (flags_rwx X)"
    using boot_layoutD(4) [OF lay] r(1,2) by (auto simp: misc_region_def misc_ok_def misc_flags_def)
  obtain d where d: "base r + off = 4096 * d"
    using ok by (auto simp: free_range_def mod_eq_0_iff_dvd elim!: dvdE)
  define j where "j = a div 4096 - d"
  have "d \<le> a div 4096" "a div 4096 < d + size_in_pages (length_of r)"
    using a unfolding d by (auto simp: less_eq_div_iff_mult_less_eq div_less_iff_less_mult algebra_simps)
  then have j: "j < size_in_pages (length_of r)" "a div 4096 = (base r + off + j * 4096) div 4096"
    by (auto simp: j_def d)
  have "mapped X \<lparr>lvl4 = cr3 res + off, internal_offset = off\<rparr> (tables b) a = Some (base r + j * 4096, flags_rwx X)"
    using boot_keeps_region [OF lay info run r(1) flags r(3) j(1)]
      mapped_page_key [OF page_key_cong [OF j(2)], of X "\<lparr>lvl4 = cr3 res + off, internal_offset = off\<rparr>" "tables b"] by simp
  then show ?thesis
    using free_range_canonical [OF ok a] section_flags_present(4) named_permissions(7)
    by (simp add: root_allows_def a_def)
qed

lemma boot_heap_reachable:
  assumes lay: "boot_layout info mmap sp off k region highest" and heap: "heap_start res = base region + off"
    and "\<forall>i < 1024. mapped X \<lparr>lvl4 = cr3 res + off, internal_offset = off\<rparr> (tables b) (base region + off + i * 4096) =
      Some (base region + i * 4096, flags_rw X)"
  shows "list_all (root_allows X off b (cr3 res) Write) (page_range (heap_start res) (heap_start res + KERNEL_HEAP_SIZE))"
proof -
  have "canonical (base region + off + i * 4096)" if "i < 1024" for i
    by (rule free_range_page(1) [OF boot_layoutD(9) [OF lay]])
      (use that boot_region_apart(2) [OF lay] in simp)
  moreover have "div_ceil KERNEL_HEAP_SIZE 4096 = 1024"
    by (simp add: KERNEL_HEAP_SIZE_def MEBIBYTE_def KIBIBYTE_def div_ceil_def)
  ultimately show ?thesis
    using assms(3) section_flags_present(3) named_permissions(6)
    by (auto simp: list_all_iff page_range_def heap root_allows_def)
qed

lemma boot_table_serves:
  assumes lay: "boot_layout (addresses resp) mmap sp off k region highest"
    and info: "hhdm_offset (addresses resp) = Some off" "largest_usable mmap = Some region"
      "find (\<lambda>r. region_type r = ExecutableAndModules) mmap = Some k"
      "(highest_valid_region mmap :: (MemoryError, MemoryRegionInfo) outcome) = Ok highest"
    and fb: "framebuffers resp = Some (f # fs)" "framebuffer_listed off mmap sp f"
    and top: "(sp + 16) mod 4096 = 0" "stack_depth + 16 \<le> STACK_SIZE"
    and run: "init_memory X (addresses resp) (Some mmap) sp s = (Ok res, b)"
  shows "table_serves X resp stack_depth sp b res"
proof -
  obtain vb pb where ka: "kernel_address (addresses resp) = Some (vb, pb)"
    using boot_layoutD(3) [OF lay] by (auto simp: kernel_ok_def split: option.splits)
  obtain pt where pt: "pt = \<lparr>lvl4 = cr3 res + off, internal_offset = off\<rparr>"
    and at: "boot_at (base region + length_of region) {(sp + 16) div 4096} pt 0
      (boot_pages off (addresses resp) k mmap sp region) b"
    and heap: "\<forall>k < 1024. mapped X pt (tables b) (base region + off + k * 4096) = Some (base region + k * 4096, flags_rw X)"
      "heap_start res = base region + off"
    by (rule init_memory_boot [OF lay info, of s]) (use run in auto)
  have inv: "paging_inv X linear_good linear_taken \<lparr>lvl4 = cr3 res + off, internal_offset = off\<rparr> b"
    using at unfolding boot_at_def pt by simp
  note image = boot_image_reachable [OF lay info(1) ka run] boot_stack_reachable [OF lay info(1) ka run top]
    boot_heap_reachable [OF lay heap(2) heap(1) [unfolded pt]]
  show ?thesis
    using image boot_pixels_reachable [OF lay info(1) ka run fb(2)] root_allowsD [OF inv]
    unfolding table_serves_def kernel_reachable_def info(1) fb(1) Let_def
    by (auto simp: list_all_iff)
qed

end

end
