(* ===== verification/Display_Properties.thy ===== *)
theory Display_Properties
  imports Kernel_Writer
begin

text \<open>
  The properties of the display components: the text writer against the ideal text screen, the kernel's
  shared writer, the font, and the framebuffer underneath. A framebuffer of 16 by 32 pixels, two by two
  cells, is the concrete input of the witnesses.
\<close>

definition small_framebuffer :: Framebuffer where
  "small_framebuffer = \<lparr>fb_width = 16, fb_height = 32, bpp = 32, fb_address = 0xFFFF800005000000,
     pixels = replicate 512 0\<rparr>"

definition small_lfb :: LinearFramebuffer where
  "small_lfb = \<lparr>dimensions = (16, 32), buffer_at = 0xFFFF800005000000, buffer = replicate 512 0,
     readable = (\<lambda>_. True), writable = (\<lambda>_. True)\<rparr>"

definition small_writer :: VGAWriter where
  "small_writer = VGAWriter_new small_lfb True 0xAAAAAA 0"

definition blank_screen :: text_screen where
  "blank_screen = \<lparr>grid = (\<lambda>_ _ _ _. 0), cursor_column = 0, cursor_row = 0\<rparr>"

definition small_console :: "rust_char list serial console" where
  "small_console = \<lparr>KWRITER = None, kwriter_locked = False, PANIC_LEVEL = 0,
     SERIAL1 = \<lparr>port = None, serial_locked = False\<rparr>\<rparr>"

lemma small_lfb_ok: "fb_ok small_lfb" "dimensions small_lfb = (16, 32)"
  by (simp_all add: small_lfb_def fb_ok_def)

lemma small_writer_ok: "writer_ok small_writer" "whole_rows small_writer" "shows_screen small_writer blank_screen"
proof -
  show "writer_ok small_writer"
    unfolding small_writer_def by (rule new_writer_ok) (simp_all add: small_lfb_ok)
  show "whole_rows small_writer"
    by (simp add: whole_rows_def small_writer_def VGAWriter_new_def small_lfb_def font_size)
  have "pixel small_lfb x y = 0" if "on_screen small_lfb x y" for x y
    using offset_in_bounds(1) [OF small_lfb_ok(1) that] by (simp add: pixel_def small_lfb_def)
  then show "shows_screen small_writer blank_screen"
    using cell_pixel_on_screen [of small_lfb]
    by (auto simp: shows_screen_def small_writer_def VGAWriter_new_def blank_screen_def cell_shows_def font_size)
qed

section \<open>The text writer\<close>

text \<open>C34. The text writer implements the ideal text screen. When the cursor is on the screen and the height
  is a whole number of text rows, \<open>write_string\<close> ends without a panic for every string, keeps the cursor on
  the screen, and the cells then show what the ideal screen holds after the same characters: tabs as four
  blanks, newlines, wrapping at the last column, and scrolling (or starting again at the top) at the last row.\<close>

theorem write_string_refines_screen:
  assumes "writer_ok w" "whole_rows w" "shows_screen w t"
  shows "\<exists>w'. VGAWriter_write_string s w = (Ok (), w') \<and> writer_ok w' \<and>
    shows_screen w' (fold (screen_char (writer_style w)) s t)"
  by (rule refinesE [OF refines_string assms(1)]) (use assms in blast)

theorem write_string_refines_screen_witness:
  "\<exists>w'. VGAWriter_write_string [75, 9, 10, 33] small_writer = (Ok (), w') \<and> writer_ok w' \<and>
    shows_screen w' (fold (screen_char (writer_style small_writer)) [75, 9, 10, 33] blank_screen)"
  using write_string_refines_screen [OF small_writer_ok] by blast

text \<open>C35. \<open>write_string\<close> never panics and never fails: from a cursor on the screen, on a framebuffer of any
  height, every string is written and the cursor is on the screen again; the colours, the scrolling mode and
  the size of the screen are unchanged.\<close>

theorem write_string_never_panics:
  assumes "writer_ok w"
  shows "\<exists>w'. VGAWriter_write_string s w = (Ok (), w') \<and> writer_ok w' \<and> writer_style w' = writer_style w"
  by (rule refinesE [OF refines_string assms]) blast

theorem write_string_never_panics_witness:
  "\<exists>w'. VGAWriter_write_string (replicate 1000 9) small_writer = (Ok (), w') \<and> writer_ok w' \<and>
    writer_style w' = writer_style small_writer"
  using write_string_never_panics [OF small_writer_ok(1)] by blast

lemma write_plain_char:
  assumes "writer_ok w" "c \<noteq> 9" "c \<noteq> 10" "column w + 1 < fst (get_text_buffer_dimensions (lfb w))"
  shows "\<exists>fb'. (VGAWriter_write_char c :: (VGAWriter, 'e, unit) prog) w =
      (Ok (), w\<lparr>lfb := fb', column := column w + 1\<rparr>) \<and>
    writer_ok (w\<lparr>lfb := fb', column := column w + 1\<rparr>) \<and> dimensions fb' = dimensions (lfb w) \<and>
    cell_shows fb' (column w) (row w) (char_picture (default_text w) (default_background w) (of_nat c)) \<and>
    (\<forall>k r p. cell_on_screen (lfb w) k r \<longrightarrow> (k, r) \<noteq> (column w, row w) \<longrightarrow>
       cell_shows fb' k r p = cell_shows (lfb w) k r p)"
proof -
  obtain fb' where fb': "(put_at_cursor c :: (VGAWriter, 'e, unit) prog) w =
      (Ok (), w\<lparr>lfb := fb', column := column w + 1\<rparr>)" "fb_ok fb'" "dimensions fb' = dimensions (lfb w)"
    "cell_shows fb' (column w) (row w) (char_picture (default_text w) (default_background w) (of_nat c))"
    "\<forall>k r p. cell_on_screen (lfb w) k r \<longrightarrow> (k, r) \<noteq> (column w, row w) \<longrightarrow>
       cell_shows fb' k r p = cell_shows (lfb w) k r p"
    using put_at_cursor_effect [OF assms(1), of c, where 'e = 'e] by blast
  have ok: "writer_ok (w\<lparr>lfb := fb', column := column w + 1\<rparr>)"
    using assms(1,4) fb'(2,3)
    by (simp add: writer_ok_def cell_on_screen_def get_text_buffer_dimensions_def)
  have "(VGAWriter_write_char c :: (VGAWriter, 'e, unit) prog) w = (Ok (), w\<lparr>lfb := fb', column := column w + 1\<rparr>)"
    unfolding VGAWriter_write_char.simps [of c] if_not_P [OF assms(2)] if_not_P [OF assms(3)]
    by (rule trans, rule try_prog_Ok, rule fb'(1)) (rule wrap_line_ok [OF ok])
  then show ?thesis
    using ok fb'(3-5) by blast
qed

text \<open>C36. A string without tabs and newlines that ends before the last cell of the line appears at the cursor: the \<open>i\<close>-th
  character is drawn in the \<open>i\<close>-th cell from the cursor with the writer's colours, all other cells of the
  screen keep what they show, and the cursor stands behind the string.\<close>

theorem write_string_shows_text:
  assumes "writer_ok w" "list_all (\<lambda>c. c \<noteq> 9 \<and> c \<noteq> 10) s"
    and "column w + length s < fst (get_text_buffer_dimensions (lfb w))"
  shows "\<exists>w'. VGAWriter_write_string s w = (Ok (), w') \<and>
    VGAWriter_get_position w' = (row w, column w + length s) \<and>
    (\<forall>i < length s. cell_shows (lfb w') (column w + i) (row w)
       (char_picture (default_text w) (default_background w) (of_nat (s ! i)))) \<and>
    (\<forall>k r p. cell_on_screen (lfb w) k r \<longrightarrow> r \<noteq> row w \<or> k < column w \<or> column w + length s \<le> k \<longrightarrow>
       cell_shows (lfb w') k r p = cell_shows (lfb w) k r p)"
  using assms
proof (induction s arbitrary: w)
  case Nil
  then show ?case
    by (simp add: VGAWriter_write_string_def VGAWriter_get_position_def)
next
  case (Cons c s)
  then obtain fb' where w1: "(VGAWriter_write_char c :: (VGAWriter, 'a, unit) prog) w =
      (Ok (), w\<lparr>lfb := fb', column := column w + 1\<rparr>)"
    "writer_ok (w\<lparr>lfb := fb', column := column w + 1\<rparr>)" "dimensions fb' = dimensions (lfb w)"
    "cell_shows fb' (column w) (row w) (char_picture (default_text w) (default_background w) (of_nat c))"
    "\<forall>k r p. cell_on_screen (lfb w) k r \<longrightarrow> (k, r) \<noteq> (column w, row w) \<longrightarrow>
       cell_shows fb' k r p = cell_shows (lfb w) k r p"
    using write_plain_char [of w c, where 'e = 'a] by auto
  define v where "v = w\<lparr>lfb := fb', column := column w + 1\<rparr>"
  have v: "column v = column w + 1" "row v = row w" "lfb v = fb'" "default_text v = default_text w"
    "default_background v = default_background w"
    by (simp_all add: v_def)
  have on: "cell_on_screen fb' = cell_on_screen (lfb w)"
    by (rule cell_on_screen_cong) (rule w1(3))
  have dims: "get_text_buffer_dimensions fb' = get_text_buffer_dimensions (lfb w)"
    by (simp add: get_text_buffer_dimensions_def w1(3))
  obtain w' where w': "(VGAWriter_write_string s :: (VGAWriter, 'a, unit) prog) v = (Ok (), w')"
    "VGAWriter_get_position w' = (row w, column w + 1 + length s)"
    "\<forall>i < length s. cell_shows (lfb w') (column w + 1 + i) (row w)
       (char_picture (default_text w) (default_background w) (of_nat (s ! i)))"
    "\<forall>k r p. cell_on_screen (lfb w) k r \<longrightarrow> r \<noteq> row w \<or> k < column w + 1 \<or> column w + 1 + length s \<le> k \<longrightarrow>
       cell_shows (lfb w') k r p = cell_shows fb' k r p"
    using Cons.IH [of v] Cons.prems w1(2) unfolding v_def [symmetric] v on dims by auto
  have "(VGAWriter_write_string (c # s) :: (VGAWriter, 'a, unit) prog) w = (Ok (), w')"
    using w1(1) w'(1) by (simp add: VGAWriter_write_string_def try_prog_def v_def)
  moreover have "cell_shows (lfb w') (column w + i) (row w)
      (char_picture (default_text w) (default_background w) (of_nat ((c # s) ! i)))" if "i < length (c # s)" for i
  proof (cases i)
    case 0
    have "cell_on_screen (lfb w) (column w) (row w)"
      using Cons.prems(1) by (simp add: writer_ok_def)
    then show ?thesis
      using 0 w'(4) w1(4) by simp
  next
    case (Suc j)
    then show ?thesis
      using w'(3) that by simp
  qed
  moreover have "cell_shows (lfb w') k r p = cell_shows (lfb w) k r p"
    if "cell_on_screen (lfb w) k r" "r \<noteq> row w \<or> k < column w \<or> column w + length (c # s) \<le> k" for k r p
  proof -
    have "cell_shows (lfb w') k r p = cell_shows fb' k r p"
      using w'(4) that by auto
    also have "\<dots> = cell_shows (lfb w) k r p"
      using w1(5) that by auto
    finally show ?thesis .
  qed
  ultimately show ?case
    using w'(2) by (intro exI [of _ w']) simp
qed

theorem write_string_shows_text_witness:
  "\<exists>w'. VGAWriter_write_string [75] small_writer = (Ok (), w') \<and> VGAWriter_get_position w' = (0, 1) \<and>
    cell_shows (lfb w') 0 0 (char_picture 0xAAAAAA 0 75)"
  using write_string_shows_text [OF small_writer_ok(1), of "[75]"]
  by (auto simp: small_writer_def VGAWriter_new_def small_lfb_def get_text_buffer_dimensions_def font_size)

text \<open>A cursor outside the screen makes the writer panic: after \<open>set_position\<close> to a row or column that is
  not on the screen, writing any character but tab and newline fails the \<open>unwrap\<close> in \<open>put_char\<close>, and no pixel
  is changed.\<close>

theorem off_screen_position_panics:
  assumes "\<not> cell_on_screen (lfb w) c r" "r < 2 ^ 32" "c < 2 ^ 32" "ch \<noteq> 9" "ch \<noteq> 10"
  shows "try_prog (VGAWriter_set_position r c) (\<lambda>_. VGAWriter_write_char ch) w =
    (Panic UnwrapFailed, w\<lparr>row := r, column := c\<rparr>)"
  using assms(4,5) by (simp add: put_char_outside [OF assms(1-3)] VGAWriter_set_position_def VGAWriter_write_char.simps [of ch] put_at_cursor_def
      on_lfb_def zoom_def try_prog_def)

theorem off_screen_position_panics_witness:
  "try_prog (VGAWriter_set_position 2 0) (\<lambda>_. VGAWriter_write_char 75) small_writer =
    (Panic UnwrapFailed, small_writer\<lparr>row := 2, column := 0\<rparr>)"
  by (rule off_screen_position_panics)
    (simp_all add: small_writer_def VGAWriter_new_def small_lfb_def fb_ok_def cell_on_screen_def
      get_text_buffer_dimensions_def font_size)

section \<open>The kernel's shared writer\<close>

text \<open>C37. Once \<open>init_kwriter\<close> has run for the first time, with a framebuffer of 32 bits per pixel, at an aligned address
  with its end inside the address space, that holds at least one character and is less than \<open>2 ^ 31\<close> pixels wide and
  high, the kernel can always print: the writer starts at the top left in light gray on black and
  scrolls, the panic level is raised to one, and any \<open>kprint\<close>, any \<open>kprint_color\<close> and the panic handler
  return, with the lock free again; the handler has also sent its text over the serial line, when its lock is
  free.\<close>

theorem kernel_can_print:
  assumes "usable_framebuffer f" "KWRITER s = None" "PANIC_LEVEL s = 0"
    and "serial_line U sent" "\<not> serial_locked (SERIAL1 s)"
  shows "\<exists>s' w. init_kwriter (Some (f # fs)) s = (Ok (), s') \<and> console_ok s' \<and> PANIC_LEVEL s' = 1 \<and>
    KWRITER s' = Some w \<and> dimensions (lfb w) = (fb_width f, fb_height f) \<and> VGAWriter_get_position w = (0, 0) \<and>
    default_text w = VgaColor_as_u32 LightGray \<and> default_background w = VgaColor_as_u32 Black \<and> scrolling w \<and>
    (\<exists>s''. kprint args s' = (Ok (), s'') \<and> console_ok s'') \<and>
    (\<exists>s''. kprint_color args color s' = (Ok (), s'') \<and> console_ok s'') \<and>
    (\<exists>s''. panic_handler U info s' = (Ok (), s'') \<and> console_ok s'' \<and>
       serial_output sent (SERIAL1 s'') = serial_output sent (SERIAL1 s) @ concat info @ [10])"
proof -
  obtain p where p: "serial_println U info (SERIAL1 s) = (Ok (), p)"
    "serial_output sent p = serial_output sent (SERIAL1 s) @ concat info @ [10]"
    using serial_line.serial_prints(1) [OF assms(4,5)] by blast
  obtain w where w: "init_kwriter (Some (f # fs)) s =
      (Ok (), s\<lparr>KWRITER := Some w, kwriter_locked := False, PANIC_LEVEL := PANIC_LEVEL s + 1\<rparr>)" "writer_ok w"
    and start: "writer_place w = (fb_address f, fb_width f, fb_height f)" "VGAWriter_get_position w = (0, 0)"
      "default_text w = VgaColor_as_u32 LightGray" "default_background w = 0" "scrolling w"
    using init_kwriter_ok [OF assms(1,2)] by blast
  define s' where "s' = s\<lparr>KWRITER := Some w, kwriter_locked := False, PANIC_LEVEL := PANIC_LEVEL s + 1\<rparr>"
  have s': "console_ok s'" "PANIC_LEVEL s' = 1" "KWRITER s' = Some w"
    using w(2) assms(3) by (simp_all add: s'_def console_ok_def)
  have "serial_println U info (SERIAL1 s') = (Ok (), p)"
    using p(1) by (simp add: s'_def)
  then have "\<exists>s''. panic_handler U info s' = (Ok (), s'') \<and> console_ok s'' \<and>
      serial_output sent (SERIAL1 s'') = serial_output sent (SERIAL1 s) @ concat info @ [10]"
    by (rule panic_handler_reports [OF s'(1,2)]) (simp add: console_ok_def p(2))
  moreover have "dimensions (lfb w) = (fb_width f, fb_height f)" "default_background w = VgaColor_as_u32 Black"
    using start by (simp_all add: writer_place_def fb_place_def)
  ultimately show ?thesis
    using w(1) s' start(2,3,5) prints_kprint [of args] prints_kprint_color [of args color]
    unfolding s'_def [symmetric] prints_def console_keeps_def by blast
qed

theorem kernel_can_print_witness:
  "\<exists>s' w. init_kwriter (Some [small_framebuffer]) small_console = (Ok (), s') \<and> KWRITER s' = Some w \<and>
    VGAWriter_get_position w = (0, 0) \<and> default_text w = 0xAAAAAA \<and>
    (\<exists>s''. kprint_color [[72, 105]] Pink s' = (Ok (), s'') \<and> console_ok s'') \<and>
    (\<exists>s''. panic_handler wire [[72, 105]] s' = (Ok (), s'') \<and> serial_output (\<lambda>u. u) (SERIAL1 s'') = [72, 105, 10])"
proof -
  have "usable_framebuffer small_framebuffer" "KWRITER small_console = None" "PANIC_LEVEL small_console = 0"
    "\<not> serial_locked (SERIAL1 small_console)" "serial_output (\<lambda>u. u) (SERIAL1 small_console) = []"
    by (simp_all add: usable_framebuffer_def small_framebuffer_def small_console_def serial_output_def)
  then show ?thesis
    using kernel_can_print [where f = small_framebuffer and fs = "[]" and s = small_console and args = "[[72, 105]]"
        and color = Pink and info = "[[72, 105]]", OF _ _ _ wire.serial_line_axioms] by fastforce
qed

text \<open>C38. A panic while printing hangs the panic handler: when \<open>kprint\<close> panics, the lock of the writer stays
  taken, and at panic level one the handler, after its output on the serial port, waits for that lock for
  ever instead of reaching the halt.\<close>

theorem panic_while_printing_hangs:
  assumes "KWRITER s = Some w" "\<not> kwriter_locked s" "PANIC_LEVEL s = 1" "kprint args s = (Panic p, s')"
    and "serial_line U sent" "\<not> serial_locked (SERIAL1 s)"
  shows "\<exists>q. panic_handler U info s' = (Err SpinsForever, s'\<lparr>SERIAL1 := q\<rparr>) \<and>
    serial_output sent q = serial_output sent (SERIAL1 s) @ concat info @ [10]"
proof -
  obtain q where q: "serial_println U info (SERIAL1 s) = (Ok (), q)"
    "serial_output sent q = serial_output sent (SERIAL1 s) @ concat info @ [10]"
    using serial_line.serial_prints(1) [OF assms(5,6)] by blast
  obtain r w' where run: "(write_fmt args :: (VGAWriter, hang, unit) prog) w = (r, w')"
    by (cases "(write_fmt args :: (VGAWriter, hang, unit) prog) w") auto
  have "r = Panic p" "s' = s\<lparr>KWRITER := Some w', kwriter_locked := True\<rparr>"
    using assms(4) unfolding kprint_def with_kwriter_def
    by (auto simp: assms(1,2) zoom_def try_prog_def run split: outcome.splits)
  then show ?thesis
    using assms(3) q by (intro exI [of _ q]) (simp add: panic_handler_level_1 with_kwriter_locked [of _ w'])
qed

definition tiny_console :: "rust_char list serial console" where
  "tiny_console = \<lparr>KWRITER = Some (VGAWriter_new (small_lfb\<lparr>dimensions := (4, 4), buffer := replicate 16 0\<rparr>) True 0xAAAAAA 0),
     kwriter_locked = False, PANIC_LEVEL = 1, SERIAL1 = \<lparr>port = None, serial_locked = False\<rparr>\<rparr>"

lemma tiny_console_panics:
  "kprint [[72]] tiny_console = (Panic UnwrapFailed, tiny_console\<lparr>kwriter_locked := True\<rparr>)"
proof -
  have "\<not> cell_on_screen (small_lfb\<lparr>dimensions := (4, 4), buffer := replicate 16 0\<rparr>) 0 0"
    by (simp add: cell_on_screen_def get_text_buffer_dimensions_def font_size)
  note outside = put_char_outside [OF this, simplified]
  show ?thesis
    by (simp add: kprint_def with_kwriter_def write_fmt_def VGAWriter_write_string_def tiny_console_def
        VGAWriter_write_char.simps [of 72] put_at_cursor_def on_lfb_def zoom_def VGAWriter_new_def try_prog_def outside)
qed

theorem panic_while_printing_hangs_witness:
  "kprint [[72]] tiny_console = (Panic UnwrapFailed, tiny_console\<lparr>kwriter_locked := True\<rparr>) \<and>
   (\<exists>s. panic_handler wire [[72]] (tiny_console\<lparr>kwriter_locked := True\<rparr>) = (Err SpinsForever, s))"
  using panic_while_printing_hangs [OF _ _ _ tiny_console_panics wire.serial_line_axioms, of _ "[[72]]"] tiny_console_panics
  by (auto simp: tiny_console_def)

section \<open>The font\<close>

text \<open>The printable glyphs, 33 to 126, with the blank one and the one for unknown characters.\<close>

definition printable_glyphs :: "u8 list list" where
  "printable_glyphs = take 94 (drop 33 VGA_BASIC_FONT)"

lemma printable_glyphs_check:
  "distinct (UNKNOWN_CHARACTER # replicate 16 0 # printable_glyphs)"
  "take 33 VGA_BASIC_FONT = replicate 33 (replicate 16 0)" "drop 127 VGA_BASIC_FONT = [replicate 16 0]"
  by code_simp+

lemma glyph_of_printable:
  assumes "33 \<le> c" "c \<le> 126"
  shows "glyph_of c = printable_glyphs ! (unat c - 33)" "unat c - 33 < length printable_glyphs"
  using assms font_shape by (simp_all add: glyph_of_def printable_glyphs_def word_le_nat_alt word_less_nat_alt)

lemma glyph_of_other:
  assumes "\<not> (33 \<le> c \<and> c \<le> 126)"
  shows "glyph_of c = UNKNOWN_CHARACTER \<or> glyph_of c = replicate 16 0"
proof -
  consider "unat c < 33" | "unat c = 127" | "127 < c"
    using assms by (force simp: word_le_nat_alt word_less_nat_alt)
  then show ?thesis
  proof cases
    case 1
    then have "VGA_BASIC_FONT ! unat c = take 33 VGA_BASIC_FONT ! unat c"
      by simp
    then show ?thesis
      using 1 by (simp add: printable_glyphs_check(2) glyph_of_def word_less_nat_alt)
  next
    case 2
    have "VGA_BASIC_FONT ! 127 = drop 127 VGA_BASIC_FONT ! 0"
      using font_shape by simp
    then show ?thesis
      using 2 by (simp add: printable_glyphs_check(3) glyph_of_def word_less_nat_alt)
  qed (simp add: glyph_of_def)
qed

lemma glyph_of_visible:
  assumes "33 \<le> c" "c \<le> 126"
  shows "glyph_of d = glyph_of c \<longleftrightarrow> d = c"
proof
  assume same: "glyph_of d = glyph_of c"
  have in_font: "glyph_of c \<in> set printable_glyphs"
    using glyph_of_printable [OF assms] by simp
  have d: "33 \<le> d \<and> d \<le> 126"
  proof (rule ccontr)
    assume "\<not> (33 \<le> d \<and> d \<le> 126)"
    then show False
      using glyph_of_other [of d] in_font same printable_glyphs_check(1) by auto
  qed
  then have "unat d - 33 = unat c - 33"
    using same glyph_of_printable [OF assms] glyph_of_printable [of d] printable_glyphs_check(1)
    by (simp add: nth_eq_iff_index_eq)
  then show "d = c"
    using d assms by (simp add: word_le_nat_alt eq_diff_iff word_unat_eq_iff)
qed simp

text \<open>C39. The font is complete and readable: \<open>get_char_glyph\<close> returns a glyph of 16 rows for every byte,
  without indexing outside the table, the box \<open>UNKNOWN_CHARACTER\<close> for the bytes above 127; and the glyph of a visible
  character (33 to 126) belongs to no other byte, so that different visible characters look different and none
  looks like a blank or like the box.\<close>

theorem visible_glyphs_identify:
  "(\<forall>c. \<exists>g. get_char_glyph c = (Ok g :: ('e, u8 list) outcome) \<and> length g = 16) \<and>
   (\<forall>c > 127. get_char_glyph c = (Ok UNKNOWN_CHARACTER :: ('e, u8 list) outcome)) \<and>
   (\<forall>c d. 33 \<le> c \<and> c \<le> 126 \<longrightarrow> get_char_glyph d = (get_char_glyph c :: ('e, u8 list) outcome) \<longleftrightarrow> d = c)"
  by (auto simp: get_char_glyph_eq length_glyph_of glyph_of_visible, simp add: glyph_of_def)

theorem visible_glyphs_identify_witness:
  "(\<exists>g. get_char_glyph 128 = (Ok g :: (unit, u8 list) outcome) \<and> length g = 16) \<and>
   get_char_glyph 66 \<noteq> (get_char_glyph 65 :: (unit, u8 list) outcome)"
proof -
  have "(33 :: u8) \<le> 65 \<and> (65 :: u8) \<le> 126" "(66 :: u8) \<noteq> 65"
    by simp_all
  then show ?thesis
    using visible_glyphs_identify [where 'e = unit] by blast
qed

section \<open>The framebuffer\<close>

text \<open>\<open>put_char\<close> at a cell on the screen draws the character's glyph there, bit by bit in the two colours,
  and changes no pixel outside the cell.\<close>

theorem put_char_draws_cell:
  assumes "fb_ok fb" "cell_on_screen fb k r"
  shows "\<exists>fb'. put_char k r color background c fb = (Ok (), fb') \<and> fb_ok fb' \<and>
    (\<forall>x y. on_screen fb x y \<longrightarrow> pixel fb' x y =
      (if y div VGA_FONT_HEIGHT = r \<and> x div VGA_FONT_WIDTH = k
       then if bit (glyph_of c ! (y mod VGA_FONT_HEIGHT)) (7 - x mod VGA_FONT_WIDTH) then color else background
       else pixel fb x y))"
proof -
  have cell: "r * 16 \<le> y \<and> y < r * 16 + 16 \<and> k * 8 \<le> x \<and> x < k * 8 + 8 \<longleftrightarrow>
      y div 16 = r \<and> x div 8 = k" for x y :: nat
    by auto
  obtain fb' where fb': "(put_char k r color background c :: (LinearFramebuffer, 'a, unit) prog) fb = (Ok (), fb')"
    "fb_ok fb'"
    "\<And>x y. on_screen fb x y \<Longrightarrow> pixel fb' x y = (if y div 16 = r \<and> x div 8 = k
       then char_picture color background c (x - k * 8) (y - r * 16) else pixel fb x y)"
    using put_char_pixels [OF assms, of color background c, where 'e = 'a] unfolding cell by blast
  have "pixel fb' x y = (if y div 16 = r \<and> x div 8 = k
      then if bit (glyph_of c ! (y mod 16)) (7 - x mod 8) then color else background else pixel fb x y)"
    if "on_screen fb x y" for x y
    using fb'(3) [OF that] by (auto simp: char_picture_def glyph_color_def minus_div_mult_eq_mod)
  then show ?thesis
    using fb'(1,2) unfolding font_size by blast
qed

theorem put_char_draws_cell_witness:
  "\<exists>fb'. put_char 1 1 0xFFFFFF 0 65 small_lfb = (Ok (), fb') \<and> pixel fb' 11 18 = 0xFFFFFF \<and> pixel fb' 7 18 = 0"
proof -
  have "\<exists>fb'. put_char 1 1 0xFFFFFF 0 65 small_lfb = (Ok (), fb') \<and> fb_ok fb' \<and>
    (\<forall>x y. on_screen small_lfb x y \<longrightarrow> pixel fb' x y =
      (if y div VGA_FONT_HEIGHT = 1 \<and> x div VGA_FONT_WIDTH = 1
       then if bit (glyph_of 65 ! (y mod VGA_FONT_HEIGHT)) (7 - x mod VGA_FONT_WIDTH) then 0xFFFFFF else 0
       else pixel small_lfb x y))"
    by (rule put_char_draws_cell)
      (simp_all add: small_lfb_ok cell_on_screen_def get_text_buffer_dimensions_def font_size)
  moreover have "on_screen small_lfb 11 18" "on_screen small_lfb 7 18" "pixel small_lfb 7 18 = 0"
    by (simp_all add: on_screen_def small_lfb_def pixel_def)
  moreover have "bit (glyph_of 65 ! 2) 4"
    by code_simp
  ultimately show ?thesis
    by (auto simp: font_size)
qed

text \<open>\<open>scroll\<close> moves every pixel row up by \<open>layers\<close> and fills the rows that become free with the colour;
  its raw copies and writes stay inside the buffer.\<close>

theorem scroll_moves_rows:
  assumes "fb_ok fb" "layers \<le> snd (dimensions fb)"
  shows "\<exists>fb'. LinearFramebuffer_scroll layers c fb = (Ok (), fb') \<and> fb_ok fb' \<and> dimensions fb' = dimensions fb \<and>
    (\<forall>x y. on_screen fb x y \<longrightarrow> pixel fb' x y =
      (if y + layers < snd (dimensions fb) then pixel fb x (y + layers) else c))"
  by (rule scroll_pixels [OF assms])

theorem scroll_moves_rows_witness:
  "\<exists>fb'. LinearFramebuffer_scroll 16 7 small_lfb = (Ok (), fb') \<and> pixel fb' 3 20 = 7 \<and> pixel fb' 3 10 = 0"
proof -
  have "\<exists>fb'. LinearFramebuffer_scroll 16 7 small_lfb = (Ok (), fb') \<and> fb_ok fb' \<and>
    dimensions fb' = dimensions small_lfb \<and> (\<forall>x y. on_screen small_lfb x y \<longrightarrow> pixel fb' x y =
      (if y + 16 < snd (dimensions small_lfb) then pixel small_lfb x (y + 16) else 7))"
    by (rule scroll_moves_rows) (simp_all add: small_lfb_ok)
  moreover have "on_screen small_lfb 3 20" "on_screen small_lfb 3 10" "pixel small_lfb 3 26 = 0"
    by (simp_all add: on_screen_def small_lfb_def pixel_def)
  ultimately show ?thesis
    by (auto simp: small_lfb_ok)
qed

text \<open>\<open>plot_glyph\<close> refuses a glyph that does not fit on the screen with \<open>OutOfBounds\<close> and draws nothing.\<close>

theorem plot_glyph_refuses:
  assumes "x + width < 2 ^ 64" "y + height < 2 ^ 64"
    and "fst (dimensions fb) < x + width \<or> snd (dimensions fb) < y + height"
  shows "LinearFramebuffer_plot_glyph x y width height glyph color background fb = (Err FramebufferOutOfBounds, fb)"
  by (rule plot_glyph_outside [OF assms])

theorem plot_glyph_refuses_witness:
  "LinearFramebuffer_plot_glyph 9 0 8 16 UNKNOWN_CHARACTER 1 2 small_lfb = (Err FramebufferOutOfBounds, small_lfb)"
  by (rule plot_glyph_refuses) (simp_all add: small_lfb_def)

end
