(* ===== verification/Kernel_Properties.thy ===== *)
theory Kernel_Properties
  imports Table_Switch Display_Properties
begin

text \<open>
  The properties of the whole kernel: the boot conditions under which \<open>kernel_main\<close> reaches its halt, what a run
  shows of the result of \<open>init_memory\<close>, and that every exception with a handler is reported on the screen.
\<close>

section \<open>Running \<open>kernel_main\<close>\<close>

lemma on_console_prints:
  assumes "prints p" "console_ok (con m)"
  shows "\<exists>c. on_console p m = (Ok (), m\<lparr>con := c\<rparr>) \<and> console_keeps (con m) c"
  by (rule printsE [OF assms]) (auto simp: on_console_def zoom_def map_err_prog_def)

text \<open>The text the machine has sent over the serial line.\<close>

definition sent_by :: "('u \<Rightarrow> rust_char list) \<Rightarrow> ('u, 'pte, 'tss, 'gdt, 'sel, 'f, 'c) machine \<Rightarrow> rust_char list" where
  "sent_by sent m = serial_output sent (SERIAL1 (con m))"

lemma on_serial_sends:
  assumes "serial_line U sent" "\<not> serial_locked (SERIAL1 (con m))"
  shows "\<exists>q. on_serial (serial_println_literal U t) m = (Ok (), m\<lparr>con := (con m)\<lparr>SERIAL1 := q\<rparr>\<rparr>) \<and>
    \<not> serial_locked q \<and> serial_output sent q = sent_by sent m @ t @ [13, 10]"
proof -
  obtain q where "serial_println_literal U t (SERIAL1 (con m)) = (Ok (), q)" "\<not> serial_locked q"
    "serial_output sent q = sent_by sent m @ t @ [13, 10]"
    using serial_line.serial_prints(2) [OF assms] unfolding sent_by_def by blast
  then show ?thesis
    by (intro exI [of _ q]) (simp add: on_serial_def on_console_def zoom_def map_err_prog_def)
qed

lemma prints_log_ram_map:
  assumes "\<forall>r \<in> set mmap. base r + length_of r < 2 ^ 64"
  shows "prints (log_ram_map P mmap :: ('p console, hang, unit) prog)"
  unfolding log_ram_map_def
proof (intro prints_try prints_for_each prints_macros)
  fix r assume "r \<in> set mmap"
  then have "(log_region P r :: ('p console, hang, unit) prog) =
      try_prog (kprint [literal ''[0x'', hex12 (base r), literal ''->0x'', hex12 (base r + length_of r), literal '']: '']) (\<lambda>_.
      try_prog (kwriter_set_color (VgaColor_as_u32 (region_color (region_type r)))) (\<lambda>_.
      try_prog (kprintln [debug_region_type P (region_type r)]) (\<lambda>_.
      kwriter_set_color (VgaColor_as_u32 DEFAULT_COLOR))))"
    using assms by (intro ext) (simp add: log_region_def add64_def)
  then show "prints (log_region P r :: ('p console, hang, unit) prog)"
    by (simp only:) (intro prints_try prints_kprint prints_macros prints_set_color)
qed

text \<open>The bootloader answered what the kernel asks for, and the machine is as it was switched on.\<close>

definition answers_ok :: "boot_responses \<Rightarrow> bool" where
  "answers_ok resp \<longleftrightarrow>
     (case framebuffers resp of Some (f # fs) \<Rightarrow> usable_framebuffer f | _ \<Rightarrow> False) \<and>
     bootloader_info resp \<noteq> None \<and> hhdm_offset (addresses resp) \<noteq> None \<and>
     (case memory_map resp of Some mmap \<Rightarrow> \<forall>r \<in> set mmap. base r + length_of r < 2 ^ 64 | None \<Rightarrow> False)"

definition cold_machine :: "('u, 'pte, 'tss, 'gdt, 'sel, 'f, 'c) machine \<Rightarrow> bool" where
  "cold_machine m \<longleftrightarrow> KWRITER (con m) = None \<and> PANIC_LEVEL (con m) = 0 \<and>
     \<not> serial_locked (SERIAL1 (con m)) \<and>
     TSS (segments m) = None \<and> GDT (segments m) = None \<and> CR3 m = None \<and> KERNEL_PAGING_CONTROLLER m = None"

text \<open>The machine after the first lines of \<open>kernel_main\<close>: it can print, and exceptions have handlers.\<close>

definition equipped ::
    "('tss, 'desc, 'gdt, 'sel, 'y) descriptor_crate_scheme \<Rightarrow> ('f, 's, 'c) exception_format \<Rightarrow> u64 \<Rightarrow>
       ('u, 'pte, 'tss, 'gdt, 'sel, 'f, 'c) machine \<Rightarrow> bool" where
  "equipped G F STACK m \<longleftrightarrow> console_ok (con m) \<and> PANIC_LEVEL (con m) = 1 \<and>
     \<not> serial_locked (SERIAL1 (con m)) \<and> idt_register m = Some (IDT F) \<and>
     (\<exists>t g c r. TSS (segments m) = Some t \<and> gdt_register (segments m) = Some g \<and>
        CS (segments m) = Some c \<and> gdt_descriptor G g c = Some (kernel_code_segment G) \<and>
        task_register (segments m) = Some r \<and> gdt_descriptor G g r = Some (tss_segment G t) \<and>
        interrupt_stack G t DOUBLE_FAULT_IST_INDEX = STACK + 4096)"

lemma equipped_update [simp]:
  "equipped G F STACK (m\<lparr>memory := b\<rparr>) \<longleftrightarrow> equipped G F STACK m"
  "equipped G F STACK (m\<lparr>memory := b, con := c\<rparr>) \<longleftrightarrow> equipped G F STACK (m\<lparr>con := c\<rparr>)"
  "equipped G F STACK (m\<lparr>CR3 := x\<rparr>) \<longleftrightarrow> equipped G F STACK m"
  "equipped G F STACK (m\<lparr>ALLOCATOR := y\<rparr>) \<longleftrightarrow> equipped G F STACK m"
  "equipped G F STACK (m\<lparr>KERNEL_PAGING_CONTROLLER := z\<rparr>) \<longleftrightarrow> equipped G F STACK m"
  by (simp_all add: equipped_def)

lemma equipped_con:
  "equipped G F STACK m \<Longrightarrow> console_ok c \<Longrightarrow> PANIC_LEVEL c = 1 \<Longrightarrow> \<not> serial_locked (SERIAL1 c) \<Longrightarrow>
     equipped G F STACK (m\<lparr>con := c\<rparr>)"
  by (simp add: equipped_def)

lemma console_ok_serial [simp]: "console_ok (c\<lparr>SERIAL1 := q\<rparr>) \<longleftrightarrow> console_ok c"
  by (simp add: console_ok_def)

lemma kernel_main_start:
  assumes X: "x86_64_crate X" and G: "descriptor_tables G" and stack: "canonical STACK" "canonical (STACK + 4096)"
    and resp: "answers_ok resp" "framebuffers resp = Some (f # fs)" and cold: "cold_machine m"
  obtains m1 where "kernel_main X G F U P resp STACK d sp m =
      try_prog (start_memory X U P resp d sp) (\<lambda>_. on_serial (serial_println_literal U (literal ''Hi''))) m1"
    "equipped G F STACK m1" "memory m1 = memory m" "CR3 m1 = CR3 m" "KERNEL_PAGING_CONTROLLER m1 = None"
    "sent_by sent m1 = sent_by sent m" "console_place (con m1) = Some (fb_address f, fb_width f, fb_height f)"
proof -
  obtain name version where r: "framebuffers resp = Some (f # fs)" "usable_framebuffer f"
    "bootloader_info resp = Some (name, version)"
    using resp by (auto simp: answers_ok_def split: option.splits list.splits)
  have none: "KWRITER (con m) = None" "PANIC_LEVEL (con m) = 0" "TSS (segments m) = None" "GDT (segments m) = None"
    using cold by (simp_all add: cold_machine_def)
  obtain w where w: "init_kwriter (Some (f # fs)) (con m) =
      (Ok (), (con m)\<lparr>KWRITER := Some w, kwriter_locked := False, PANIC_LEVEL := PANIC_LEVEL (con m) + 1\<rparr>)" "writer_ok w"
    "writer_place w = (fb_address f, fb_width f, fb_height f)"
    using init_kwriter_ok [OF r(2) none(1), of fs] by blast
  define c1 where "c1 = (con m)\<lparr>KWRITER := Some w, kwriter_locked := False, PANIC_LEVEL := PANIC_LEVEL (con m) + 1\<rparr>"
  define m1 where "m1 = m\<lparr>con := c1\<rparr>"
  have s1: "on_console (init_kwriter (framebuffers resp)) m = (Ok (), m1)" "console_ok (con m1)" "PANIC_LEVEL (con m1) = 1"
    "console_place (con m1) = Some (fb_address f, fb_width f, fb_height f)"
    using w none(2)
    by (simp_all add: on_console_def zoom_def map_err_prog_def r(1) m1_def c1_def console_ok_def console_place_def)
  obtain c2 where s2: "on_console (kprintln [literal ''Kermol was loaded using '', name, literal '' '', version]) m1 =
      (Ok (), m1\<lparr>con := c2\<rparr>)" "console_keeps (con m1) c2"
    using on_console_prints [OF prints_macros(1) s1(2)] by blast
  obtain g t gd cs tr where s3: "init_gdt X G STACK (segments m) = (Ok () :: (kernel_stop, unit) outcome, g)"
    "TSS g = Some t" "gdt_register g = Some gd" "CS g = Some cs" "gdt_descriptor G gd cs = Some (kernel_code_segment G)"
    "task_register g = Some tr" "gdt_descriptor G gd tr = Some (tss_segment G t)"
    "interrupt_stack G t DOUBLE_FAULT_IST_INDEX = STACK + 4096"
    using descriptor_tables.init_gdt_first [OF G X stack none(3,4), where 'e = kernel_stop] by blast
  define m3 where "m3 = m1\<lparr>con := c2, segments := g\<rparr>"
  have ok2: "console_ok (con m3)"
    using s2(2) by (simp add: console_keeps_def m3_def)
  obtain c4 where s4: "on_console (kprintln [literal ''Global Descriptor Table initialized'']) m3 =
      (Ok (), m3\<lparr>con := c4\<rparr>)" "console_keeps (con m3) c4"
    using on_console_prints [OF prints_macros(1) ok2] by blast
  define m5 where "m5 = m3\<lparr>con := c4, idt_register := Some (IDT F)\<rparr>"
  have ok4: "console_ok (con m5)"
    using s4(2) by (simp add: console_keeps_def m5_def)
  obtain c6 where s6: "on_console (kprintln
        [literal ''Interrupt Descriptor Table loaded, Exceptions are now enabled'']) m5 =
      (Ok (), m5\<lparr>con := c6\<rparr>)" "console_keeps (con m5) c6"
    using on_console_prints [OF prints_macros(1) ok4] by blast
  have "zoom segments (\<lambda>g m. m\<lparr>segments := g\<rparr>) (init_gdt X G STACK) (m1\<lparr>con := c2\<rparr>) = (Ok () :: (kernel_stop, unit) outcome, m3)"
    using s3(1) by (simp add: zoom_def m1_def m3_def)
  moreover have "zoom idt_register (\<lambda>t m. m\<lparr>idt_register := t\<rparr>) (load_idt F) (m3\<lparr>con := c4\<rparr>) =
      (Ok () :: (kernel_stop, unit) outcome, m5)"
    by (simp add: zoom_def load_idt_def m5_def)
  ultimately have "kernel_main X G F U P resp STACK d sp m =
      try_prog (start_memory X U P resp d sp) (\<lambda>_. on_serial (serial_println_literal U (literal ''Hi''))) (m5\<lparr>con := c6\<rparr>)"
    using s1(1) s2(1) s4(1) s6(1) r(3) by (simp add: kernel_main_def try_prog_Ok)
  moreover have c6: "PANIC_LEVEL c6 = 1" "console_ok c6" "SERIAL1 c6 = SERIAL1 (con m)"
    "console_place c6 = Some (fb_address f, fb_width f, fb_height f)"
    using s2(2) s4(2) s6(2) s1(3,4) by (simp_all add: console_keeps_def m5_def m3_def m1_def c1_def)
  moreover have "equipped G F STACK (m5\<lparr>con := c6\<rparr>)"
    using s3(2-8) c6(1-3) cold by (simp add: equipped_def m5_def m3_def cold_machine_def)
  ultimately show ?thesis
    using that [of "m5\<lparr>con := c6\<rparr>"] cold c6(3,4) by (simp add: m5_def m3_def m1_def cold_machine_def sent_by_def)
qed

lemma on_console_panic_handler:
  assumes "serial_line U sent" "equipped G F STACK m"
  shows "\<exists>c. on_console (panic_handler U info) m = (Ok (), m\<lparr>con := c\<rparr>) \<and>
    panic_handler U info (con m) = (Ok (), c) \<and> equipped G F STACK (m\<lparr>con := c\<rparr>) \<and>
    serial_output sent (SERIAL1 c) = sent_by sent m @ concat info @ [10]"
proof -
  have m: "console_ok (con m)" "PANIC_LEVEL (con m) = 1" "\<not> serial_locked (SERIAL1 (con m))"
    using assms(2) by (simp_all add: equipped_def)
  obtain q where q: "\<not> serial_locked q" "serial_output sent q = sent_by sent m @ concat info @ [10]"
    and run: "serial_println U info (SERIAL1 (con m)) = (Ok (), q)"
    using serial_line.serial_prints(1) [OF assms(1) m(3)] unfolding sent_by_def by blast
  obtain w' where w': "panic_handler U info (con m) =
      (Ok (), (con m)\<lparr>SERIAL1 := q, KWRITER := Some w', kwriter_locked := False\<rparr>)" "writer_ok w'"
    by (rule panic_handler_reports [OF m(1,2) run]) blast
  define c where "c = (con m)\<lparr>SERIAL1 := q, KWRITER := Some w', kwriter_locked := False\<rparr>"
  have "equipped G F STACK (m\<lparr>con := c\<rparr>)"
    by (rule equipped_con [OF assms(2)]) (use w'(2) m(2) q(1) in \<open>simp_all add: c_def console_ok_def\<close>)
  then show ?thesis
    using w'(1) q(2) by (intro exI [of _ c]) (simp add: c_def on_console_def zoom_def map_err_prog_def)
qed

text \<open>What a run of the kernel shows of the result of \<open>init_memory\<close>: the new state, or a report of the error.\<close>

definition shows_result ::
    "'u uart \<Rightarrow> ('u \<Rightarrow> rust_char list) \<Rightarrow> printing \<Rightarrow> (MemoryError, init_result) outcome \<Rightarrow>
       ('u, 'pte, 'tss, 'gdt, 'sel, 'f, 'c) machine \<Rightarrow> ('u, 'pte, 'tss, 'gdt, 'sel, 'f, 'c) machine \<Rightarrow> bool" where
  "shows_result U sent P r m m' \<longleftrightarrow> (case r of
      Ok res \<Rightarrow> CR3 m' = Some (cr3 res) \<and> ALLOCATOR m' = Some (heap_start res, KERNEL_HEAP_SIZE) \<and>
        KERNEL_PAGING_CONTROLLER m' = Some (paging_controller res) \<and>
        sent_by sent m' = sent_by sent m @ literal ''PEIS'' @ [13, 10] @ literal ''Hi'' @ [13, 10]
    | Err e \<Rightarrow> CR3 m' = CR3 m \<and> KERNEL_PAGING_CONTROLLER m' = None \<and>
        (\<exists>c. console_ok c \<and> PANIC_LEVEL c = 1 \<and>
           panic_handler U (panic_info P (debug_memory_error P e)) c = (Ok (), con m')) \<and>
        sent_by sent m' = sent_by sent m @ concat (panic_info P (debug_memory_error P e)) @ [10]
    | Panic p \<Rightarrow> CR3 m' = CR3 m \<and> KERNEL_PAGING_CONTROLLER m' = None \<and>
        (\<exists>c. console_ok c \<and> PANIC_LEVEL c = 1 \<and>
           panic_handler U (panic_info P (panic_text P p)) c = (Ok (), con m')) \<and>
        sent_by sent m' = sent_by sent m @ concat (panic_info P (panic_text P p)) @ [10])"

text \<open>Switching to a table that serves the kernel keeps the console able to print.\<close>

lemma allows_loaded: "CR3 m = Some root \<Longrightarrow> allows X off m = cpu_allows X off (tables (memory m)) root"
  by (intro ext) (simp add: allows_def)

lemma writer_ok_see_pixels:
  assumes "writer_ok w" "writer_place w = (a, x, y)" "\<forall>i < x * y. ok Read (a + 4 * i) \<and> ok Write (a + 4 * i)"
  shows "writer_ok (see_pixels ok w)" "writer_place (see_pixels ok w) = writer_place w"
  using assms by (auto simp: writer_ok_def see_pixels_def fb_ok_def writer_place_def fb_place_def cell_on_screen_def
      get_text_buffer_dimensions_def)

lemma load_table_keeps:
  assumes serves: "table_serves X resp d sp (memory m) res" and off: "hhdm_offset (addresses resp) = Some off"
    and fb: "framebuffers resp = Some (f # fs)"
    and con: "console_ok (con m)" "console_place (con m) = Some (fb_address f, fb_width f, fb_height f)"
  obtains c where "load_table X (addresses resp) off d sp (cr3 res) m = (Ok (), m\<lparr>CR3 := Some (cr3 res), con := c\<rparr>)"
    "console_keeps (con m) c"
proof -
  define ok where "ok = cpu_allows X off (tables (memory m)) (cr3 res)"
  have ok_eq: "allows X off (m\<lparr>CR3 := Some (cr3 res)\<rparr>) = ok" "allows X off (m\<lparr>CR3 := Some (cr3 res), con := c\<rparr>) = ok" for c
    by (simp_all add: allows_loaded ok_def)
  have srv: "kernel_reachable (addresses resp) d sp ok" "\<forall>i < fb_width f * fb_height f. ok Write (fb_address f + 4 * i)"
    using serves by (simp_all add: table_serves_def off fb Let_def ok_def)
  obtain w where w: "KWRITER (con m) = Some w" "writer_ok w" "writer_place w = (fb_address f, fb_width f, fb_height f)"
    "\<not> kwriter_locked (con m)"
    using con by (auto simp: console_ok_def console_place_def)
  have pix: "\<forall>i < fb_width f * fb_height f. ok Read (fb_address f + 4 * i) \<and> ok Write (fb_address f + 4 * i)"
    using srv(2) cpu_allows_read unfolding ok_def by blast
  define c where "c = (con m)\<lparr>KWRITER := Some (see_pixels ok w)\<rparr>"
  have "load_table X (addresses resp) off d sp (cr3 res) m = (Ok (), m\<lparr>CR3 := Some (cr3 res), con := c\<rparr>)"
    using srv(1) by (simp add: load_table_def ok_eq w(1) c_def)
  moreover have "console_keeps (con m) c"
    using writer_ok_see_pixels [OF w(2,3) pix] w by (simp add: console_keeps_def console_ok_def console_place_def c_def)
  ultimately show ?thesis
    by (rule that)
qed

lemma start_memory_eq:
  assumes "answers_ok resp" "serial_line U sent" "equipped G F STACK m" "KERNEL_PAGING_CONTROLLER m = None"
    and "init_memory X (addresses resp) (memory_map resp) sp (memory m) = (r, b)"
    and fb: "framebuffers resp = Some (f # fs)" "console_place (con m) = Some (fb_address f, fb_width f, fb_height f)"
    and serves: "\<And>res. r = Ok res \<Longrightarrow> table_serves X resp d sp b res"
  obtains c m' where "start_memory X U P resp d sp m = (case r of
      Ok _ \<Rightarrow> (Ok (), m') | Err e \<Rightarrow> (Err (Panicked (debug_memory_error P e)), m\<lparr>con := c, memory := b\<rparr>)
    | Panic p \<Rightarrow> (Panic p, m\<lparr>con := c, memory := b\<rparr>))"
    "equipped G F STACK (m\<lparr>con := c, memory := b\<rparr>)" "SERIAL1 c = SERIAL1 (con m)"
    "equipped G F STACK m'" "memory m' = b"
    "\<And>res. r = Ok res \<Longrightarrow> CR3 m' = Some (cr3 res) \<and> ALLOCATOR m' = Some (heap_start res, KERNEL_HEAP_SIZE) \<and>
       KERNEL_PAGING_CONTROLLER m' = Some (paging_controller res) \<and>
       sent_by sent m' = sent_by sent m @ literal ''PEIS'' @ [13, 10]"
proof -
  obtain mmap off where r: "memory_map resp = Some mmap" "\<forall>r \<in> set mmap. base r + length_of r < 2 ^ 64"
    "hhdm_offset (addresses resp) = Some off"
    using assms(1) by (auto simp: answers_ok_def split: option.splits)
  obtain c where c: "on_console (log_ram_map P mmap) m = (Ok (), m\<lparr>con := c\<rparr>)" "console_keeps (con m) c"
    using on_console_prints [OF prints_log_ram_map [OF r(2)]] assms(3) unfolding equipped_def by blast
  have ser: "SERIAL1 c = SERIAL1 (con m)"
    using c(2) by (simp add: console_keeps_def)
  have eq: "equipped G F STACK (m\<lparr>con := c\<rparr>)"
    using assms(3) c(2) by (auto intro: equipped_con simp: equipped_def console_keeps_def)
  have mem: "zoom memory (\<lambda>b m. m\<lparr>memory := b\<rparr>) (init_memory X (addresses resp) (Some mmap) sp) (m\<lparr>con := c\<rparr>) =
      (r, m\<lparr>con := c, memory := b\<rparr>)"
    using assms(5) r(1) by (simp add: zoom_def)
  have runs: "start_memory X U P resp d sp m =
      try_prog (map_err_prog (\<lambda>e. Panicked (debug_memory_error P e))
        (zoom memory (\<lambda>b m. m\<lparr>memory := b\<rparr>) (init_memory X (addresses resp) (Some mmap) sp))) (\<lambda>result.
      try_prog (load_table X (addresses resp) off d sp (cr3 result)) (\<lambda>_.
      try_prog (on_serial (serial_println_literal U (literal ''PEIS''))) (\<lambda>_.
      try_prog (init_heap X off (heap_start result)) (\<lambda>_.
      modifies (\<lambda>m. case KERNEL_PAGING_CONTROLLER m of
         None \<Rightarrow> m\<lparr>KERNEL_PAGING_CONTROLLER := Some (paging_controller result)\<rparr> | Some _ \<Rightarrow> m))))) (m\<lparr>con := c\<rparr>)"
    using c(1) r by (simp add: start_memory_def try_prog_Ok)
  show ?thesis
  proof (cases r)
    case (Ok res)
    note srv = serves [OF Ok]
    define ml where "ml = m\<lparr>con := c, memory := b\<rparr>"
    have ml: "memory ml = b" "console_ok (con ml)" "console_place (con ml) = Some (fb_address f, fb_width f, fb_height f)"
      using c(2) fb(2) by (simp_all add: ml_def console_keeps_def)
    obtain c' where load: "load_table X (addresses resp) off d sp (cr3 res) ml =
        (Ok (), ml\<lparr>CR3 := Some (cr3 res), con := c'\<rparr>)" "console_keeps (con ml) c'"
      by (rule load_table_keeps [of X resp d sp ml res, unfolded ml(1), OF srv r(3) fb(1) ml(2,3)]) (rule that)
    define mc where "mc = ml\<lparr>CR3 := Some (cr3 res), con := c'\<rparr>"
    have "\<not> serial_locked (SERIAL1 (con mc))"
      using eq load(2) by (simp add: mc_def ml_def equipped_def console_keeps_def)
    then obtain q where q: "on_serial (serial_println_literal U (literal ''PEIS'')) mc =
        (Ok (), mc\<lparr>con := (con mc)\<lparr>SERIAL1 := q\<rparr>\<rparr>)" "\<not> serial_locked q"
      "serial_output sent q = sent_by sent mc @ literal ''PEIS'' @ [13, 10]"
      using on_serial_sends [OF assms(2)] by blast
    define mh where "mh = mc\<lparr>con := (con mc)\<lparr>SERIAL1 := q\<rparr>, ALLOCATOR := Some (heap_start res, KERNEL_HEAP_SIZE)\<rparr>"
    have "console_ok (con mh)"
      using load(2) by (simp add: mh_def mc_def console_keeps_def)
    then obtain h where h: "on_console (kprintln [literal ''Heap Initialized'']) mh = (Ok (), mh\<lparr>con := h\<rparr>)"
      "console_keeps (con mh) h"
      using on_console_prints [OF prints_macros(1)] by blast
    define m' where "m' = mh\<lparr>con := h, KERNEL_PAGING_CONTROLLER := Some (paging_controller res)\<rparr>"
    have "list_all (cpu_allows X off (tables b) (cr3 res) Write) (page_range (heap_start res) (heap_start res + KERNEL_HEAP_SIZE))"
      using srv by (simp add: table_serves_def r(3) fb(1) Let_def)
    then have "init_heap X off (heap_start res) (mc\<lparr>con := (con mc)\<lparr>SERIAL1 := q\<rparr>\<rparr>) = (Ok (), mh\<lparr>con := h\<rparr>)"
      using h(1) by (simp add: init_heap_def try_prog_Ok mh_def allows_loaded [of _ "cr3 res"] mc_def ml_def)
    then have "start_memory X U P resp d sp m = (Ok (), m')"
      unfolding runs using mem load(1) q(1) assms(4) Ok
      by (simp add: try_prog_Ok m'_def mh_def mc_def ml_def)
    moreover have "equipped G F STACK m'"
      using assms(3) c(2) load(2) h(2) q(2) by (auto simp: equipped_def console_keeps_def m'_def mh_def mc_def ml_def)
    ultimately show ?thesis
      using that [of m' c] Ok eq ser q(3) h(2) load(2)
      by (simp add: m'_def mh_def mc_def ml_def sent_by_def console_keeps_def)
  qed (use that [of "m\<lparr>con := c, memory := b\<rparr>" c] eq ser mem runs in \<open>auto simp: map_err_prog_def try_prog_def\<close>)
qed

lemma run_kernel_halts:
  assumes "x86_64_crate X" "descriptor_tables G" "canonical STACK" "canonical (STACK + 4096)"
    and "answers_ok resp" "cold_machine m" and U: "serial_line U sent"
    and "init_memory X (addresses resp) (memory_map resp) sp (memory m) = (r, b)"
    and serves: "\<And>res. r = Ok res \<Longrightarrow> table_serves X resp d sp b res"
  shows "\<exists>m'. run_kernel X G F U P resp STACK d sp m = (Ok (), m') \<and> equipped G F STACK m' \<and> memory m' = b \<and>
    shows_result U sent P r m m'"
proof -
  obtain f fs where fb: "framebuffers resp = Some (f # fs)"
    using assms(5) by (auto simp: answers_ok_def split: option.splits list.splits)
  obtain m1 where m1: "kernel_main X G F U P resp STACK d sp m =
      try_prog (start_memory X U P resp d sp) (\<lambda>_. on_serial (serial_println_literal U (literal ''Hi''))) m1"
    "equipped G F STACK m1" "memory m1 = memory m" "CR3 m1 = CR3 m" "KERNEL_PAGING_CONTROLLER m1 = None"
    "sent_by sent m1 = sent_by sent m" "console_place (con m1) = Some (fb_address f, fb_width f, fb_height f)"
    by (rule kernel_main_start [OF assms(1-5) fb assms(6)])
  obtain c m2 where st: "start_memory X U P resp d sp m1 = (case r of
      Ok _ \<Rightarrow> (Ok (), m2) | Err e \<Rightarrow> (Err (Panicked (debug_memory_error P e)), m1\<lparr>con := c, memory := b\<rparr>)
    | Panic p \<Rightarrow> (Panic p, m1\<lparr>con := c, memory := b\<rparr>))"
    and eq: "equipped G F STACK (m1\<lparr>con := c, memory := b\<rparr>)" "equipped G F STACK m2" "memory m2 = b"
    and ser: "SERIAL1 c = SERIAL1 (con m1)"
    and res: "\<And>x. r = Ok x \<Longrightarrow> CR3 m2 = Some (cr3 x) \<and> ALLOCATOR m2 = Some (heap_start x, KERNEL_HEAP_SIZE) \<and>
       KERNEL_PAGING_CONTROLLER m2 = Some (paging_controller x) \<and>
       sent_by sent m2 = sent_by sent m1 @ literal ''PEIS'' @ [13, 10]"
    by (rule start_memory_eq [OF assms(5) U m1(2,5) assms(8) [folded m1(3)] fb m1(7), where P = P])
      (erule serves, rule that, assumption+)
  have report: "\<exists>c'. on_console (panic_handler U t) (m1\<lparr>con := c, memory := b\<rparr>) =
      (Ok (), m1\<lparr>con := c', memory := b\<rparr>) \<and> panic_handler U t c = (Ok (), c') \<and>
      equipped G F STACK (m1\<lparr>con := c', memory := b\<rparr>) \<and> console_ok c \<and> PANIC_LEVEL c = 1 \<and>
      serial_output sent (SERIAL1 c') = sent_by sent m @ concat t @ [10]" for t
  proof -
    have "console_ok c" "PANIC_LEVEL c = 1" "sent_by sent (m1\<lparr>con := c, memory := b\<rparr>) = sent_by sent m"
      using eq(1) ser m1(6) by (simp_all add: equipped_def sent_by_def)
    then show ?thesis
      using on_console_panic_handler [OF U eq(1), of t] by auto
  qed
  show ?thesis
  proof (cases r)
    case (Ok x)
    have "\<not> serial_locked (SERIAL1 (con m2))"
      using eq(2) by (simp add: equipped_def)
    then obtain q where q: "on_serial (serial_println_literal U (literal ''Hi'')) m2 =
        (Ok (), m2\<lparr>con := (con m2)\<lparr>SERIAL1 := q\<rparr>\<rparr>)" "\<not> serial_locked q"
      "serial_output sent q = sent_by sent m2 @ literal ''Hi'' @ [13, 10]"
      using on_serial_sends [OF U] by blast
    have "kernel_main X G F U P resp STACK d sp m = (Ok (), m2\<lparr>con := (con m2)\<lparr>SERIAL1 := q\<rparr>\<rparr>)"
      using st Ok q(1) by (simp add: m1(1) try_prog_Ok)
    moreover have "equipped G F STACK (m2\<lparr>con := (con m2)\<lparr>SERIAL1 := q\<rparr>\<rparr>)"
      using eq(2) q(2) by (auto intro: equipped_con simp: equipped_def)
    moreover have "shows_result U sent P r m (m2\<lparr>con := (con m2)\<lparr>SERIAL1 := q\<rparr>\<rparr>)"
      using res [OF Ok] Ok q(3) m1(6) by (simp add: shows_result_def sent_by_def)
    ultimately show ?thesis
      using eq(3) by (simp add: run_kernel_def)
  next
    case (Err e)
    then have "kernel_main X G F U P resp STACK d sp m =
        (Err (Panicked (debug_memory_error P e)), m1\<lparr>con := c, memory := b\<rparr>)"
      using st by (simp add: m1(1) try_prog_Err)
    then show ?thesis
      using report [of "panic_info P (debug_memory_error P e)"] Err m1(4,5)
      by (auto simp: run_kernel_def shows_result_def sent_by_def)
  next
    case (Panic p)
    then have "kernel_main X G F U P resp STACK d sp m = (Panic p, m1\<lparr>con := c, memory := b\<rparr>)"
      using st by (simp add: m1(1) try_prog_Panic)
    then show ?thesis
      using report [of "panic_info P (panic_text P p)"] Panic m1(4,5)
      by (auto simp: run_kernel_def shows_result_def sent_by_def)
  qed
qed

text \<open>C9. The kernel reaches a halt whatever \<open>init_memory\<close> returns, provided that, when it succeeds, the table it
  loads serves the kernel: the processor finds in it the code, the data, the used part of the stack, the heap and
  every pixel of the framebuffer, with the permissions they need. On a cold machine whose bootloader has answered
  the kernel's requests with a usable framebuffer and regions inside the address space, and whose double fault stack has
  canonical addresses, the run ends at a halt with the console able to print and the handlers of exceptions
  installed, CS on the kernel's code segment and the double fault stack in the task state segment: on success CR3,
  the heap and the paging controller are the ones \<open>init_memory\<close> made and the two messages have gone over the serial
  line; on an error or a panic the panic handler has run to its end with the report on a console that can print,
  the text has gone over the serial line, the page table register is untouched and no controller is stored.\<close>

theorem kernel_reaches_halt:
  assumes "x86_64_crate X" "descriptor_tables G" "canonical STACK" "canonical (STACK + 4096)"
    and "answers_ok resp" "cold_machine m" "serial_line U sent"
    and "init_memory X (addresses resp) (memory_map resp) sp (memory m) = (r, b)"
    and "\<And>res. r = Ok res \<Longrightarrow> table_serves X resp d sp b res"
  shows "\<exists>m'. run_kernel X G F U P resp STACK d sp m = (Ok (), m') \<and> equipped G F STACK m' \<and> memory m' = b \<and>
    shows_result U sent P r m m'"
  by (rule run_kernel_halts [OF assms])

text \<open>A cold machine whose bootloader reports no usable memory.\<close>

definition no_memory_boot :: boot_responses where
  "no_memory_boot = \<lparr>framebuffers = Some [small_framebuffer], bootloader_info = Some ([76], [57]),
     memory_map = Some [], addresses = tiny_image\<rparr>"

definition cold :: "(rust_char list, 64 word, VirtAddr list, descriptor list, nat, unit, unit) machine" where
  "cold = \<lparr>con = small_console,
     segments = \<lparr>TSS = None, GDT = None, gdt_register = None, CS = None, task_register = None\<rparr>,
     idt_register = None, memory = \<lparr>tables = Map.empty, frames = 0\<rparr>, CR3 = None, ALLOCATOR = None,
     KERNEL_PAGING_CONTROLLER = None\<rparr>"

definition silent_printing :: printing where
  "silent_printing = \<lparr>debug_region_type = (\<lambda>_. []), debug_memory_error = (\<lambda>_. [69]), panic_text = (\<lambda>_. []),
     panic_info = (\<lambda>t. [t])\<rparr>"

definition silent_format :: "(unit, u64, unit) exception_format" where
  "silent_format = \<lparr>debug_frame = (\<lambda>_. []), selector_error_code = (\<lambda>c. if c < 2 ^ 16 then Some c else None),
     debug_selector = (\<lambda>_. []), debug_page_fault = (\<lambda>_. []), debug_cr2 = (\<lambda>_. [])\<rparr>"

lemma cold_ok: "cold_machine cold" "answers_ok no_memory_boot" "sent_by sent cold = []"
  by (simp_all add: cold_machine_def cold_def small_console_def sent_by_def serial_output_def answers_ok_def
      no_memory_boot_def usable_framebuffer_def small_framebuffer_def tiny_image_def)

text \<open>A cold machine with memory, a framebuffer that the memory map lists and a page aligned stack top.\<close>

definition small_boot :: boot_responses where
  "small_boot = \<lparr>framebuffers = Some [small_framebuffer], bootloader_info = Some ([76], [57]),
     memory_map = Some small_mmap, addresses = small_info\<rparr>"

lemma small_boot_answers:
  "canonical 0x8000" "canonical (0x8000 + 4096)" "answers_ok small_boot" "memory_map small_boot = Some small_mmap"
  "addresses small_boot = small_info" "framebuffers small_boot = Some (small_framebuffer # [])"
  "hhdm_offset small_info = Some 0xFFFF800000000000"
  by (simp_all add: canonical_def answers_ok_def small_boot_def usable_framebuffer_def small_framebuffer_def
      small_info_def small_mmap_def)

lemma small_boot_layout:
  "framebuffer_listed 0xFFFF800000000000 small_mmap 0xFFFF800004027FF0 small_framebuffer"
  "(0xFFFF800004027FF0 + 16) mod 4096 = (0 :: nat)" "0x8000 + 16 \<le> STACK_SIZE"
  by (simp_all add: framebuffer_listed_def small_mmap_def small_framebuffer_def stack_within_def STACK_SIZE_def
      KIBIBYTE_def)

lemma small_boot_serves:
  assumes "init_memory x86_64_entries small_info (Some small_mmap) 0xFFFF800004027FF0 s = (Ok res, b)"
  shows "table_serves x86_64_entries small_boot 0x8000 0xFFFF800004027FF0 b res"
proof (rule boot_okE [OF small_boot_ok])
  fix off region k highest
  assume info: "hhdm_offset small_info = Some off" "largest_usable small_mmap = Some region"
      "find (\<lambda>r. region_type r = ExecutableAndModules) small_mmap = Some k"
      "(highest_valid_region small_mmap :: (MemoryError, MemoryRegionInfo) outcome) = Ok highest"
    and lay: "boot_layout small_info small_mmap 0xFFFF800004027FF0 off k region highest"
  have "off = 0xFFFF800000000000"
    using info(1) small_boot_answers(7) by simp
  with entries.boot_table_serves [of small_boot, unfolded small_boot_answers(5), OF lay info small_boot_answers(6) _
      small_boot_layout(2,3) assms] show ?thesis
    using small_boot_layout(1) by simp
qed

theorem kernel_reaches_halt_witness:
  "(\<exists>m'. run_kernel x86_64_entries descriptor_lists silent_format wire silent_printing no_memory_boot 0x8000
      0x8000 0xFFFF800000010000 cold = (Ok (), m') \<and> equipped descriptor_lists silent_format 0x8000 m' \<and>
      CR3 m' = None \<and> KERNEL_PAGING_CONTROLLER m' = None \<and> sent_by (\<lambda>u. u) m' = [69, 10]) \<and>
   (\<exists>m' root. run_kernel x86_64_entries descriptor_lists silent_format wire silent_printing small_boot 0x8000
      0x8000 0xFFFF800004027FF0 cold = (Ok (), m') \<and> equipped descriptor_lists silent_format 0x8000 m' \<and>
      CR3 m' = Some root)"
proof
  note halts = kernel_reaches_halt [OF entries.x86_64_crate_axioms lists.descriptor_tables_axioms small_boot_answers(1,2)
      _ cold_ok(1) wire.serial_line_axioms, where F = silent_format and P = silent_printing and d = "0x8000"]
  have "init_memory x86_64_entries (addresses no_memory_boot) (memory_map no_memory_boot) 0xFFFF800000010000
      (memory cold) = (Err AllocationError, memory cold)"
    by (simp add: init_memory_def no_memory_boot_def tiny_image_def hhdm_def largest_usable_def x86_64_entries_def
        canonical_def)
  then obtain m' where "run_kernel x86_64_entries descriptor_lists silent_format wire silent_printing no_memory_boot
      0x8000 0x8000 0xFFFF800000010000 cold = (Ok (), m')" "equipped descriptor_lists silent_format 0x8000 m'"
    "shows_result wire (\<lambda>u. u) silent_printing (Err AllocationError) cold m'"
    using halts [OF cold_ok(2), of "0xFFFF800000010000" "Err AllocationError"] by blast
  moreover have "CR3 cold = None" "concat (panic_info silent_printing (debug_memory_error silent_printing e)) = [69]" for e
    by (simp_all add: cold_def silent_printing_def)
  ultimately show "\<exists>m'. run_kernel x86_64_entries descriptor_lists silent_format wire silent_printing no_memory_boot 0x8000
      0x8000 0xFFFF800000010000 cold = (Ok (), m') \<and> equipped descriptor_lists silent_format 0x8000 m' \<and>
      CR3 m' = None \<and> KERNEL_PAGING_CONTROLLER m' = None \<and> sent_by (\<lambda>u. u) m' = [69, 10]"
    by (auto simp: shows_result_def cold_ok(3))
  obtain res b where run: "init_memory x86_64_entries small_info (Some small_mmap) 0xFFFF800004027FF0 (memory cold) = (Ok res, b)"
    using entries.init_memory_total [OF small_boot_ok] by blast
  then have "\<exists>m'. run_kernel x86_64_entries descriptor_lists silent_format wire silent_printing small_boot 0x8000
      0x8000 0xFFFF800004027FF0 cold = (Ok (), m') \<and> equipped descriptor_lists silent_format 0x8000 m' \<and> memory m' = b \<and>
      shows_result wire (\<lambda>u. u) silent_printing (Ok res) cold m'"
    using small_boot_serves [OF run]
    by (intro halts [OF small_boot_answers(3)]) (simp_all add: small_boot_answers(4,5))
  then show "\<exists>m' root. run_kernel x86_64_entries descriptor_lists silent_format wire silent_printing small_boot 0x8000
      0x8000 0xFFFF800004027FF0 cold = (Ok (), m') \<and> equipped descriptor_lists silent_format 0x8000 m' \<and>
      CR3 m' = Some root"
    by (auto simp: shows_result_def)
qed

text \<open>C2. The kernel boots. When the bootloader's answers are complete and pass \<open>boot_ok\<close>, the memory map lists the
  region of the framebuffer the kernel prints on (apart from the stack's region), the stack top, 16 bytes above the
  entry stack pointer, is page aligned, the kernel uses no more stack than the 64 KiB it asked for, and the double
  fault stack has canonical addresses, a cold machine reaches the halt at the end of \<open>kernel_main\<close> with handlers for
  exceptions and a console that can print, through the new table; CR3 holds a page table that satisfies the invariant and serves the kernel, the heap allocator
  has the four mebibytes at the start of the largest usable region, through the direct map, and every page of it is
  mapped writable and not executable; the paging controller is stored, with every bit of its allocator of virtual
  pages set; and the serial line has carried the two messages of a good start.\<close>

theorem kernel_boots:
  assumes "x86_64_crate X" "descriptor_tables G" "canonical STACK" "canonical (STACK + 4096)"
    and "answers_ok resp" "cold_machine m" "serial_line U sent"
    and "memory_map resp = Some mmap" "boot_ok (addresses resp) mmap sp"
    and "hhdm_offset (addresses resp) = Some off" "framebuffers resp = Some (f # fs)" "framebuffer_listed off mmap sp f"
    and "(sp + 16) mod 4096 = 0" "d + 16 \<le> STACK_SIZE"
  shows "\<exists>m' region res ctrl. run_kernel X G F U P resp STACK d sp m = (Ok (), m') \<and> equipped G F STACK m' \<and>
    largest_usable mmap = Some region \<and> table_serves X resp d sp (memory m') res \<and>
    CR3 m' = Some (cr3 res) \<and> ALLOCATOR m' = Some (base region + off, KERNEL_HEAP_SIZE) \<and>
    KERNEL_PAGING_CONTROLLER m' = Some ctrl \<and> bitmap_full (virt_mem_allocator ctrl) \<and>
    sent_by sent m' = sent_by sent m @ literal ''PEIS'' @ [13, 10] @ literal ''Hi'' @ [13, 10] \<and>
    paging_inv X linear_good linear_taken \<lparr>lvl4 = cr3 res + off, internal_offset = off\<rparr> (memory m') \<and>
    (\<forall>i < 1024. mapped X \<lparr>lvl4 = cr3 res + off, internal_offset = off\<rparr> (tables (memory m'))
       (base region + off + i * 4096) = Some (base region + i * 4096, flags_rw X))"
proof (rule boot_okE [OF assms(9)])
  fix off' region k highest
  assume info': "hhdm_offset (addresses resp) = Some off'" "largest_usable mmap = Some region"
      "find (\<lambda>r. region_type r = ExecutableAndModules) mmap = Some k"
      "(highest_valid_region mmap :: (MemoryError, MemoryRegionInfo) outcome) = Ok highest"
    and "boot_layout (addresses resp) mmap sp off' k region highest"
  then have lay: "boot_layout (addresses resp) mmap sp off k region highest"
    using assms(10) by simp
  note info = assms(10) info'(2-4)
  obtain res b pt where run: "init_memory X (addresses resp) (Some mmap) sp (memory m) = (Ok res, b)"
    and pt: "pt = \<lparr>lvl4 = cr3 res + off, internal_offset = off\<rparr>"
    and at: "x86_64_crate.boot_at X (base region + length_of region) {(sp + 16) div 4096} pt 0 (boot_pages off (addresses resp) k mmap sp region) b"
    and heap: "\<forall>k < 1024. mapped X pt (tables b) (base region + off + k * 4096) = Some (base region + k * 4096, flags_rw X)"
      "heap_start res = base region + off"
    and full: "bitmap_full (virt_mem_allocator (paging_controller res))"
    by (rule x86_64_crate.init_memory_boot [OF assms(1) lay info, of "memory m"]) blast
  note serves = x86_64_crate.boot_table_serves [OF assms(1) lay info assms(11-14) run]
  obtain m' where m': "run_kernel X G F U P resp STACK d sp m = (Ok (), m')" "equipped G F STACK m'" "memory m' = b"
    "shows_result U sent P (Ok res) m m'"
    using run_kernel_halts [OF assms(1-7), of sp "Ok res" b d F P] run assms(8) serves by auto
  have regs: "CR3 m' = Some (cr3 res)" "ALLOCATOR m' = Some (base region + off, KERNEL_HEAP_SIZE)"
    "KERNEL_PAGING_CONTROLLER m' = Some (paging_controller res)"
    "sent_by sent m' = sent_by sent m @ literal ''PEIS'' @ [13, 10] @ literal ''Hi'' @ [13, 10]"
    using m'(4) heap(2) by (simp_all add: shows_result_def)
  have "paging_inv X linear_good linear_taken \<lparr>lvl4 = cr3 res + off, internal_offset = off\<rparr> (memory m')"
    using at unfolding x86_64_crate.boot_at_def [OF assms(1)] pt m'(3) by simp
  moreover note heap(1) [unfolded pt, folded m'(3)]
  ultimately show ?thesis
    by (intro exI conjI) (rule m' info(2) regs full serves [folded m'(3)] | assumption)+
qed

theorem kernel_boots_witness:
  "\<exists>m' res. run_kernel x86_64_entries descriptor_lists silent_format wire silent_printing small_boot 0x8000
     0x8000 0xFFFF800004027FF0 cold = (Ok (), m') \<and>
     table_serves x86_64_entries small_boot 0x8000 0xFFFF800004027FF0 (memory m') res \<and> CR3 m' = Some (cr3 res) \<and>
     ALLOCATOR m' = Some (0xFFFF800000100000, KERNEL_HEAP_SIZE) \<and>
     sent_by (\<lambda>u. u) m' = literal ''PEIS'' @ [13, 10] @ literal ''Hi'' @ [13, 10]"
proof -
  have "boot_ok (addresses small_boot) small_mmap 0xFFFF800004027FF0"
    "hhdm_offset (addresses small_boot) = Some 0xFFFF800000000000"
    using small_boot_ok by (simp_all add: small_boot_answers)
  from kernel_boots [OF entries.x86_64_crate_axioms lists.descriptor_tables_axioms small_boot_answers(1-3) cold_ok(1)
      wire.serial_line_axioms small_boot_answers(4) this small_boot_answers(6) small_boot_layout,
      where F = silent_format and P = silent_printing]
  obtain m' region res where "run_kernel x86_64_entries descriptor_lists silent_format wire silent_printing small_boot
      0x8000 0x8000 0xFFFF800004027FF0 cold = (Ok (), m')" "largest_usable small_mmap = Some region"
    "table_serves x86_64_entries small_boot 0x8000 0xFFFF800004027FF0 (memory m') res" "CR3 m' = Some (cr3 res)"
    "ALLOCATOR m' = Some (base region + 0xFFFF800000000000, KERNEL_HEAP_SIZE)"
    "sent_by (\<lambda>u. u) m' = sent_by (\<lambda>u. u) cold @ literal ''PEIS'' @ [13, 10] @ literal ''Hi'' @ [13, 10]"
    by blast
  moreover have "\<exists>r. largest_usable small_mmap = Some r \<and> base r = 0x100000"
    by (simp add: small_mmap_def largest_usable_def)
  ultimately show ?thesis
    by (auto simp: cold_ok(3))
qed

section \<open>Exceptions\<close>

text \<open>C10. Every exception but the machine check is reported. On a machine with the kernel's table loaded at panic
  level one, the console able to print (its lock free, its cursor on the screen and every pixel reachable) and the
  lock of the serial port free, the handler of the exception panics with a message that starts with the name of the
  exception, for every stack frame, page fault code and 16-bit error code, all of which the crate's selector error codes
  accept; the panic handler that gets it reaches its end with the console able to print again, and the text it was given has gone over the serial line. When the
  height of the screen is a whole number of text rows, that text stands on the screen in light red, after what was
  there.\<close>

theorem exception_is_reported:
  assumes "equipped G F STACK m" "e \<noteq> machine_check" "serial_line U sent"
    and "\<And>c. c < 2 ^ 16 \<Longrightarrow> selector_error_code F c \<noteq> None" "code < 2 ^ 16"
  shows "\<exists>table entry rest msg m' w w'. idt_register m = Some table \<and> table e = Some entry \<and>
    invoke (entry_handler entry) stack_frame code pf cr2 = PanicMessage msg \<and>
    msg = literal (exception_title e) @ newline @ rest \<and>
    on_console (panic_handler U (panic_info P msg)) m = (Ok (), m') \<and> console_ok (con m') \<and>
    sent_by sent m' = sent_by sent m @ concat (panic_info P msg) @ newline \<and>
    KWRITER (con m) = Some w \<and> KWRITER (con m') = Some w' \<and>
    (\<forall>t. whole_rows w \<and> shows_screen w t \<longrightarrow>
       shows_screen w' (fold (fold (screen_char (panic_style w))) (panic_info P msg @ [newline]) t))"
proof -
  have idt: "idt_register m = Some (IDT F)" and c: "console_ok (con m)" "PANIC_LEVEL (con m) = 1"
    and free: "\<not> serial_locked (SERIAL1 (con m))"
    using assms(1) by (simp_all add: equipped_def)
  obtain entry where entry: "IDT F e = Some entry"
    using IDT_installed [of F e] assms(2) by auto
  obtain rest where rest: "invoke (entry_handler entry) stack_frame code pf cr2 =
      PanicMessage (literal (exception_title e) @ newline @ rest)"
    using IDT_reports [OF entry assms(4,5)] by blast
  define msg where "msg = literal (exception_title e) @ newline @ rest"
  obtain q where q: "serial_println U (panic_info P msg) (SERIAL1 (con m)) = (Ok (), q)"
    "serial_output sent q = sent_by sent m @ concat (panic_info P msg) @ newline"
    using serial_line.serial_prints(1) [OF assms(3) free] unfolding sent_by_def newline_def by blast
  obtain v w' where w': "KWRITER (con m) = Some v" "writer_ok w'"
    "panic_handler U (panic_info P msg) (con m) =
      (Ok (), (con m)\<lparr>SERIAL1 := q, KWRITER := Some w', kwriter_locked := False\<rparr>)"
    "\<And>t. whole_rows v \<Longrightarrow> shows_screen v t \<Longrightarrow>
       shows_screen w' (fold (fold (screen_char (panic_style v))) (panic_info P msg @ [[10]]) t)"
    by (rule panic_handler_reports [OF c q(1)]) blast
  define m' where "m' = m\<lparr>con := (con m)\<lparr>SERIAL1 := q, KWRITER := Some w', kwriter_locked := False\<rparr>\<rparr>"
  have "on_console (panic_handler U (panic_info P msg)) m = (Ok (), m')"
    using w'(3) by (simp add: on_console_def zoom_def map_err_prog_def m'_def)
  moreover have "\<forall>t. whole_rows v \<and> shows_screen v t \<longrightarrow>
      shows_screen w' (fold (fold (screen_char (panic_style v))) (panic_info P msg @ [newline]) t)"
    using w'(4) by (simp add: newline_def)
  moreover have "KWRITER (con m') = Some w'" "console_ok (con m')"
    "sent_by sent m' = sent_by sent m @ concat (panic_info P msg) @ newline"
    using q(2) w'(2) by (simp_all add: m'_def sent_by_def console_ok_def)
  ultimately show ?thesis
    using idt entry rest w'(1) unfolding msg_def by blast
qed

text \<open>The machine that printed nothing yet, with the kernel's tables.\<close>

definition equipped_machine :: "(rust_char list, 64 word, VirtAddr list, descriptor list, nat, unit, unit) machine" where
  "equipped_machine = cold\<lparr>
     con := small_console\<lparr>KWRITER := Some small_writer, PANIC_LEVEL := 1\<rparr>,
     segments := snd (init_gdt x86_64_entries descriptor_lists 0x8000 (segments cold) :: (hang, unit) outcome \<times> _),
     idt_register := Some (IDT silent_format)\<rparr>"

lemma equipped_machine_ok: "equipped descriptor_lists silent_format 0x8000 equipped_machine"
proof -
  have "canonical 0x8000" "canonical (0x8000 + 4096)" "TSS (segments cold) = None" "GDT (segments cold) = None"
    by (simp_all add: canonical_def cold_def)
  from lists.init_gdt_first [OF entries.x86_64_crate_axioms this, where 'e = hang] show ?thesis
    using small_writer_ok(1)
    by (auto simp: equipped_def equipped_machine_def console_ok_def small_console_def)
qed

theorem exception_is_reported_witness:
  "\<exists>table entry rest msg m' w'. idt_register equipped_machine = Some table \<and> table page_fault = Some entry \<and>
    invoke (entry_handler entry) () 0 () (Inr 0) = PanicMessage msg \<and>
    msg = literal (exception_title page_fault) @ newline @ rest \<and>
    on_console (panic_handler wire (panic_info silent_printing msg)) equipped_machine = (Ok (), m') \<and>
    KWRITER (con m') = Some w' \<and>
    shows_screen w' (fold (fold (screen_char (panic_style small_writer)))
      (panic_info silent_printing msg @ [newline]) blank_screen)"
proof -
  have "\<And>c. c < 2 ^ 16 \<Longrightarrow> selector_error_code silent_format c \<noteq> None" "KWRITER (con equipped_machine) = Some small_writer"
    by (simp_all add: silent_format_def equipped_machine_def)
  with exception_is_reported [OF equipped_machine_ok _ wire.serial_line_axioms, of page_fault 0 "()" "()" "Inr 0"
      silent_printing] show ?thesis
    using small_writer_ok(2,3) by fastforce
qed

end
