(* ===== verification/Kernel_Image.thy ===== *)
theory Kernel_Image
  imports After_Boot
begin

text \<open>
  The image of the kernel: the statics of \<open>limine_requests.rs\<close> with the section each is placed in, and the layout
  of the linker script \<open>linker.ld\<close>, which defines the symbols the boot code maps the kernel by. The sizes of the
  sections are arbitrary, and the constant \<open>MAXPAGESIZE\<close> of the linker is a parameter, 4 KiB in the theorems.
\<close>

section \<open>The requests to the bootloader\<close>

definition REVISION :: u64 where
  "REVISION = 4"

datatype limine_static = LIMINE_BASE_REVISION | LIMINE_REQUEST_START_MARKER | MEMORY_MAP_REQUEST | FRAMEBUFFER_REQUEST
  | BOOTLOADER_INFO_REQUEST | HHDM_REQUEST | KERNEL_ADDRESS_REQUEST | SMBIOS_REQUEST | STACK_SIZE_REQUEST
  | LIMINE_REQUEST_END_MARKER

datatype link_section = limine_req_start | limine_reqs | limine_req_end

text \<open>The attribute \<open>link_section\<close> of each static.\<close>

definition section_of :: "limine_static \<Rightarrow> link_section" where
  "section_of s = (case s of
      LIMINE_REQUEST_START_MARKER \<Rightarrow> limine_req_start
    | LIMINE_REQUEST_END_MARKER \<Rightarrow> limine_req_end
    | _ \<Rightarrow> limine_reqs)"

text \<open>The revision passed to \<open>use_base_revision\<close> or to the \<open>new\<close> of a request.\<close>

definition revision_of :: "limine_static \<Rightarrow> u64 option" where
  "revision_of s = (if section_of s = limine_reqs then Some REVISION else None)"

text \<open>The output section \<open>.limine_reqs\<close>: whatever order the object files have the statics in, the linker puts the
  input sections one after the other.\<close>

definition limine_section :: "limine_static list \<Rightarrow> limine_static list" where
  "limine_section input = concat (map (\<lambda>sec. filter (\<lambda>s. section_of s = sec) input)
     [limine_req_start, limine_reqs, limine_req_end])"

instantiation limine_static :: enum
begin

definition enum_limine_static :: "limine_static list" where
  "enum_limine_static = [LIMINE_BASE_REVISION, LIMINE_REQUEST_START_MARKER, MEMORY_MAP_REQUEST, FRAMEBUFFER_REQUEST,
     BOOTLOADER_INFO_REQUEST, HHDM_REQUEST, KERNEL_ADDRESS_REQUEST, SMBIOS_REQUEST, STACK_SIZE_REQUEST,
     LIMINE_REQUEST_END_MARKER]"

definition enum_all_limine_static :: "(limine_static \<Rightarrow> bool) \<Rightarrow> bool" where
  "enum_all_limine_static P \<longleftrightarrow> list_all P enum_class.enum"

definition enum_ex_limine_static :: "(limine_static \<Rightarrow> bool) \<Rightarrow> bool" where
  "enum_ex_limine_static P \<longleftrightarrow> list_ex P enum_class.enum"

lemma all_statics: "set (enum_class.enum :: limine_static list) = UNIV"
proof -
  have "s \<in> set (enum_class.enum :: limine_static list)" for s :: limine_static
    by (cases s) (simp_all add: enum_limine_static_def)
  then show ?thesis
    by blast
qed

instance
  by standard (use all_statics in \<open>auto simp: enum_all_limine_static_def enum_ex_limine_static_def list_all_iff list_ex_iff
      enum_limine_static_def\<close>)

end

lemma filter_single: "distinct xs \<Longrightarrow> x \<in> set xs \<Longrightarrow> filter (\<lambda>y. y = x) xs = [x]"
  by (induction xs) (auto simp: filter_empty_conv)

text \<open>The bootloader looks for requests between the two markers.\<close>

lemma requests_between_markers:
  assumes "distinct input" "set input = UNIV"
  shows "\<exists>requests. limine_section input = LIMINE_REQUEST_START_MARKER # requests @ [LIMINE_REQUEST_END_MARKER] \<and>
    distinct requests \<and> set requests = {s. revision_of s = Some REVISION}"
proof -
  have one: "filter (\<lambda>s. section_of s = sec) input = [s]" if "\<And>t. section_of t = sec \<longleftrightarrow> t = s" for s sec
    using filter_single [OF assms(1), of s] assms(2) that by simp
  have "section_of t = limine_req_start \<longleftrightarrow> t = LIMINE_REQUEST_START_MARKER"
    "section_of t = limine_req_end \<longleftrightarrow> t = LIMINE_REQUEST_END_MARKER" for t
    by (cases t; simp add: section_of_def)+
  from one [OF this(1)] one [OF this(2)] show ?thesis
    using assms by (intro exI [of _ "filter (\<lambda>s. section_of s = limine_reqs) input"])
      (simp add: limine_section_def revision_of_def)
qed

section \<open>The linker script\<close>

record section_sizes =
  limine_size :: nat
  text_size :: nat
  rodata_size :: nat
  data_size :: nat
  bss_size :: nat

definition align_to :: "u64 \<Rightarrow> u64 \<Rightarrow> u64" where
  "align_to n a = (a + (n - 1)) div n * n"

text \<open>The addresses of the output sections and the symbols between them, in the order of the script.\<close>

definition image_base :: u64 where
  "image_base = 0xFFFFFFFF80000000"

definition text_address :: "section_sizes \<Rightarrow> u64" where
  "text_address z = align_to 4096 (image_base + limine_size z)"

definition rodata_address :: "section_sizes \<Rightarrow> u64" where
  "rodata_address z = align_to 4096 (text_address z + text_size z)"

definition data_address :: "section_sizes \<Rightarrow> u64" where
  "data_address z = align_to 4096 (rodata_address z + rodata_size z)"

definition bss_address :: "section_sizes \<Rightarrow> u64" where
  "bss_address z = align_to 4096 (data_address z + data_size z)"

definition linked_image :: "u64 \<Rightarrow> section_sizes \<Rightarrow> (u64 \<times> u64) option \<Rightarrow> u64 option \<Rightarrow> boot_info" where
  "linked_image MAXPAGESIZE z kernel_addr offset = \<lparr>
     limine_reqs_start = image_base,
     text_start = align_to MAXPAGESIZE (image_base + limine_size z),
     rodata_start = align_to MAXPAGESIZE (text_address z + text_size z),
     data_start = align_to MAXPAGESIZE (rodata_address z + rodata_size z),
     elf_end = align_to MAXPAGESIZE (bss_address z + bss_size z),
     kernel_address = kernel_addr, hhdm_offset = offset\<rparr>"

lemma align_4K: "a \<le> align_to 4096 a" "align_to 4096 a mod 4096 = 0"
  using div_mult_mod_eq [of "a + 4095" 4096] mod_less_divisor [of 4096 "a + 4095"] by (simp_all add: align_to_def)

lemma linked_image_sel:
  "limine_reqs_start (linked_image 4096 z ka h) = image_base" "text_start (linked_image 4096 z ka h) = text_address z"
  "rodata_start (linked_image 4096 z ka h) = rodata_address z" "data_start (linked_image 4096 z ka h) = data_address z"
  "elf_end (linked_image 4096 z ka h) = align_to 4096 (bss_address z + bss_size z)"
  "kernel_address (linked_image 4096 z ka h) = ka" "hhdm_offset (linked_image 4096 z ka h) = h"
  by (simp_all add: linked_image_def text_address_def rodata_address_def data_address_def)

lemma linked_order:
  "image_base + limine_size z \<le> text_address z" "text_address z + text_size z \<le> rodata_address z"
  "rodata_address z + rodata_size z \<le> data_address z" "data_address z + data_size z \<le> bss_address z"
  "bss_address z + bss_size z \<le> elf_end (linked_image 4096 z ka h)"
  by (simp_all add: align_4K(1) linked_image_sel text_address_def rodata_address_def data_address_def bss_address_def)

lemma linked_aligned:
  "image_base mod 4096 = 0" "text_address z mod 4096 = 0" "rodata_address z mod 4096 = 0" "data_address z mod 4096 = 0"
  "elf_end (linked_image 4096 z ka h) mod 4096 = 0"
  by (simp_all add: align_4K(2) linked_image_sel text_address_def rodata_address_def data_address_def image_base_def)

text \<open>The layout the boot code relies on is the one the script produces, whatever the sizes of the sections, as long as
  the image fits the upper two gibibytes and the region the bootloader reports for it.\<close>

lemma linked_image_ok:
  assumes "elf_end (linked_image 4096 z (Some (image_base, pb)) h) - image_base \<le> len" "frame_address pb"
    and "pb + size_in_pages len * 4096 < 2 ^ 52" "elf_end (linked_image 4096 z (Some (image_base, pb)) h) < 2 ^ 64"
    and "size_in_pages len * 4096 \<le> 0x80000000"
  shows "kernel_ok (linked_image 4096 z (Some (image_base, pb)) h) len"
proof -
  let ?i = "linked_image 4096 z (Some (image_base, pb)) h"
  have "image_base \<le> elf_end ?i"
    using linked_order(1-4) [of z] linked_order(5) [of z "Some (image_base, pb)" h] by linarith
  then have "canonical (elf_end ?i)"
    using assms(4) by (simp add: canonical_def image_base_def)
  moreover have "sorted [limine_reqs_start ?i, text_start ?i, rodata_start ?i, data_start ?i, elf_end ?i]"
    using linked_order(1-4) [of z] linked_order(5) [of z "Some (image_base, pb)" h] unfolding linked_image_sel(1-4) by simp
  moreover have "free_range image_base (size_in_pages len)"
    using assms(5) by (simp add: free_range_def image_base_def)
  ultimately show ?thesis
    using assms linked_aligned by (simp add: kernel_ok_def linked_image_sel(1-4,6))
qed

text \<open>The page of a byte between two aligned addresses is one of the pages that are mapped for the section.\<close>

lemma section_byte_page:
  assumes "a \<le> x" "x < b" "a mod 4096 = 0" "b mod 4096 = 0"
  shows "x div 4096 * 4096 \<in> set (page_range a b)"
proof -
  obtain i j where ij: "a = 4096 * i" "b = 4096 * j"
    using assms(3,4) by (auto simp: mod_eq_0_iff_dvd elim!: dvdE)
  then have "i \<le> x div 4096" "x div 4096 < j"
    using assms(1,2) by (auto simp: less_eq_div_iff_mult_less_eq div_less_iff_less_mult mult.commute)
  moreover have "div_ceil (b - a) 4096 = j - i"
    by (simp add: ij div_ceil_def diff_mult_distrib2 [symmetric])
  ultimately show ?thesis
    by (auto simp: page_range_def ij image_iff algebra_simps intro!: bexI [of _ "x div 4096 - i"])
qed

section \<open>Properties\<close>

text \<open>C8. Every byte of the kernel has the permissions of its section. For an image laid out by the linker script, with
  \<open>CONSTANT(MAXPAGESIZE)\<close> taken as 4096 and sections of any size, after \<open>init_memory\<close> every byte of \<open>.text\<close> is mapped executable and read only, every byte of
  \<open>.rodata\<close> read only and not executable, and every byte of \<open>.data\<close> and \<open>.bss\<close> writable and not executable, each to
  the frame the bootloader loaded it in.\<close>

theorem section_bytes_mapped:
  assumes "x86_64_crate X" "info = linked_image 4096 z (Some (vb, pb)) (Some off)" "boot_ok info mmap sp"
    and "init_memory X info (Some mmap) sp s = (Ok res, s')"
  defines "space \<equiv> mapped X \<lparr>lvl4 = cr3 res + off, internal_offset = off\<rparr> (tables s')"
  shows "(\<forall>x \<in> {text_address z..<text_address z + text_size z}.
       space x = Some (x div 4096 * 4096 - vb + pb, flags_or X (flags_rx X) (GLOBAL X))) \<and>
    (\<forall>x \<in> {rodata_address z..<rodata_address z + rodata_size z}.
       space x = Some (x div 4096 * 4096 - vb + pb, flags_or X (flags_r X) (GLOBAL X))) \<and>
    (\<forall>x \<in> {data_address z..<data_address z + data_size z} \<union> {bss_address z..<bss_address z + bss_size z}.
       space x = Some (x div 4096 * 4096 - vb + pb, flags_or X (flags_rw X) (GLOBAL X)))"
proof (rule boot_okE [OF assms(3)])
  fix off' region k highest
  assume "hhdm_offset info = Some off'" "boot_layout info mmap sp off' k region highest"
  then have lay: "boot_layout info mmap sp off k region highest"
    by (simp add: assms(2) linked_image_sel)
  have ka: "hhdm_offset info = Some off" "kernel_address info = Some (vb, pb)"
    by (simp_all add: assms(2) linked_image_sel)
  note sections = x86_64_crate.boot_sections [OF assms(1) lay ka assms(4), folded space_def]
  have sel: "text_start info = text_address z" "rodata_start info = rodata_address z" "data_start info = data_address z"
    "elf_end info mod 4096 = 0"
    using linked_aligned(5) by (simp_all add: assms(2) linked_image_sel(2-4))
  have ord: "text_address z + text_size z \<le> rodata_address z" "rodata_address z + rodata_size z \<le> data_address z"
    "data_address z + data_size z \<le> bss_address z" "bss_address z + bss_size z \<le> elf_end info"
    unfolding assms(2) by (rule linked_order)+
  have page: "space x = space (x div 4096 * 4096)" for x
    unfolding space_def by (rule mapped_page_key, rule page_key_cong) simp
  have bytes: "space x = Some (x div 4096 * 4096 - vb + pb, fl)"
    if "\<And>p. p \<in> set (page_range a b) \<Longrightarrow> space p = Some (p - vb + pb, fl)" "a \<le> x" "x < b" "a mod 4096 = 0" "b mod 4096 = 0"
    for x a b fl
    unfolding page [of x] by (rule that(1), rule section_byte_page) (use that in auto)
  have "space x = Some (x div 4096 * 4096 - vb + pb, flags_or X (flags_rx X) (GLOBAL X))"
    if "text_address z \<le> x" "x < rodata_address z" for x
    by (rule bytes, erule sections(1) [unfolded sel(1,2)]) (rule that linked_aligned)+
  moreover have "space x = Some (x div 4096 * 4096 - vb + pb, flags_or X (flags_r X) (GLOBAL X))"
    if "rodata_address z \<le> x" "x < data_address z" for x
    by (rule bytes, erule sections(2) [unfolded sel(2,3)]) (rule that linked_aligned)+
  moreover have "space x = Some (x div 4096 * 4096 - vb + pb, flags_or X (flags_rw X) (GLOBAL X))"
    if "data_address z \<le> x" "x < elf_end info" for x
    by (rule bytes, erule sections(3) [unfolded sel(3)]) (rule that linked_aligned(4) sel(4))+
  ultimately show ?thesis
    using ord by auto
qed

text \<open>An image with a page of code only is the small kernel.\<close>

lemma small_image: "linked_image 4096 \<lparr>limine_size = 0, text_size = 0x123, rodata_size = 0, data_size = 0, bss_size = 0\<rparr>
    (Some (0xFFFFFFFF80000000, 0x4000000)) (Some 0xFFFF800000000000) = small_info"
  by (simp add: linked_image_def small_info_def align_to_def text_address_def rodata_address_def data_address_def
      bss_address_def image_base_def)

theorem section_bytes_mapped_witness:
  "\<exists>res s'. init_memory x86_64_entries small_info (Some small_mmap) 0xFFFF800004027FF0
      \<lparr>tables = Map.empty, frames = 0\<rparr> = (Ok res, s') \<and>
    mapped x86_64_entries \<lparr>lvl4 = cr3 res + 0xFFFF800000000000, internal_offset = 0xFFFF800000000000\<rparr> (tables s')
      0xFFFFFFFF80000122 = Some (0x4000000, flags_or x86_64_entries (flags_rx x86_64_entries) (GLOBAL x86_64_entries))"
proof -
  let ?z = "\<lparr>limine_size = 0, text_size = 0x123, rodata_size = 0, data_size = 0, bss_size = 0\<rparr> :: section_sizes"
  obtain res s' where run: "init_memory x86_64_entries small_info (Some small_mmap) 0xFFFF800004027FF0
      \<lparr>tables = Map.empty, frames = 0\<rparr> = (Ok res, s')"
    using entries.init_memory_total [OF small_boot_ok] by blast
  note bytes = section_bytes_mapped [OF entries.x86_64_crate_axioms small_image [symmetric] small_boot_ok run]
  have "0xFFFFFFFF80000122 \<in> {text_address ?z..<text_address ?z + text_size ?z}"
    by (simp add: text_address_def align_to_def image_base_def)
  with bytes have "mapped x86_64_entries \<lparr>lvl4 = cr3 res + 0xFFFF800000000000, internal_offset = 0xFFFF800000000000\<rparr> (tables s')
      0xFFFFFFFF80000122 = Some (0xFFFFFFFF80000122 div 4096 * 4096 - 0xFFFFFFFF80000000 + 0x4000000,
        flags_or x86_64_entries (flags_rx x86_64_entries) (GLOBAL x86_64_entries))"
    by blast
  then show ?thesis
    using run by simp
qed

end
