(* ===== verification/Spec2Isabelle.thy ===== *)
theory Spec2Isabelle
  imports Address_Space Kernel_Properties Kernel_Image
begin

text \<open>
  Kermol is a kernel for x86-64 machines, written in Rust and started by a Limine bootloader. This
  development models the kernel's own code under \<^verbatim>\<open>src/src\<close> and proves what its components promise.

  \<^bold>\<open>Parts of the program and how they interact.\<close> \<^verbatim>\<open>kernel_main\<close> (\<^verbatim>\<open>lib.rs\<close>) starts the components in turn: the
  text console (\<^verbatim>\<open>display/\<close>: a linear framebuffer, the emulation of a VGA text screen on it, a writer with a
  cursor, and the locked writer every message goes through), the segment tables (\<^verbatim>\<open>memory/gdt.rs\<close>), the
  table of exception handlers (\<^verbatim>\<open>interrupts/\<close>), and the memory (\<^verbatim>\<open>memory/\<close>). \<^verbatim>\<open>init_memory\<close> chooses the largest
  usable region of the bootloader's map, hands out frames from it with the linear allocator, builds a
  four-level page table with the kernel image, the bootloader's regions, the stack and the heap, makes the
  bitmap allocators of frames and of virtual pages, loads the table, and stores the paging controller through
  which \<^verbatim>\<open>AllocatedMemory\<close> reserves pages later. Every failure ends in the panic handler, which prints on
  the serial port and, once the console runs, on the screen.

  \<^bold>\<open>How code becomes definitions.\<close> \<open>Kermol_Prelude\<close> has the outcome of a Rust function, \<open>Ok\<close>, \<open>Err\<close> or
  \<open>Panic\<close>, and programs over a state, \<open>('s, 'e, 'a) prog\<close>, with the combinators the source needs: \<open>try_prog\<close>
  for the question mark operator and sequencing, \<open>unwrap_prog\<close>, \<open>map_err_prog\<close>, \<open>for_each\<close>, \<open>zoom\<close> for a call on a
  field. A Rust function with the receiver \<^verbatim>\<open>&mut self\<close> is a program whose state is \<open>self\<close>; one with \<^verbatim>\<open>&self\<close> takes it
  as an argument. A \<^verbatim>\<open>u64\<close> or \<^verbatim>\<open>usize\<close> is a \<open>nat\<close> below \<open>2 ^ 64\<close>, and every sum, difference and product goes
  through \<open>add64\<close>, \<open>sub64\<close> or \<open>mul64\<close>, which panic where the checked arithmetic of the build panics; bitmaps and
  pixels are words. Indexing out of a slice panics. The heap of page tables is a partial map from addresses to
  tables of 512 entries, the framebuffer a list of pixels, the locks and \<^verbatim>\<open>Once\<close> cells fields of the state.

  \<^bold>\<open>Theories.\<close>
  \<^item> \<open>Memory_Types\<close>: \<^verbatim>\<open>util.rs\<close> and the constants, errors and sizes of \<^verbatim>\<open>memory/mod.rs\<close>.
  \<^item> \<open>X86_64_Interface\<close>: the part of the x86\_64 crate the kernel calls, as a record of functions, the laws it
    relies on as the locale \<open>x86_64_crate\<close>, and \<open>x86_64_entries\<close>, an instance on 64-bit words (\<open>entries\<close>).
  \<^item> \<open>Bitmap_Allocator\<close>, \<open>Linear_Frame_Allocator\<close>, \<open>Frame_Allocation\<close>, \<open>Page_Mapping\<close>: the allocators of
    \<^verbatim>\<open>memory/paging/\<close>, one definition per method, the loops of \<^verbatim>\<open>scan\<close>, \<^verbatim>\<open>check_range\<close> and \<^verbatim>\<open>flag_range\<close> as recursions.
    \<open>Allocator_Properties\<close>: allocation returns free bits and marks exactly them, finds a block when there is
    one, successive blocks are disjoint, the scan is the first fit, and where the code departs from this
    (large blocks, freeing, the full allocator of pages).
  \<^item> \<open>Page_Table\<close>: \<^verbatim>\<open>page_table.rs\<close>. \<open>Page_Table_Walk\<close> and \<open>Page_Table_Correct\<close> hold the invariant \<open>paging_inv\<close>
    (the tables form a tree, disjoint from the frames still to be handed out; every link carries the flags
    \<open>map\<close> gives it, and entry 510 leads back to the root), the abstraction \<open>mapped\<close> from the
    tables to a function from pages to frames and flags, and the effect of each operation on it, inside
    locales over an arbitrary frame allocator that are interpreted on the linear one. \<open>Page_Table_Growth\<close> says
    which tables an operation can create; \<open>Page_Table_Debug\<close> is the debug output of a table.
    \<open>Page_Table_Properties\<close> states them for the kernel; \<open>Address_Space\<close> has the specification of an
    address space as a step relation and the refinement of every sequence of calls with page-aligned frames and
    present flags outside the recursive range, and what an \<open>unmap\<close> inside it does.
  \<^item> \<open>Processor_View\<close>: the walk of the memory management unit through the tables, and memory as code that runs on
    these tables sees it, with the accesses the flags on the way allow (\<open>cpu_allows\<close>). \<open>translate\<close>, \<open>map\<close> and \<open>unmap\<close> agree with the processor, and \<open>load\<close> leaves a pointer that is
    not the address of the level-4 table.
  \<^item> \<open>Page_Ranges\<close>, \<open>Paging_Init\<close>, \<open>Paging_Controller\<close>, \<open>Memory_Init\<close>: \<^verbatim>\<open>paging/mod.rs\<close>, \<^verbatim>\<open>paging_controller.rs\<close>,
    and \<^verbatim>\<open>init_memory\<close>. \<open>Boot_Properties\<close>: the permissions of the kernel image in the new table, what \<open>map\<close> does with
    the frames of the bitmap allocator, the bitmap that is too small for the memory, and the controller that never
    allocates. \<open>Boot_Success\<close> and \<open>Boot_Complete\<close>:
    a test \<open>boot_ok\<close> of the bootloader's answers under which \<^verbatim>\<open>init_memory\<close> succeeds, with the exact set of
    pages mapped at the end, and the page tables and bitmaps that are not among them. \<open>After_Boot\<close>: on the new
    tables the code, data, stack and framebuffers of the running kernel are still mapped, with the right flags,
    and the page tables can no longer be used. \<open>Table_Switch\<close>: the condition under which a loaded table serves the
    running kernel, and that the table of a good boot does. \<open>Kernel_Image\<close>: the requests of \<^verbatim>\<open>limine_requests.rs\<close> and the layout
    of \<^verbatim>\<open>linker.ld\<close>, under which every byte of a section has the permissions of the section.
  \<^item> \<open>Allocated_Memory\<close>: \<^verbatim>\<open>allocated_memory.rs\<close>, with the checks of every access, the alignment \<^verbatim>\<open>ptr::read\<close> and
    \<^verbatim>\<open>ptr::write\<close> require, and the round trip of a value.
  \<^item> \<open>Linear_Framebuffer\<close>, \<open>Vga_Text_Emulation\<close> (with the whole font), \<open>Vga_Text_Writer\<close>, \<open>Kernel_Writer\<close>: the
    files of \<^verbatim>\<open>display/\<close> and the panic handler of \<^verbatim>\<open>lib.rs\<close>. \<open>Display_Properties\<close>: the writer refines an ideal
    text screen, never panics from a cursor on the screen, the kernel can print after \<^verbatim>\<open>init_kwriter\<close>, and what
    a panic inside printing does.
  \<^item> \<open>Serial_Port\<close>: \<^verbatim>\<open>serial.rs\<close>, with the uart\_16550 crate behind the locale \<open>serial_line\<close>.
  \<^item> \<open>Gdt\<close>, \<open>Interrupts\<close>: \<^verbatim>\<open>gdt.rs\<close>, the 23 handlers of \<^verbatim>\<open>exceptions.rs\<close> and the table of \<^verbatim>\<open>interrupts/mod.rs\<close>.
  \<^item> \<open>Kernel_Main\<close>: \<^verbatim>\<open>kernel_main\<close>, \<^verbatim>\<open>init_heap\<close> and \<^verbatim>\<open>log_ram_map\<close> over the state of the whole machine.
    Once CR3 is loaded, \<open>load_table\<close> takes from the processor's walk which pixels of the framebuffer can be read and
    written and whether the code, the data and the stack in use can still be reached.
    \<open>Kernel_Properties\<close>: the kernel boots when the answers of the bootloader are good, reaches a halt when
    \<open>init_memory\<close> fails and when the table it loads serves the kernel, and reports exceptions on the screen when the
    console and the serial port are free.

  \<^bold>\<open>Parameters.\<close> The x86\_64 crate (page table entries, flags, address types, descriptor tables, the text of
  its types), the answers of the bootloader, the heap allocator and the uart\_16550 crate are arguments of
  the definitions. What the proofs use of them are the assumptions of the locales \<open>x86_64_crate\<close>,
  \<open>descriptor_tables\<close> and \<open>serial_line\<close>, each interpreted on an instance the witnesses compute with.

  \<^bold>\<open>Termination.\<close> All definitions are total functions. The loops run over finite ranges or have a measure;
  the one loop of the source that may run for ever, waiting for a lock that nobody will release on the one
  processor, is the error \<open>SpinsForever\<close>. No fuel is used.

  \<^bold>\<open>Faults.\<close> Until \<open>load\<close> the bootloader's page table maps all memory the kernel touches. Afterwards an access to a pixel
  that the loaded table does not allow is \<open>Panic PageFault\<close>, as the page fault handler makes it; a heap block that is
  not writable is \<open>Panic BadPointer\<close>; and code, data or stack out of reach is \<open>Err Crashed\<close>. How deep below the entry
  stack pointer the compiled kernel uses its stack is an argument, \<open>stack_depth\<close>; the theorems hold for every depth
  within the stack that \<open>remap_stack\<close> maps.

  \<^bold>\<open>Not modelled.\<close> What the processor does after \<open>Crashed\<close>, where the exception handlers themselves may be out of reach,
  and which part of a block copy or fill is done before it faults. The page tables and the bitmaps are fields of the
  state; the kernel does not touch them between \<open>load\<close> and the halt, and what happens when it does later is stated for
  the memory as the processor sees it (\<open>paging_unusable_after_boot\<close>, \<open>boot_tables_unreachable\<close>). The mutex around
  the paging controller has no state: each function that takes it runs to its end on the one processor. Translations the processor has cached are not modelled, nor
  large pages, which the kernel never makes. The crate linked\_list\_allocator is represented by the block it is
  given, the answers of the bootloader are arguments. The flag that enables
  interrupts is not part of the state: the kernel installs no handler for hardware interrupts. \<^verbatim>\<open>apic.rs\<close>
  and the code for hardware interrupts are commented out in the source.
\<close>

end
